theory Spec2Isabelle
  imports Complex_Main "HOL-Library.Multiset" "HOL-Library.Word"
begin

section \<open>Values, failures and the math header\<close>

text \<open>
  The renderer of \<^verbatim>\<open>yocto_raytrace.cpp\<close> computes on \<^verbatim>\<open>float\<close>, \<^verbatim>\<open>int\<close> and small
  vectors of them. Floats are modelled by exact reals (the specification assumes an
  exact-precision vector library), \<^verbatim>\<open>int\<close> by unbounded integers: no claim below depends
  on rounding or on 32-bit wrap-around. Vectors are tuples.
\<close>

type_synonym vec2f = "real \<times> real"
type_synonym vec3f = "real \<times> real \<times> real"
type_synonym vec4f = "real \<times> real \<times> real \<times> real"
type_synonym vec2i = "int \<times> int"
type_synonym vec3i = "int \<times> int \<times> int"
type_synonym byte = "8 word"
type_synonym vec3b = "byte \<times> byte \<times> byte"

text \<open>
  What C++ leaves undefined is a value of the model: reading a \<^verbatim>\<open>std::vector\<close> outside
  its range, the integer remainder by zero, reading through a null pointer, and writing
  past the end of the traversal's fixed stack.
\<close>

datatype error = OutOfRange | ModuloByZero | NullPointer | StackOverflow

definition bind_e :: "error + 'a \<Rightarrow> ('a \<Rightarrow> error + 'b) \<Rightarrow> error + 'b" where
  "bind_e m f = (case m of Inl e \<Rightarrow> Inl e | Inr a \<Rightarrow> f a)"

text \<open>\<^verbatim>\<open>v[i]\<close> on a \<^verbatim>\<open>std::vector\<close>, with an \<^verbatim>\<open>int\<close> index.\<close>

definition elem :: "'a list \<Rightarrow> int \<Rightarrow> error + 'a" where
  "elem xs i = (if 0 \<le> i \<and> i < int (length xs) then Inr (xs ! nat i) else Inl OutOfRange)"

text \<open>The built-in \<^verbatim>\<open>a % b\<close> on \<^verbatim>\<open>int\<close>: the remainder of the truncating division.\<close>

definition cpp_mod :: "int \<Rightarrow> int \<Rightarrow> error + int" where
  "cpp_mod a b = (if b = 0 then Inl ModuloByZero else Inr (sgn a * (\<bar>a\<bar> mod \<bar>b\<bar>)))"

text \<open>The conversion \<^verbatim>\<open>(int)s\<close> of a float truncates toward zero.\<close>

definition trunc_int :: "real \<Rightarrow> int" where
  "trunc_int s = (if 0 \<le> s then \<lfloor>s\<rfloor> else \<lceil>s\<rceil>)"

text \<open>
  \<^verbatim>\<open>std::fmod\<close> of the C library: \<^verbatim>\<open>a - trunc(a / b) * b\<close>, with the sign of \<^verbatim>\<open>a\<close>. The
  source only calls it with \<^verbatim>\<open>b = 1\<close>.
\<close>

definition fmod :: "real \<Rightarrow> real \<Rightarrow> real" where
  "fmod a b = a - real_of_int (trunc_int (a / b)) * b"

text \<open>
  Modelled from the spec: the vector helpers of the math header \<^verbatim>\<open>yocto_math.h\<close>, which is
  not part of the sources. The specification lists them as the standard operations of an
  exact-precision vector library (componentwise arithmetic, dot, cross, normalize,
  interpolate, clamp).
\<close>

definition clamp :: "int \<Rightarrow> int \<Rightarrow> int \<Rightarrow> int" where
  "clamp a lo hi = min (max a lo) hi"

definition zero3f :: vec3f where
  "zero3f = (0, 0, 0)"

fun add3 :: "vec3f \<Rightarrow> vec3f \<Rightarrow> vec3f" where
  "add3 (ax, ay, az) (bx, by, bz) = (ax + bx, ay + by, az + bz)"

fun sub3 :: "vec3f \<Rightarrow> vec3f \<Rightarrow> vec3f" where
  "sub3 (ax, ay, az) (bx, by, bz) = (ax - bx, ay - by, az - bz)"

fun mul3 :: "vec3f \<Rightarrow> vec3f \<Rightarrow> vec3f" where
  "mul3 (ax, ay, az) (bx, by, bz) = (ax * bx, ay * by, az * bz)"

fun scale3 :: "vec3f \<Rightarrow> real \<Rightarrow> vec3f" where
  "scale3 (ax, ay, az) k = (ax * k, ay * k, az * k)"

fun neg3 :: "vec3f \<Rightarrow> vec3f" where
  "neg3 (ax, ay, az) = (- ax, - ay, - az)"

fun dot :: "vec3f \<Rightarrow> vec3f \<Rightarrow> real" where
  "dot (ax, ay, az) (bx, by, bz) = ax * bx + ay * by + az * bz"

fun cross :: "vec3f \<Rightarrow> vec3f \<Rightarrow> vec3f" where
  "cross (ax, ay, az) (bx, by, bz) = (ay * bz - az * by, az * bx - ax * bz, ax * by - ay * bx)"

definition length3 :: "vec3f \<Rightarrow> real" where
  "length3 a = sqrt (dot a a)"

definition normalize_v :: "vec3f \<Rightarrow> vec3f" where
  "normalize_v a = (let l = length3 a in if l \<noteq> 0 then scale3 a (1 / l) else a)"

fun vec3_x :: "vec3f \<Rightarrow> real" where
  "vec3_x (ax, ay, az) = ax"

fun mean3 :: "vec3f \<Rightarrow> real" where
  "mean3 (ax, ay, az) = (ax + ay + az) / 3"

fun byte_to_float :: "vec3b \<Rightarrow> vec3f" where
  "byte_to_float (r, g, b) = (real (unat r) / 255, real (unat g) / 255, real (unat b) / 255)"

section \<open>Textures\<close>

text \<open>
  Modelled from the spec: the raster \<^verbatim>\<open>img::image<T>\<close> of \<^verbatim>\<open>yocto_image.h\<close>, which is not
  part of the sources: an extent (width, height) and the pixels in row-major order;
  \<^verbatim>\<open>empty()\<close> asks whether there are no pixels, \<^verbatim>\<open>size()\<close> returns the extent and
  \<^verbatim>\<open>img[{i, j}]\<close> reads pixel \<^verbatim>\<open>j * width + i\<close>.
\<close>

record 'a image =
  extent :: vec2i
  pixels :: "'a list"

definition image_empty :: "'a image \<Rightarrow> bool" where
  "image_empty img = (pixels img = [])"

definition image_at :: "'a image \<Rightarrow> vec2i \<Rightarrow> error + 'a" where
  "image_at img ij = elem (pixels img) (snd ij * fst (extent img) + fst ij)"

definition no_image :: "'a image" where
  "no_image = \<lparr>extent = (0, 0), pixels = []\<rparr>"

text \<open>
  A texture holds one raster in each of the four encodings; \<^verbatim>\<open>set_texture\<close> fills one and
  clears the other three.
\<close>

record texture =
  colorf :: "vec3f image"
  colorb :: "vec3b image"
  scalarf :: "real image"
  scalarb :: "byte image"

definition texture_size :: "texture \<Rightarrow> vec2i" where
  "texture_size texture =
     (if \<not> image_empty (colorf texture) then extent (colorf texture)
      else if \<not> image_empty (colorb texture) then extent (colorb texture)
      else if \<not> image_empty (scalarf texture) then extent (scalarf texture)
      else if \<not> image_empty (scalarb texture) then extent (scalarb texture)
      else (0, 0))"

text \<open>
  \<^verbatim>\<open>srgb_to_rgb\<close> (the display decoding of the math header) is a parameter of the texture
  functions: they only pass values through it.
\<close>

definition lookup_texture ::
  "(vec3f \<Rightarrow> vec3f) \<Rightarrow> texture \<Rightarrow> vec2i \<Rightarrow> bool \<Rightarrow> error + vec3f" where
  "lookup_texture srgb_to_rgb texture ij ldr_as_linear =
     (if \<not> image_empty (colorf texture) then image_at (colorf texture) ij
      else if \<not> image_empty (colorb texture) then
        bind_e (image_at (colorb texture) ij) (\<lambda>c.
          Inr (if ldr_as_linear then byte_to_float c else srgb_to_rgb (byte_to_float c)))
      else if \<not> image_empty (scalarf texture) then
        bind_e (image_at (scalarf texture) ij) (\<lambda>c. Inr (c, c, c))
      else if \<not> image_empty (scalarb texture) then
        bind_e (image_at (scalarb texture) ij) (\<lambda>c.
          Inr (if ldr_as_linear then byte_to_float (c, c, c)
               else srgb_to_rgb (byte_to_float (c, c, c))))
      else Inr (1, 1, 1))"

text \<open>
  The texel coordinate along one axis, lines 126 to 132: \<^verbatim>\<open>fmod(uv.x, 1) * size.x\<close>, moved
  forward by the size when negative.
\<close>

definition texel_coord :: "real \<Rightarrow> int \<Rightarrow> real" where
  "texel_coord a n = (let s = fmod a 1 * real_of_int n in if s < 0 then s + real_of_int n else s)"

text \<open>A null texture pointer is \<open>None\<close>.\<close>

definition eval_texture ::
  "(vec3f \<Rightarrow> vec3f) \<Rightarrow> texture option \<Rightarrow> vec2f \<Rightarrow> bool \<Rightarrow> error + vec3f" where
  "eval_texture srgb_to_rgb texture uv ldr_as_linear =
     (case texture of
        None \<Rightarrow> Inr (1, 1, 1)
      | Some tex \<Rightarrow>
          let size = texture_size tex;
              s = texel_coord (fst uv) (fst size);
              t = texel_coord (snd uv) (snd size);
              i = clamp (trunc_int s) 0 (fst size - 1);
              j = clamp (trunc_int t) 0 (snd size - 1)
          in bind_e (cpp_mod (i + 1) (fst size)) (\<lambda>ii.
             bind_e (cpp_mod (j + 1) (snd size)) (\<lambda>jj.
               let u = s - real_of_int i;
                   v = t - real_of_int j
               in bind_e (lookup_texture srgb_to_rgb tex (i, j) ldr_as_linear) (\<lambda>c00.
                  bind_e (lookup_texture srgb_to_rgb tex (i, jj) ldr_as_linear) (\<lambda>c01.
                  bind_e (lookup_texture srgb_to_rgb tex (ii, j) ldr_as_linear) (\<lambda>c10.
                  bind_e (lookup_texture srgb_to_rgb tex (ii, jj) ldr_as_linear) (\<lambda>c11.
                    Inr (add3 (add3 (add3
                          (scale3 (scale3 c00 (1 - u)) (1 - v))
                          (scale3 (scale3 c01 (1 - u)) v))
                          (scale3 (scale3 c10 u) (1 - v)))
                          (scale3 (scale3 c11 u) v)))))))))"

definition eval_texturef ::
  "(vec3f \<Rightarrow> vec3f) \<Rightarrow> texture option \<Rightarrow> vec2f \<Rightarrow> bool \<Rightarrow> error + real" where
  "eval_texturef srgb_to_rgb texture uv ldr_as_linear =
     bind_e (eval_texture srgb_to_rgb texture uv ldr_as_linear) (\<lambda>c. Inr (vec3_x c))"

text \<open>A texture whose four rasters are all empty, as a default-constructed one is.\<close>

definition empty_texture :: texture where
  "empty_texture = \<lparr>colorf = no_image, colorb = no_image, scalarf = no_image, scalarb = no_image\<rparr>"

section \<open>Shapes and the geometry evaluators\<close>

text \<open>
  Modelled from the spec: the two- and three-point interpolation and the element normals
  of the math header, which is not part of the sources. A triangle interpolates
  \<^verbatim>\<open>p0 * (1 - u - v) + p1 * u + p2 * v\<close>; its normal is the normalized cross product of
  two edges; a line's tangent is its normalized direction.
\<close>

definition interpolate_triangle :: "vec3f \<Rightarrow> vec3f \<Rightarrow> vec3f \<Rightarrow> vec2f \<Rightarrow> vec3f" where
  "interpolate_triangle p0 p1 p2 uv =
     add3 (add3 (scale3 p0 (1 - fst uv - snd uv)) (scale3 p1 (fst uv))) (scale3 p2 (snd uv))"

definition interpolate_triangle2 :: "vec2f \<Rightarrow> vec2f \<Rightarrow> vec2f \<Rightarrow> vec2f \<Rightarrow> vec2f" where
  "interpolate_triangle2 p0 p1 p2 uv =
     (fst p0 * (1 - fst uv - snd uv) + fst p1 * fst uv + fst p2 * snd uv,
      snd p0 * (1 - fst uv - snd uv) + snd p1 * fst uv + snd p2 * snd uv)"

definition triangle_normal :: "vec3f \<Rightarrow> vec3f \<Rightarrow> vec3f \<Rightarrow> vec3f" where
  "triangle_normal p0 p1 p2 = normalize_v (cross (sub3 p1 p0) (sub3 p2 p0))"

definition line_tangent :: "vec3f \<Rightarrow> vec3f \<Rightarrow> vec3f" where
  "line_tangent p0 p1 = normalize_v (sub3 p1 p0)"

text \<open>
  An axis-aligned box is its two corners. \<^verbatim>\<open>invalidb3f\<close> is the box no point lies in, from
  the largest float down to its negation.
\<close>

type_synonym bbox3f = "vec3f \<times> vec3f"

definition flt_max :: real where
  "flt_max = 340282346638528859811704183484516925440"

definition invalidb3f :: bbox3f where
  "invalidb3f = ((flt_max, flt_max, flt_max), (- flt_max, - flt_max, - flt_max))"

fun min3 :: "vec3f \<Rightarrow> vec3f \<Rightarrow> vec3f" where
  "min3 (ax, ay, az) (bx, by, bz) = (min ax bx, min ay by, min az bz)"

fun max3 :: "vec3f \<Rightarrow> vec3f \<Rightarrow> vec3f" where
  "max3 (ax, ay, az) (bx, by, bz) = (max ax bx, max ay by, max az bz)"

definition merge :: "bbox3f \<Rightarrow> bbox3f \<Rightarrow> bbox3f" where
  "merge a b = (min3 (fst a) (fst b), max3 (snd a) (snd b))"

definition merge_point :: "bbox3f \<Rightarrow> vec3f \<Rightarrow> bbox3f" where
  "merge_point a b = (min3 (fst a) b, max3 (snd a) b)"

definition center :: "bbox3f \<Rightarrow> vec3f" where
  "center a = scale3 (add3 (fst a) (snd a)) (1 / 2)"

text \<open>\<^verbatim>\<open>v[axis]\<close> on a three-vector, for an axis of 0, 1 or 2.\<close>

fun component :: "vec3f \<Rightarrow> nat \<Rightarrow> real" where
  "component (ax, ay, az) k = (if k = 0 then ax else if k = 1 then ay else az)"

text \<open>
  The tree over a shape's elements or a scene's objects: an array of nodes, the root first,
  and the permutation of the element numbers that the leaves' ranges index. Node numbers
  and ranges are \<^verbatim>\<open>int\<close> in the source and never negative, so they are naturals here.
\<close>

record bvh_node =
  node_bbox :: bbox3f
  node_start :: nat
  node_num :: nat
  node_internal :: bool
  node_axis :: nat

record bvh_tree =
  tree_nodes :: "bvh_node list"
  tree_primitives :: "nat list"

text \<open>
  A shape has its elements in one of three lists (points, lines or triangles index the
  vertex arrays) and owns its tree, a null pointer until \<^verbatim>\<open>init_bvh\<close> has run.
\<close>

record shape =
  points :: "int list"
  lines :: "vec2i list"
  triangles :: "vec3i list"
  positions :: "vec3f list"
  normals :: "vec3f list"
  texcoords :: "vec2f list"
  radius :: "real list"
  shape_bvh :: "bvh_tree option"

definition eval_position :: "shape \<Rightarrow> int \<Rightarrow> vec2f \<Rightarrow> error + vec3f" where
  "eval_position shape element uv =
     bind_e (elem (triangles shape) element) (\<lambda>(tx, ty, tz).
       let pos = positions shape
       in bind_e (elem pos tx) (\<lambda>p0.
          bind_e (elem pos ty) (\<lambda>p1.
          bind_e (elem pos tz) (\<lambda>p2.
            Inr (interpolate_triangle p0 p1 p2 uv)))))"

definition eval_element_normal :: "shape \<Rightarrow> int \<Rightarrow> error + vec3f" where
  "eval_element_normal shape element =
     (if triangles shape \<noteq> [] then
        bind_e (elem (triangles shape) element) (\<lambda>(tx, ty, tz).
          bind_e (elem (positions shape) tx) (\<lambda>p0.
          bind_e (elem (positions shape) ty) (\<lambda>p1.
          bind_e (elem (positions shape) tz) (\<lambda>p2.
            Inr (triangle_normal p0 p1 p2)))))
      else if lines shape \<noteq> [] then
        bind_e (elem (lines shape) element) (\<lambda>(lx, ly).
          bind_e (elem (positions shape) lx) (\<lambda>p0.
          bind_e (elem (positions shape) ly) (\<lambda>p1.
            Inr (line_tangent p0 p1))))
      else if points shape \<noteq> [] then Inr (0, 0, 1)
      else Inr (0, 0, 0))"

definition eval_normal :: "shape \<Rightarrow> int \<Rightarrow> vec2f \<Rightarrow> error + vec3f" where
  "eval_normal shape element uv =
     (if normals shape = [] then eval_element_normal shape element
      else
        bind_e (elem (triangles shape) element) (\<lambda>(tx, ty, tz).
          let norm = normals shape
          in bind_e (elem norm tx) (\<lambda>n0.
             bind_e (elem norm ty) (\<lambda>n1.
             bind_e (elem norm tz) (\<lambda>n2.
               Inr (normalize_v (interpolate_triangle n0 n1 n2 uv)))))))"

definition eval_texcoord :: "shape \<Rightarrow> int \<Rightarrow> vec2f \<Rightarrow> error + vec2f" where
  "eval_texcoord shape element uv =
     (if texcoords shape = [] then Inr uv
      else
        let texcoord = texcoords shape
        in bind_e (elem (triangles shape) element) (\<lambda>(tx, ty, tz).
             bind_e (elem texcoord tx) (\<lambda>t0.
             bind_e (elem texcoord ty) (\<lambda>t1.
             bind_e (elem texcoord tz) (\<lambda>t2.
               Inr (interpolate_triangle2 t0 t1 t2 uv))))))"

section \<open>Building the tree\<close>

text \<open>The entry the builder sorts: a box, its center and the element's number.\<close>

record bvh_primitive =
  prim_bbox :: bbox3f
  prim_center :: vec3f
  prim_primitive :: nat

text \<open>The elements \<^verbatim>\<open>primitives[start]\<close> to \<^verbatim>\<open>primitives[end - 1]\<close> that a loop reads.\<close>

definition subrange :: "'a list \<Rightarrow> nat \<Rightarrow> nat \<Rightarrow> 'a list" where
  "subrange xs start end = take (end - start) (drop start xs)"

text \<open>
  \<^verbatim>\<open>std::partition\<close> on the range \<^verbatim>\<open>[start, end)\<close>: the elements that satisfy the predicate
  first, the others after them, and the position of the first of the others. The C++
  standard leaves the order inside the two groups open; the model keeps the order of the
  input, and the lemmas on it use the two groups only.
\<close>

definition partition_range ::
  "('a \<Rightarrow> bool) \<Rightarrow> 'a list \<Rightarrow> nat \<Rightarrow> nat \<Rightarrow> 'a list \<times> nat" where
  "partition_range pred xs start end =
     (let r = subrange xs start end
      in (take start xs @ filter pred r @ filter (\<lambda>x. \<not> pred x) r @ drop end xs,
          start + length (filter pred r)))"

text \<open>
  The axis along which the centers spread most, lines 262 to 264: three tests in a row,
  each overwriting the axis, so that the last one that holds decides.
\<close>

definition split_axis :: "vec3f \<Rightarrow> nat" where
  "split_axis csize =
     (case csize of (cx, cy, cz) \<Rightarrow>
        let axis = 0;
            axis = (if cx \<ge> cy \<and> cx \<ge> cz then 0 else axis);
            axis = (if cy \<ge> cx \<and> cy \<ge> cz then 1 else axis);
            axis = (if cz \<ge> cx \<and> cz \<ge> cy then 2 else axis)
        in axis)"

text \<open>The box around the centers of a range, lines 256 and 257.\<close>

definition centers_bbox :: "bvh_primitive list \<Rightarrow> nat \<Rightarrow> nat \<Rightarrow> bbox3f" where
  "centers_bbox primitives start end =
     fold (\<lambda>p b. merge_point b (prim_center p)) (subrange primitives start end) invalidb3f"

definition split_middle ::
  "bvh_primitive list \<Rightarrow> nat \<Rightarrow> nat \<Rightarrow> bvh_primitive list \<times> nat \<times> nat" where
  "split_middle primitives start end =
     (let axis = 0;
          mid = (start + end) div 2;
          cbbox = centers_bbox primitives start end;
          csize = sub3 (snd cbbox) (fst cbbox)
      in if csize = zero3f then (primitives, mid, axis)
         else
           let axis = split_axis csize;
               middle = component (center cbbox) axis;
               (primitives', mid) =
                 partition_range (\<lambda>p. component (prim_center p) axis < middle)
                   primitives start end;
               mid = (if mid = start \<or> mid = end then (start + end) div 2 else mid)
           in (primitives', mid, axis))"

definition bvh_max_prims :: nat where
  "bvh_max_prims = 4"

text \<open>The node \<^verbatim>\<open>emplace_back()\<close> appends, every field at its default.\<close>

definition new_node :: bvh_node where
  "new_node = \<lparr>node_bbox = invalidb3f, node_start = 0, node_num = 0, node_internal = False,
                 node_axis = 0\<rparr>"

text \<open>The box around the entries of a range, lines 307 to 309.\<close>

definition range_bbox :: "bvh_primitive list \<Rightarrow> nat \<Rightarrow> nat \<Rightarrow> bbox3f" where
  "range_bbox primitives start end =
     fold (\<lambda>p b. merge b (prim_bbox p)) (subrange primitives start end) invalidb3f"

text \<open>
  One turn of the loop of \<^verbatim>\<open>build_bvh\<close>, lines 299 to 330, on the entry (node, start, end)
  taken from the queue: the node array and the entries as the turn leaves them, and the
  entries it pushes onto the queue. The node of an entry is in the array and its range
  lies inside the entries whenever the queue started from the root, as \<^verbatim>\<open>build_bvh\<close> starts
  it (lemma \<open>build_inv_step\<close>).
\<close>

definition build_step ::
  "bvh_node list \<Rightarrow> bvh_primitive list \<Rightarrow> nat \<times> nat \<times> nat
   \<Rightarrow> bvh_node list \<times> bvh_primitive list \<times> (nat \<times> nat \<times> nat) list" where
  "build_step nodes primitives next =
     (case next of (nodeid, start, end) \<Rightarrow>
        let node = nodes ! nodeid;
            node = node\<lparr>node_bbox := range_bbox primitives start end\<rparr>
        in if end - start > bvh_max_prims then
             case split_middle primitives start end of (primitives', mid, axis) \<Rightarrow>
               let node = node\<lparr>node_internal := True, node_axis := axis, node_num := 2,
                               node_start := length nodes\<rparr>;
                   nodes' = nodes[nodeid := node] @ [new_node, new_node]
               in (nodes', primitives',
                   [(node_start node + 0, start, mid), (node_start node + 1, mid, end)])
           else
             let node = node\<lparr>node_internal := False, node_num := end - start,
                             node_start := start\<rparr>
             in (nodes[nodeid := node], primitives, []))"

text \<open>
  The work left for one queue entry and for the queue: the loop ends because a range of
  more than four elements is split into two shorter ones that are not empty.
\<close>

definition entry_work :: "nat \<times> nat \<times> nat \<Rightarrow> nat" where
  "entry_work e = (case e of (nodeid, start, end) \<Rightarrow> max 1 (2 * (end - start) - 1))"

definition queue_work :: "(nat \<times> nat \<times> nat) list \<Rightarrow> nat" where
  "queue_work queue = sum_list (map entry_work queue)"

lemma partition_range_mid:
  "start \<le> snd (partition_range pred xs start end) \<and>
   snd (partition_range pred xs start end) \<le> start + (end - start)"
proof -
  have "length (filter pred (subrange xs start end)) \<le> length (subrange xs start end)"
    by (rule length_filter_le)
  also have "\<dots> \<le> end - start" by (simp add: subrange_def)
  finally show ?thesis by (simp add: partition_range_def Let_def)
qed

lemma split_middle_mid_cases:
  "fst (snd (split_middle primitives start end)) = (start + end) div 2 \<or>
   (\<exists>pred. fst (snd (split_middle primitives start end)) =
             snd (partition_range pred primitives start end) \<and>
           snd (partition_range pred primitives start end) \<noteq> start \<and>
           snd (partition_range pred primitives start end) \<noteq> end)"
proof -
  define cbbox where "cbbox = centers_bbox primitives start end"
  define pred :: "bvh_primitive \<Rightarrow> bool" where "pred = (\<lambda>p. component (prim_center p) (split_axis (sub3 (snd cbbox) (fst cbbox)))
    < component (center cbbox) (split_axis (sub3 (snd cbbox) (fst cbbox))))"
  define m where "m = snd (partition_range pred primitives start end)"
  have "fst (snd (split_middle primitives start end)) =
    (if sub3 (snd cbbox) (fst cbbox) = zero3f then (start + end) div 2
     else if m = start \<or> m = end then (start + end) div 2 else m)"
    by (simp add: split_middle_def Let_def cbbox_def pred_def m_def split: prod.splits)
  then show ?thesis unfolding m_def by metis
qed

lemma split_middle_mid:
  assumes "end - start > bvh_max_prims"
    and "split_middle primitives start end = (primitives', mid, ax)"
  shows "start < mid \<and> mid < end"
proof -
  have mid: "mid = fst (snd (split_middle primitives start end))"
    using assms(2) by simp
  have half: "start < (start + end) div 2 \<and> (start + end) div 2 < end"
    using assms(1) by (simp add: bvh_max_prims_def) linarith
  have le: "start + (end - start) = end" using assms(1) by simp
  from split_middle_mid_cases [of primitives start "end"] show ?thesis
  proof
    assume "fst (snd (split_middle primitives start end)) = (start + end) div 2"
    then show ?thesis using half mid by simp
  next
    assume "\<exists>pred. fst (snd (split_middle primitives start end)) =
             snd (partition_range pred primitives start end) \<and>
           snd (partition_range pred primitives start end) \<noteq> start \<and>
           snd (partition_range pred primitives start end) \<noteq> end"
    then obtain pred where p: "mid = snd (partition_range pred primitives start end)"
      "mid \<noteq> start" "mid \<noteq> end" using mid by auto
    have "start \<le> mid \<and> mid \<le> end"
      using partition_range_mid [of start pred primitives "end"] p(1) le by simp
    then show ?thesis using p(2,3) by simp
  qed
qed

lemma split_entry_work:
  assumes "start < mid" "mid < end"
  shows "entry_work (a, start, mid) + entry_work (b, mid, end) < entry_work (c, start, end)"
  using assms by (simp add: entry_work_def)

lemma build_step_work:
  assumes "build_step nodes primitives next = (nodes', primitives', pushed)"
  shows "queue_work pushed < entry_work next"
proof -
  obtain nodeid start "end" where nx: "next = (nodeid, start, end)"
    by (cases "next") auto
  show ?thesis
  proof (cases "end - start > bvh_max_prims")
    case True
    obtain ps mid ax where sm: "split_middle primitives start end = (ps, mid, ax)"
      by (cases "split_middle primitives start end") auto
    have "pushed = [(length nodes + 0, start, mid), (length nodes + 1, mid, end)]"
      using assms True by (simp add: build_step_def nx sm Let_def)
    then show ?thesis
      using split_middle_mid [OF True sm]
        split_entry_work [of start mid "end" "length nodes + 0" "length nodes + 1" nodeid]
      by (simp add: queue_work_def nx)
  next
    case False
    then have "pushed = []"
      using assms by (simp add: build_step_def nx Let_def)
    then show ?thesis by (simp add: queue_work_def entry_work_def nx)
  qed
qed

text \<open>The loop \<^verbatim>\<open>while (!queue.empty())\<close>, lines 297 to 331.\<close>

function build_loop ::
  "bvh_node list \<Rightarrow> bvh_primitive list \<Rightarrow> (nat \<times> nat \<times> nat) list
   \<Rightarrow> bvh_node list \<times> bvh_primitive list" where
  "build_loop nodes primitives [] = (nodes, primitives)"
| "build_loop nodes primitives (next # queue) =
     (case build_step nodes primitives next of
        (nodes', primitives', pushed) \<Rightarrow> build_loop nodes' primitives' (queue @ pushed))"
  by pat_completeness auto
termination
proof (relation "measure (\<lambda>(nodes, primitives, queue). queue_work queue)", goal_cases)
  case 1
  show ?case by simp
next
  case (2 nodes primitives nx queue nodes' rest primitives' pushed)
  then have "build_step nodes primitives nx = (nodes', primitives', pushed)" by simp
  then have "queue_work pushed < entry_work nx" by (rule build_step_work)
  then show ?case by (simp add: queue_work_def)
qed

definition build_bvh :: "bvh_primitive list \<Rightarrow> bvh_node list \<times> bvh_primitive list" where
  "build_bvh primitives = build_loop [new_node] primitives [(0, 0, length primitives)]"

section \<open>The scene\<close>

text \<open>
  Modelled from the spec: the records of the header \<^verbatim>\<open>yocto_raytrace.h\<close>, which is not part
  of the sources, with the fields the code reads and writes. A pointer to a texture is an
  optional texture and a material pointer the material itself (neither is written once the
  scene is set up); an object's shape pointer is the position of the shape in the scene's
  list of shapes, since \<^verbatim>\<open>init_bvh\<close> writes the shapes' trees and the objects read them.
\<close>

record ray3f =
  ray_o :: vec3f
  ray_d :: vec3f
  ray_tmin :: real
  ray_tmax :: real

definition ray_eps :: real where
  "ray_eps = 1 / 10000"

text \<open>\<^verbatim>\<open>ray3f{o, d}\<close>: the other two fields at their defaults.\<close>

definition make_ray :: "vec3f \<Rightarrow> vec3f \<Rightarrow> ray3f" where
  "make_ray orig dir = \<lparr>ray_o = orig, ray_d = dir, ray_tmin = ray_eps, ray_tmax = flt_max\<rparr>"

type_synonym frame3f = "vec3f \<times> vec3f \<times> vec3f \<times> vec3f"

record material =
  emission :: vec3f
  color :: vec3f
  specular :: real
  metallic :: real
  roughness :: real
  ior :: real
  transmission :: real
  thin :: bool
  trdepth :: real
  opacity :: real
  emission_tex :: "texture option"
  color_tex :: "texture option"
  specular_tex :: "texture option"
  metallic_tex :: "texture option"
  roughness_tex :: "texture option"
  transmission_tex :: "texture option"
  opacity_tex :: "texture option"

record object =
  obj_frame :: frame3f
  obj_shape :: nat
  obj_material :: material

record camera =
  cam_frame :: frame3f
  lens :: real
  film :: vec2f
  aperture :: real
  focus :: real

record environment =
  env_frame :: frame3f
  env_emission :: vec3f
  env_emission_tex :: "texture option"

record scene =
  cameras :: "camera list"
  objects :: "object list"
  shapes :: "shape list"
  environments :: "environment list"
  scene_bvh :: "bvh_tree option"

text \<open>The state of the random number generator: two 64-bit words.\<close>

record rng_state =
  rng_st :: "64 word"
  rng_inc :: "64 word"

text \<open>
  Modelled from the spec: the frame transforms and the two direction helpers of the math
  header. A frame is three axes and an origin.
\<close>

fun transform_point :: "frame3f \<Rightarrow> vec3f \<Rightarrow> vec3f" where
  "transform_point (fx, fy, fz, fo) (px, py, pz) =
     add3 (add3 (add3 (scale3 fx px) (scale3 fy py)) (scale3 fz pz)) fo"

fun transform_vector :: "frame3f \<Rightarrow> vec3f \<Rightarrow> vec3f" where
  "transform_vector (fx, fy, fz, fo) (px, py, pz) =
     add3 (add3 (scale3 fx px) (scale3 fy py)) (scale3 fz pz)"

definition transform_direction :: "frame3f \<Rightarrow> vec3f \<Rightarrow> vec3f" where
  "transform_direction f d = normalize_v (transform_vector f d)"

definition transform_ray :: "frame3f \<Rightarrow> ray3f \<Rightarrow> ray3f" where
  "transform_ray f r =
     \<lparr>ray_o = transform_point f (ray_o r), ray_d = transform_vector f (ray_d r),
      ray_tmin = ray_tmin r, ray_tmax = ray_tmax r\<rparr>"

definition reflect :: "vec3f \<Rightarrow> vec3f \<Rightarrow> vec3f" where
  "reflect w n = add3 (neg3 w) (scale3 n (2 * dot n w))"

definition orthonormalize :: "vec3f \<Rightarrow> vec3f \<Rightarrow> vec3f" where
  "orthonormalize a b = normalize_v (sub3 a (scale3 b (dot a b)))"

text \<open>
  The rest of the math header is a parameter of the model: the functions below are called
  by the code and their bodies are not in the sources. The three primitive tests return
  the uv and the distance they write on a hit.
\<close>

record ops =
  srgb_to_rgb :: "vec3f \<Rightarrow> vec3f"
  point_bounds :: "vec3f \<Rightarrow> real \<Rightarrow> bbox3f"
  line_bounds :: "vec3f \<Rightarrow> vec3f \<Rightarrow> real \<Rightarrow> real \<Rightarrow> bbox3f"
  triangle_bounds :: "vec3f \<Rightarrow> vec3f \<Rightarrow> vec3f \<Rightarrow> bbox3f"
  transform_bbox :: "frame3f \<Rightarrow> bbox3f \<Rightarrow> bbox3f"
  inverse_frame :: "frame3f \<Rightarrow> bool \<Rightarrow> frame3f"
  intersect_bbox :: "ray3f \<Rightarrow> vec3f \<Rightarrow> bbox3f \<Rightarrow> bool"
  intersect_point :: "ray3f \<Rightarrow> vec3f \<Rightarrow> real \<Rightarrow> (vec2f \<times> real) option"
  intersect_line :: "ray3f \<Rightarrow> vec3f \<Rightarrow> vec3f \<Rightarrow> real \<Rightarrow> real \<Rightarrow> (vec2f \<times> real) option"
  intersect_triangle :: "ray3f \<Rightarrow> vec3f \<Rightarrow> vec3f \<Rightarrow> vec3f \<Rightarrow> (vec2f \<times> real) option"
  atan2 :: "real \<Rightarrow> real \<Rightarrow> real"
  acos :: "real \<Rightarrow> real"
  pif :: real
  fresnel_schlick :: "vec3f \<Rightarrow> vec3f \<Rightarrow> vec3f \<Rightarrow> vec3f"
  microfacet_distribution :: "real \<Rightarrow> vec3f \<Rightarrow> vec3f \<Rightarrow> real"
  microfacet_shadowing :: "real \<Rightarrow> vec3f \<Rightarrow> vec3f \<Rightarrow> vec3f \<Rightarrow> vec3f \<Rightarrow> bool \<Rightarrow> real"
  sample_hemisphere :: "vec3f \<Rightarrow> vec2f \<Rightarrow> vec3f"
  make_rng :: "int \<Rightarrow> int \<Rightarrow> rng_state"
  rand1f :: "rng_state \<Rightarrow> real \<times> rng_state"
  rand2f :: "rng_state \<Rightarrow> vec2f \<times> rng_state"
  rand1i :: "rng_state \<Rightarrow> int \<Rightarrow> int \<times> rng_state"

section \<open>Trees for shapes and scenes\<close>

definition elem_n :: "'a list \<Rightarrow> nat \<Rightarrow> error + 'a" where
  "elem_n xs i = elem xs (int i)"

text \<open>A loop that fills a list and stops at the first failure.\<close>

fun those_e :: "(error + 'a) list \<Rightarrow> error + 'a list" where
  "those_e [] = Inr []"
| "those_e (x # xs) = bind_e x (\<lambda>a. bind_e (those_e xs) (\<lambda>as. Inr (a # as)))"

text \<open>The entries of a shape, lines 339 to 366: one per point, line or triangle.\<close>

definition shape_primitives :: "ops \<Rightarrow> shape \<Rightarrow> error + bvh_primitive list" where
  "shape_primitives ops shape =
     (if points shape \<noteq> [] then
        those_e (map (\<lambda>(idx, p).
             bind_e (elem (positions shape) p) (\<lambda>pos.
             bind_e (elem (radius shape) p) (\<lambda>r.
               let b = point_bounds ops pos r
               in Inr \<lparr>prim_bbox = b, prim_center = center b, prim_primitive = idx\<rparr>)))
           (enumerate 0 (points shape)))
      else if lines shape \<noteq> [] then
        those_e (map (\<lambda>(idx, (lx, ly)).
             bind_e (elem (positions shape) lx) (\<lambda>p0.
             bind_e (elem (positions shape) ly) (\<lambda>p1.
             bind_e (elem (radius shape) lx) (\<lambda>r0.
             bind_e (elem (radius shape) ly) (\<lambda>r1.
               let b = line_bounds ops p0 p1 r0 r1
               in Inr \<lparr>prim_bbox = b, prim_center = center b, prim_primitive = idx\<rparr>)))))
           (enumerate 0 (lines shape)))
      else if triangles shape \<noteq> [] then
        those_e (map (\<lambda>(idx, (tx, ty, tz)).
             bind_e (elem (positions shape) tx) (\<lambda>p0.
             bind_e (elem (positions shape) ty) (\<lambda>p1.
             bind_e (elem (positions shape) tz) (\<lambda>p2.
               let b = triangle_bounds ops p0 p1 p2
               in Inr \<lparr>prim_bbox = b, prim_center = center b, prim_primitive = idx\<rparr>))))
           (enumerate 0 (triangles shape)))
      else Inr [])"

text \<open>
  \<^verbatim>\<open>init_bvh\<close> on a shape, lines 337 to 378: the tree's permutation is the element numbers
  of the entries in the order the builder left them.
\<close>

definition make_bvh :: "bvh_primitive list \<Rightarrow> bvh_tree" where
  "make_bvh primitives =
     (case build_bvh primitives of (nodes, primitives') \<Rightarrow>
        \<lparr>tree_nodes = nodes, tree_primitives = map prim_primitive primitives'\<rparr>)"

definition init_bvh_shape :: "ops \<Rightarrow> shape \<Rightarrow> error + shape" where
  "init_bvh_shape ops shape =
     bind_e (shape_primitives ops shape) (\<lambda>primitives.
       Inr (shape\<lparr>shape_bvh := Some (make_bvh primitives)\<rparr>))"

text \<open>
  \<^verbatim>\<open>init_bvh\<close> on a scene, lines 380 to 420: the shapes' trees first, then one entry per
  object. The progress callback only observes and is left out.
\<close>

definition scene_primitives :: "ops \<Rightarrow> shape list \<Rightarrow> object list \<Rightarrow> error + bvh_primitive list" where
  "scene_primitives ops shapes' objects' =
     those_e (map (\<lambda>(object_id, object).
          bind_e (elem_n shapes' (obj_shape object)) (\<lambda>shape.
            case shape_bvh shape of
              None \<Rightarrow> Inl NullPointer
            | Some bvh' \<Rightarrow>
                let b = (if tree_nodes bvh' = [] then invalidb3f
                         else transform_bbox ops (obj_frame object)
                                (node_bbox (tree_nodes bvh' ! 0)))
                in Inr \<lparr>prim_bbox = b, prim_center = center b, prim_primitive = object_id\<rparr>))
        (enumerate 0 objects'))"

definition init_bvh :: "ops \<Rightarrow> scene \<Rightarrow> error + scene" where
  "init_bvh ops scene =
     bind_e (those_e (map (init_bvh_shape ops) (shapes scene))) (\<lambda>shapes'.
     bind_e (scene_primitives ops shapes' (objects scene)) (\<lambda>primitives.
       Inr (scene\<lparr>shapes := shapes', scene_bvh := Some (make_bvh primitives)\<rparr>)))"

section \<open>Intersecting a ray with the trees\<close>

text \<open>
  A computation that may read out of range and that loops: \<open>None\<close> when it does not
  return, \<open>Some (Inl e)\<close> when it runs into undefined behaviour, \<open>Some (Inr v)\<close> when it
  returns v.
\<close>

type_synonym 'a result = "(error + 'a) option"

definition bind_r :: "'a result \<Rightarrow> ('a \<Rightarrow> 'b result) \<Rightarrow> 'b result" where
  "bind_r m f = (case m of None \<Rightarrow> None | Some (Inl e) \<Rightarrow> Some (Inl e) | Some (Inr a) \<Rightarrow> f a)"

text \<open>A counted loop over \<^verbatim>\<open>idx\<close> whose body may fail, and one whose body may also not return.\<close>

fun for_e :: "nat list \<Rightarrow> (nat \<Rightarrow> 's \<Rightarrow> error + 's) \<Rightarrow> 's \<Rightarrow> error + 's" where
  "for_e [] body s = Inr s"
| "for_e (idx # rest) body s = bind_e (body idx s) (for_e rest body)"

fun for_r :: "nat list \<Rightarrow> (nat \<Rightarrow> 's \<Rightarrow> 's result) \<Rightarrow> 's \<Rightarrow> 's result" where
  "for_r [] body s = Some (Inr s)"
| "for_r (idx # rest) body s = bind_r (body idx s) (for_r rest body)"

text \<open>
  The node stack \<^verbatim>\<open>int node_stack[128]\<close> with its top at the head of the list. An internal
  node pushes two entries; the array has room for 128.
\<close>

definition push2 :: "nat list \<Rightarrow> nat \<Rightarrow> nat \<Rightarrow> error + nat list" where
  "push2 node_stack a b =
     (if length node_stack + 2 > 128 then Inl StackOverflow else Inr (b # a # node_stack))"

fun component_i :: "vec3i \<Rightarrow> nat \<Rightarrow> int" where
  "component_i (ax, ay, az) k = (if k = 0 then ax else if k = 1 then ay else az)"

text \<open>\<^verbatim>\<open>ray_dinv\<close> and \<^verbatim>\<open>ray_dsign\<close>, lines 443 to 445.\<close>

definition ray_dinv_of :: "ray3f \<Rightarrow> vec3f" where
  "ray_dinv_of ray = (case ray_d ray of (dx, dy, dz) \<Rightarrow> (1 / dx, 1 / dy, 1 / dz))"

definition ray_dsign_of :: "vec3f \<Rightarrow> vec3i" where
  "ray_dsign_of ray_dinv =
     (case ray_dinv of (ix, iy, iz) \<Rightarrow>
        (if ix < 0 then 1 else 0, if iy < 0 then 1 else 0, if iz < 0 then 1 else 0))"

text \<open>
  What the traversal of a shape carries from node to node: the hit flag, the ray with its
  shrinking \<^verbatim>\<open>tmax\<close>, and the three variables it writes through references.
\<close>

type_synonym shape_walk = "bool \<times> ray3f \<times> int \<times> vec2f \<times> real"

text \<open>One element of a leaf, for each of the three kinds of shape: lines 469 to 497.\<close>

definition point_step :: "ops \<Rightarrow> shape \<Rightarrow> bvh_tree \<Rightarrow> nat \<Rightarrow> shape_walk \<Rightarrow> error + shape_walk" where
  "point_step ops shape bvh' idx w =
     (case w of (hit, ray, element, uv, distance) \<Rightarrow>
        bind_e (elem_n (tree_primitives bvh') idx) (\<lambda>prim.
        bind_e (elem_n (points shape) prim) (\<lambda>p.
        bind_e (elem (positions shape) p) (\<lambda>pos.
        bind_e (elem (radius shape) p) (\<lambda>r.
          case intersect_point ops ray pos r of
            None \<Rightarrow> Inr w
          | Some (uv', distance') \<Rightarrow>
              Inr (True, ray\<lparr>ray_tmax := distance'\<rparr>, int prim, uv', distance'))))))"

definition line_step :: "ops \<Rightarrow> shape \<Rightarrow> bvh_tree \<Rightarrow> nat \<Rightarrow> shape_walk \<Rightarrow> error + shape_walk" where
  "line_step ops shape bvh' idx w =
     (case w of (hit, ray, element, uv, distance) \<Rightarrow>
        bind_e (elem_n (tree_primitives bvh') idx) (\<lambda>prim.
        bind_e (elem_n (lines shape) prim) (\<lambda>(lx, ly).
        bind_e (elem (positions shape) lx) (\<lambda>p0.
        bind_e (elem (positions shape) ly) (\<lambda>p1.
        bind_e (elem (radius shape) lx) (\<lambda>r0.
        bind_e (elem (radius shape) ly) (\<lambda>r1.
          case intersect_line ops ray p0 p1 r0 r1 of
            None \<Rightarrow> Inr w
          | Some (uv', distance') \<Rightarrow>
              Inr (True, ray\<lparr>ray_tmax := distance'\<rparr>, int prim, uv', distance'))))))))"

definition triangle_step :: "ops \<Rightarrow> shape \<Rightarrow> bvh_tree \<Rightarrow> nat \<Rightarrow> shape_walk \<Rightarrow> error + shape_walk" where
  "triangle_step ops shape bvh' idx w =
     (case w of (hit, ray, element, uv, distance) \<Rightarrow>
        bind_e (elem_n (tree_primitives bvh') idx) (\<lambda>prim.
        bind_e (elem_n (triangles shape) prim) (\<lambda>(tx, ty, tz).
        bind_e (elem (positions shape) tx) (\<lambda>p0.
        bind_e (elem (positions shape) ty) (\<lambda>p1.
        bind_e (elem (positions shape) tz) (\<lambda>p2.
          case intersect_triangle ops ray p0 p1 p2 of
            None \<Rightarrow> Inr w
          | Some (uv', distance') \<Rightarrow>
              Inr (True, ray\<lparr>ray_tmax := distance'\<rparr>, int prim, uv', distance')))))))"

text \<open>
  A node whose box the ray meets, lines 458 to 498: an internal node pushes its children,
  the far one first; a leaf tests its elements.
\<close>

definition shape_node ::
  "ops \<Rightarrow> shape \<Rightarrow> bvh_tree \<Rightarrow> vec3i \<Rightarrow> bvh_node \<Rightarrow> nat list \<Rightarrow> shape_walk
   \<Rightarrow> error + nat list \<times> shape_walk" where
  "shape_node ops shape bvh' ray_dsign node node_stack w =
     (if node_internal node then
        bind_e (if component_i ray_dsign (node_axis node) \<noteq> 0
                then push2 node_stack (node_start node + 0) (node_start node + 1)
                else push2 node_stack (node_start node + 1) (node_start node + 0))
          (\<lambda>node_stack'. Inr (node_stack', w))
      else if points shape \<noteq> [] then
        bind_e (for_e [node_start node ..< node_start node + node_num node]
                  (point_step ops shape bvh') w) (\<lambda>w'. Inr (node_stack, w'))
      else if lines shape \<noteq> [] then
        bind_e (for_e [node_start node ..< node_start node + node_num node]
                  (line_step ops shape bvh') w) (\<lambda>w'. Inr (node_stack, w'))
      else if triangles shape \<noteq> [] then
        bind_e (for_e [node_start node ..< node_start node + node_num node]
                  (triangle_step ops shape bvh') w) (\<lambda>w'. Inr (node_stack, w'))
      else Inr (node_stack, w))"

text \<open>What the traversal returns: the hit flag and the three referenced variables.\<close>

type_synonym shape_hit = "bool \<times> int \<times> vec2f \<times> real"

definition shape_walk_result :: "shape_walk \<Rightarrow> shape_hit" where
  "shape_walk_result w = (case w of (hit, ray, element, uv, distance) \<Rightarrow> (hit, element, uv, distance))"

text \<open>The loop \<^verbatim>\<open>while (node_cur)\<close>, lines 448 to 502.\<close>

partial_function (option) shape_loop ::
  "ops \<Rightarrow> shape \<Rightarrow> bvh_tree \<Rightarrow> vec3f \<Rightarrow> vec3i \<Rightarrow> bool \<Rightarrow> nat list \<Rightarrow> shape_walk
   \<Rightarrow> (error + shape_hit) option" where
  "shape_loop ops shape bvh' ray_dinv ray_dsign find_any node_stack w =
     (case node_stack of
        [] \<Rightarrow> Some (Inr (shape_walk_result w))
      | n # rest \<Rightarrow>
          (case elem_n (tree_nodes bvh') n of
             Inl e \<Rightarrow> Some (Inl e)
           | Inr node \<Rightarrow>
               if \<not> intersect_bbox ops (fst (snd w)) ray_dinv (node_bbox node)
               then shape_loop ops shape bvh' ray_dinv ray_dsign find_any rest w
               else
                 (case shape_node ops shape bvh' ray_dsign node rest w of
                    Inl e \<Rightarrow> Some (Inl e)
                  | Inr (node_stack', w') \<Rightarrow>
                      if find_any \<and> fst w' then Some (Inr (shape_walk_result w'))
                      else shape_loop ops shape bvh' ray_dinv ray_dsign find_any node_stack' w')))"

definition intersect_shape_bvh ::
  "ops \<Rightarrow> shape \<Rightarrow> ray3f \<Rightarrow> int \<Rightarrow> vec2f \<Rightarrow> real \<Rightarrow> bool \<Rightarrow> shape_hit result" where
  "intersect_shape_bvh ops shape ray0 element uv distance find_any =
     (case shape_bvh shape of
        None \<Rightarrow> Some (Inl NullPointer)
      | Some bvh' \<Rightarrow>
          if tree_nodes bvh' = [] then Some (Inr (False, element, uv, distance))
          else
            let node_stack = [0];
                hit = False;
                ray = ray0;
                ray_dinv = ray_dinv_of ray;
                ray_dsign = ray_dsign_of ray_dinv
            in shape_loop ops shape bvh' ray_dinv ray_dsign find_any node_stack
                 (hit, ray, element, uv, distance))"

text \<open>
  The traversal of the scene's tree, lines 508 to 573, carries the object as a fourth
  referenced variable. A leaf sends the ray, moved into the object's frame, through the
  tree of the object's shape.
\<close>

type_synonym scene_walk = "bool \<times> ray3f \<times> int \<times> int \<times> vec2f \<times> real"

definition object_step ::
  "ops \<Rightarrow> scene \<Rightarrow> bvh_tree \<Rightarrow> bool \<Rightarrow> bool \<Rightarrow> nat \<Rightarrow> scene_walk \<Rightarrow> scene_walk result" where
  "object_step ops scene bvh' find_any non_rigid_frames idx w =
     (case w of (hit, ray, object, element, uv, distance) \<Rightarrow>
        bind_r (Some (elem_n (tree_primitives bvh') idx)) (\<lambda>prim.
        bind_r (Some (elem_n (objects scene) prim)) (\<lambda>object0.
          let inv_ray = transform_ray (inverse_frame ops (obj_frame object0) non_rigid_frames) ray
          in bind_r (Some (elem_n (shapes scene) (obj_shape object0))) (\<lambda>shape.
             bind_r (intersect_shape_bvh ops shape inv_ray element uv distance find_any)
               (\<lambda>(hit', element', uv', distance').
                  if hit'
                  then Some (Inr (True, ray\<lparr>ray_tmax := distance'\<rparr>, int prim, element', uv',
                                  distance'))
                  else Some (Inr (hit, ray, object, element', uv', distance')))))))"

definition scene_node ::
  "ops \<Rightarrow> scene \<Rightarrow> bvh_tree \<Rightarrow> vec3i \<Rightarrow> bool \<Rightarrow> bool \<Rightarrow> bvh_node \<Rightarrow> nat list \<Rightarrow> scene_walk
   \<Rightarrow> (nat list \<times> scene_walk) result" where
  "scene_node ops scene bvh' ray_dsign find_any non_rigid_frames node node_stack w =
     (if node_internal node then
        bind_r (Some (if component_i ray_dsign (node_axis node) \<noteq> 0
                      then push2 node_stack (node_start node + 0) (node_start node + 1)
                      else push2 node_stack (node_start node + 1) (node_start node + 0)))
          (\<lambda>node_stack'. Some (Inr (node_stack', w)))
      else
        bind_r (for_r [node_start node ..< node_start node + node_num node]
                  (object_step ops scene bvh' find_any non_rigid_frames) w)
          (\<lambda>w'. Some (Inr (node_stack, w'))))"

type_synonym scene_hit = "bool \<times> int \<times> int \<times> vec2f \<times> real"

definition scene_walk_result :: "scene_walk \<Rightarrow> scene_hit" where
  "scene_walk_result w =
     (case w of (hit, ray, object, element, uv, distance) \<Rightarrow> (hit, object, element, uv, distance))"

partial_function (option) scene_loop ::
  "ops \<Rightarrow> scene \<Rightarrow> bvh_tree \<Rightarrow> vec3f \<Rightarrow> vec3i \<Rightarrow> bool \<Rightarrow> bool \<Rightarrow> nat list \<Rightarrow> scene_walk
   \<Rightarrow> (error + scene_hit) option" where
  "scene_loop ops scene bvh' ray_dinv ray_dsign find_any non_rigid_frames node_stack w =
     (case node_stack of
        [] \<Rightarrow> Some (Inr (scene_walk_result w))
      | n # rest \<Rightarrow>
          (case elem_n (tree_nodes bvh') n of
             Inl e \<Rightarrow> Some (Inl e)
           | Inr node \<Rightarrow>
               if \<not> intersect_bbox ops (fst (snd w)) ray_dinv (node_bbox node)
               then scene_loop ops scene bvh' ray_dinv ray_dsign find_any non_rigid_frames rest w
               else
                 (case scene_node ops scene bvh' ray_dsign find_any non_rigid_frames node rest w of
                    None \<Rightarrow> None
                  | Some (Inl e) \<Rightarrow> Some (Inl e)
                  | Some (Inr (node_stack', w')) \<Rightarrow>
                      if find_any \<and> fst w' then Some (Inr (scene_walk_result w'))
                      else scene_loop ops scene bvh' ray_dinv ray_dsign find_any non_rigid_frames
                             node_stack' w')))"

definition intersect_scene_bvh_refs ::
  "ops \<Rightarrow> scene \<Rightarrow> ray3f \<Rightarrow> int \<Rightarrow> int \<Rightarrow> vec2f \<Rightarrow> real \<Rightarrow> bool \<Rightarrow> bool \<Rightarrow> scene_hit result" where
  "intersect_scene_bvh_refs ops scene ray0 object element uv distance find_any non_rigid_frames =
     (case scene_bvh scene of
        None \<Rightarrow> Some (Inl NullPointer)
      | Some bvh' \<Rightarrow>
          if tree_nodes bvh' = [] then Some (Inr (False, object, element, uv, distance))
          else
            let node_stack = [0];
                hit = False;
                ray = ray0;
                ray_dinv = ray_dinv_of ray;
                ray_dsign = ray_dsign_of ray_dinv
            in scene_loop ops scene bvh' ray_dinv ray_dsign find_any non_rigid_frames node_stack
                 (hit, ray, object, element, uv, distance))"

text \<open>
  The public query, lines 584 to 591, starts from a default \<^verbatim>\<open>intersection3f\<close> (no object,
  no element) and stores the flag the traversal returns.
\<close>

record intersection3f =
  isect_object :: int
  isect_element :: int
  isect_uv :: vec2f
  isect_distance :: real
  isect_hit :: bool

definition intersect_scene_bvh :: "ops \<Rightarrow> scene \<Rightarrow> ray3f \<Rightarrow> bool \<Rightarrow> bool \<Rightarrow> intersection3f result" where
  "intersect_scene_bvh ops scene ray find_any non_rigid_frames =
     bind_r (intersect_scene_bvh_refs ops scene ray (- 1) (- 1) (0, 0) 0 find_any non_rigid_frames)
       (\<lambda>(hit, object, element, uv, distance).
          Some (Inr \<lparr>isect_object = object, isect_element = element, isect_uv = uv,
                     isect_distance = distance, isect_hit = hit\<rparr>))"

section \<open>Cameras and environments\<close>

definition eval_camera :: "camera \<Rightarrow> vec2f \<Rightarrow> ray3f" where
  "eval_camera camera image_uv =
     (let q = (fst (film camera) * (1 / 2 - fst image_uv),
               snd (film camera) * (snd image_uv - 1 / 2),
               lens camera);
          e = zero3f;
          d = neg3 (normalize_v (sub3 q e))
      in make_ray (transform_point (cam_frame camera) e) (transform_direction (cam_frame camera) d))"

text \<open>The float \<^verbatim>\<open>clamp(a, min, max)\<close> of the math header, as the integer one above.\<close>

definition clampf :: "real \<Rightarrow> real \<Rightarrow> real \<Rightarrow> real" where
  "clampf a lo hi = min (max a lo) hi"

text \<open>One environment's share of the sum in \<^verbatim>\<open>eval_environment\<close>, lines 221 to 229.\<close>

definition environment_emission :: "ops \<Rightarrow> ray3f \<Rightarrow> environment \<Rightarrow> error + vec3f" where
  "environment_emission ops ray env =
     (case transform_direction (inverse_frame ops (env_frame env) False) (ray_d ray) of
        (lx, ly, lz) \<Rightarrow>
          let tx = atan2 ops lz lx / (2 * pif ops);
              ty = acos ops (clampf ly (- 1) 1) / pif ops;
              tx = (if tx < 0 then tx + 1 else tx)
          in bind_e (eval_texture (srgb_to_rgb ops) (env_emission_tex env) (tx, ty) False)
               (\<lambda>c. Inr (mul3 (env_emission env) c)))"

definition eval_environment :: "ops \<Rightarrow> scene \<Rightarrow> ray3f \<Rightarrow> error + vec3f" where
  "eval_environment ops scene ray =
     fold (\<lambda>env acc. bind_e acc (\<lambda>emission'.
             bind_e (environment_emission ops ray env) (\<lambda>e. Inr (add3 emission' e))))
       (environments scene) (Inr zero3f)"

section \<open>The shaders\<close>

datatype shader_type =
  shader_raytrace | shader_eyelight | shader_normal | shader_texcoord | shader_color

record trace_params =
  resolution :: int
  shader :: shader_type
  samples :: int
  bounces :: int
  params_clamp :: real
  seed :: int
  noparallel :: bool

type_synonym shaded = "(vec4f \<times> rng_state) result"

type_synonym shader_func = "scene \<Rightarrow> ray3f \<Rightarrow> int \<Rightarrow> rng_state \<Rightarrow> trace_params \<Rightarrow> shaded"

fun vec4 :: "vec3f \<Rightarrow> real \<Rightarrow> vec4f" where
  "vec4 (ax, ay, az) w = (ax, ay, az, w)"

fun xyz :: "vec4f \<Rightarrow> vec3f" where
  "xyz (ax, ay, az, aw) = (ax, ay, az)"

fun div3 :: "vec3f \<Rightarrow> real \<Rightarrow> vec3f" where
  "div3 (ax, ay, az) k = (ax / k, ay / k, az / k)"

text \<open>\<^verbatim>\<open>1 - v\<close> on a three-vector.\<close>

fun one_minus3 :: "vec3f \<Rightarrow> vec3f" where
  "one_minus3 (ax, ay, az) = (1 - ax, 1 - ay, 1 - az)"

text \<open>
  The five material scalars at the hit's texture coordinates, lines 651 to 656, in the
  order specular, metallic, roughness, transmission, opacity.
\<close>

definition raytrace_material ::
  "ops \<Rightarrow> material \<Rightarrow> vec2f \<Rightarrow> error + real \<times> real \<times> real \<times> real \<times> real" where
  "raytrace_material ops m texcoord =
     bind_e (eval_texture (srgb_to_rgb ops) (specular_tex m) texcoord True) (\<lambda>st.
     bind_e (eval_texture (srgb_to_rgb ops) (metallic_tex m) texcoord True) (\<lambda>mt.
     bind_e (eval_texture (srgb_to_rgb ops) (roughness_tex m) texcoord True) (\<lambda>rt.
     bind_e (eval_texture (srgb_to_rgb ops) (emission_tex m) texcoord True) (\<lambda>tt.
     bind_e (eval_texture (srgb_to_rgb ops) (opacity_tex m) texcoord True) (\<lambda>ot.
       Inr (specular m * vec3_x st, metallic m * vec3_x mt, roughness m * vec3_x rt,
            transmission m * vec3_x tt, opacity m * mean3 ot))))))"

text \<open>The normal corrections, lines 629 to 635.\<close>

definition correct_normal :: "shape \<Rightarrow> vec3f \<Rightarrow> vec3f \<Rightarrow> vec3f" where
  "correct_normal shape normal outgoing =
     (if lines shape \<noteq> [] then orthonormalize normal outgoing
      else if triangles shape \<noteq> [] then (if dot outgoing normal < 0 then neg3 normal else normal)
      else normal)"

text \<open>
  The reflectance branches, lines 667 to 733. \<open>rec\<close> stands for the recursive call: the
  next ray, the bounce it is given and the generator.
\<close>

definition raytrace_branches ::
  "(ray3f \<Rightarrow> int \<Rightarrow> rng_state \<Rightarrow> shaded) \<Rightarrow> ops \<Rightarrow> material \<Rightarrow> vec3f \<Rightarrow> vec3f \<Rightarrow> vec3f
   \<Rightarrow> vec3f \<Rightarrow> vec3f \<Rightarrow> real \<Rightarrow> real \<Rightarrow> real \<Rightarrow> real \<Rightarrow> int \<Rightarrow> rng_state \<Rightarrow> shaded" where
  "raytrace_branches rec ops m position normal outgoing base_color radiance
     specular' metallic' roughness' transmission' bounce rng =
     (if transmission' \<noteq> 0 then
        let fsc = fresnel_schlick ops base_color normal outgoing
        in case rand1f ops rng of (r, rng) \<Rightarrow>
             if r < vec3_x fsc then
               let incoming = reflect outgoing normal
               in bind_r (rec (make_ray position incoming) (bounce + 1) rng) (\<lambda>(rc, rng).
                    Some (Inr (vec4 (add3 radiance (xyz rc)) 1, rng)))
             else
               let incoming = neg3 outgoing
               in bind_r (rec (make_ray position incoming) (bounce + 1) rng) (\<lambda>(rc, rng).
                    Some (Inr (vec4 (add3 radiance (mul3 (color m) (xyz rc))) 1, rng)))
      else if metallic' \<noteq> 0 \<and> \<not> roughness' \<noteq> 0 then
        let incoming = reflect outgoing normal
        in bind_r (rec (make_ray position incoming) (bounce + 1) rng) (\<lambda>(rc, rng).
             Some (Inr (vec4 (add3 radiance
               (mul3 (fresnel_schlick ops base_color normal outgoing) (xyz rc))) 1, rng)))
      else if metallic' \<noteq> 0 \<and> roughness' \<noteq> 0 then
        let incoming = reflect outgoing normal;
            pi' = ray_eps;
            halfway = normalize_v (add3 outgoing incoming)
        in bind_r (rec (make_ray position incoming) (bounce + 1) rng) (\<lambda>(rc, rng).
             Some (Inr (vec4 (add3 radiance
               (scale3 (mul3 (div3 (scale3 (scale3
                  (scale3 (fresnel_schlick ops base_color halfway outgoing) (2 * pi'))
                  (microfacet_distribution ops roughness' normal halfway))
                  (microfacet_shadowing ops roughness' normal halfway outgoing incoming True))
                  (4 * dot normal outgoing * dot normal incoming))
                  (xyz rc)) (dot normal incoming))) 1, rng)))
      else if specular' \<noteq> 0 then
        case rand2f ops rng of (ruv, rng) \<Rightarrow>
        let incoming = sample_hemisphere ops normal ruv;
            halfway = normalize_v (add3 outgoing incoming);
            pi' = ray_eps;
            f = fresnel_schlick ops (4 / 100, 4 / 100, 4 / 100) halfway outgoing
        in bind_r (rec (make_ray position incoming) (bounce + 1) rng) (\<lambda>(rc, rng).
             Some (Inr (vec4 (add3 radiance
               (mul3 (scale3 (add3
                  (mul3 (div3 (color m) pi') (one_minus3 f))
                  (div3 (scale3 (scale3 f
                     (microfacet_distribution ops roughness' normal halfway))
                     (microfacet_shadowing ops roughness' normal halfway outgoing incoming True))
                     (4 * dot normal outgoing * dot normal incoming)))
                  (2 * pi')) (xyz rc))) 1, rng)))
      else
        case rand2f ops rng of (ruv, rng) \<Rightarrow>
        let incoming = sample_hemisphere ops normal ruv;
            pi' = ray_eps;
            sr = \<lparr>ray_o = position, ray_d = incoming, ray_tmin = pi', ray_tmax = flt_max\<rparr>
        in bind_r (rec sr (bounce + 1) rng) (\<lambda>(rc, rng).
             Some (Inr (vec4 (add3 radiance
               (scale3 (mul3 (scale3 (div3 base_color pi') (2 * pi')) (xyz rc))
                  (dot normal incoming))) 1, rng))))"

text \<open>
  The surface under a hit, lines 622 to 640: the object and its shape, the position and the
  corrected normal in world space, the direction back along the ray, the texture
  coordinates and the base color.
\<close>

record surface =
  surf_object :: object
  surf_shape :: shape
  surf_position :: vec3f
  surf_normal :: vec3f
  surf_outgoing :: vec3f
  surf_texcoord :: vec2f
  surf_base_color :: vec3f

definition raytrace_surface :: "ops \<Rightarrow> scene \<Rightarrow> ray3f \<Rightarrow> intersection3f \<Rightarrow> error + surface" where
  "raytrace_surface ops scene ray intersection =
     bind_e (elem (objects scene) (isect_object intersection)) (\<lambda>object.
     bind_e (elem_n (shapes scene) (obj_shape object)) (\<lambda>shape.
     bind_e (eval_position shape (isect_element intersection) (isect_uv intersection)) (\<lambda>pos.
     let position = transform_point (obj_frame object) pos
     in bind_e (eval_normal shape (isect_element intersection) (isect_uv intersection)) (\<lambda>nrm.
     let normal = transform_direction (obj_frame object) nrm;
         outgoing = neg3 (ray_d ray);
         normal = correct_normal shape normal outgoing
     in bind_e (eval_texcoord shape (isect_element intersection) (isect_uv intersection))
          (\<lambda>texcoord.
        bind_e (eval_texture (srgb_to_rgb ops) (color_tex (obj_material object)) texcoord False)
          (\<lambda>ct.
          let base_color = mul3 (color (obj_material object)) ct
          in Inr \<lparr>surf_object = object, surf_shape = shape, surf_position = position,
                   surf_normal = normal, surf_outgoing = outgoing, surf_texcoord = texcoord,
                   surf_base_color = base_color\<rparr>))))))"

text \<open>
  The opacity test of line 661: the generator is only asked when the opacity is below one.
\<close>

definition opacity_test :: "ops \<Rightarrow> real \<Rightarrow> rng_state \<Rightarrow> bool \<times> rng_state" where
  "opacity_test ops opacity' rng =
     (if opacity' < 1 then (case rand1f ops rng of (r, rng') \<Rightarrow> (r > opacity', rng'))
      else (False, rng))"

text \<open>
  The body of \<^verbatim>\<open>trace_raytrace\<close>, lines 612 to 735, with \<open>rec\<close> for its calls to itself.
\<close>

definition trace_raytrace_body :: "shader_func \<Rightarrow> ops \<Rightarrow> shader_func" where
  "trace_raytrace_body rec ops scene ray bounce rng params =
     bind_r (intersect_scene_bvh ops scene ray False True) (\<lambda>intersection.
       if \<not> isect_hit intersection then
         bind_r (Some (eval_environment ops scene ray)) (\<lambda>env. Some (Inr (vec4 env 1, rng)))
       else
         bind_r (Some (raytrace_surface ops scene ray intersection)) (\<lambda>surf.
           let m = obj_material (surf_object surf);
               radiance = emission m
           in if bounce \<ge> bounces params then Some (Inr (vec4 radiance 1, rng))
              else
                bind_r (Some (raytrace_material ops m (surf_texcoord surf)))
                  (\<lambda>(specular', metallic', roughness', transmission', opacity').
                     case opacity_test ops opacity' rng of
                       (see_through, rng) \<Rightarrow>
                         if see_through then
                           rec scene
                             (make_ray (add3 (surf_position surf) (scale3 (ray_d ray) (1 / 100)))
                                (ray_d ray))
                             (bounce + 1) rng params
                         else
                           raytrace_branches (\<lambda>r b g. rec scene r b g params) ops m
                             (surf_position surf) (surf_normal surf) (surf_outgoing surf)
                             (surf_base_color surf) radiance
                             specular' metallic' roughness' transmission' bounce rng)))"

lemma raytrace_branches_cong:
  assumes "\<And>r g. rec r (bounce + 1) g = rec' r (bounce + 1) g"
  shows "raytrace_branches rec ops m position normal outgoing base_color radiance
           specular' metallic' roughness' transmission' bounce rng =
         raytrace_branches rec' ops m position normal outgoing base_color radiance
           specular' metallic' roughness' transmission' bounce rng"
  by (simp add: raytrace_branches_def assms Let_def cong: if_cong prod.case_cong)

lemma trace_raytrace_body_cong [fundef_cong]:
  assumes "ops = ops'" "scene = scene'" "ray = ray'" "bounce = bounce'" "rng = rng'"
    "params = params'"
    and rec: "\<And>r g. bounce' < bounces params' \<Longrightarrow>
      rec scene' r (bounce' + 1) g params' = rec' scene' r (bounce' + 1) g params'"
  shows "trace_raytrace_body rec ops scene ray bounce rng params =
         trace_raytrace_body rec' ops' scene' ray' bounce' rng' params'"
proof (cases "bounce' < bounces params'")
  case True
  have br: "raytrace_branches (\<lambda>r b g. rec scene' r b g params') ops' m position normal outgoing
      base_color radiance s1 s2 s3 s4 bounce' g0 =
    raytrace_branches (\<lambda>r b g. rec' scene' r b g params') ops' m position normal outgoing
      base_color radiance s1 s2 s3 s4 bounce' g0"
    for m position normal outgoing base_color radiance s1 s2 s3 s4 g0
    by (rule raytrace_branches_cong) (simp add: rec [OF True])
  show ?thesis
    unfolding assms(1-6) trace_raytrace_body_def
    by (simp add: rec [OF True] br Let_def cong: if_cong prod.case_cong)
next
  case False
  then have "bounces params' \<le> bounce'" by simp
  then show ?thesis
    unfolding assms(1-6) trace_raytrace_body_def
    by (simp add: Let_def cong: if_cong prod.case_cong)
qed

function trace_raytrace :: "ops \<Rightarrow> shader_func" where
  "trace_raytrace ops scene ray bounce rng params =
     trace_raytrace_body (trace_raytrace ops) ops scene ray bounce rng params"
  by pat_completeness auto
termination
  by (relation "measure (\<lambda>(ops, scene, ray, bounce, rng, params). nat (bounces params - bounce))")
    auto

text \<open>The four preview shaders, lines 738 to 796.\<close>

definition trace_eyelight :: "ops \<Rightarrow> shader_func" where
  "trace_eyelight ops scene ray bounce rng params =
     bind_r (intersect_scene_bvh ops scene ray False True) (\<lambda>intersection.
       if \<not> isect_hit intersection then Some (Inr (vec4 zero3f 1, rng))
       else
         bind_r (Some (elem (objects scene) (isect_object intersection))) (\<lambda>object.
         bind_r (Some (elem_n (shapes scene) (obj_shape object))) (\<lambda>shape.
         bind_r (Some (eval_normal shape (isect_element intersection) (isect_uv intersection)))
           (\<lambda>nrm.
           let normal = transform_direction (obj_frame object) nrm
           in Some (Inr (vec4 (scale3 (color (obj_material object)) (dot normal (neg3 (ray_d ray))))
                          1, rng))))))"

definition trace_normal :: "ops \<Rightarrow> shader_func" where
  "trace_normal ops scene ray bounce rng params =
     bind_r (intersect_scene_bvh ops scene ray False True) (\<lambda>intersection.
       if \<not> isect_hit intersection then Some (Inr (vec4 zero3f 1, rng))
       else
         bind_r (Some (elem (objects scene) (isect_object intersection))) (\<lambda>object.
         bind_r (Some (elem_n (shapes scene) (obj_shape object))) (\<lambda>shape.
         bind_r (Some (eval_normal shape (isect_element intersection) (isect_uv intersection)))
           (\<lambda>nrm.
           let normal = transform_direction (obj_frame object) nrm
           in Some (Inr (vec4 (add3 (scale3 normal (1 / 2)) (1 / 2, 1 / 2, 1 / 2)) 1, rng))))))"

definition trace_texcoord :: "ops \<Rightarrow> shader_func" where
  "trace_texcoord ops scene ray bounce rng params =
     bind_r (intersect_scene_bvh ops scene ray False True) (\<lambda>intersection.
       if \<not> isect_hit intersection then Some (Inr (vec4 zero3f 1, rng))
       else
         bind_r (Some (elem (objects scene) (isect_object intersection))) (\<lambda>object.
         bind_r (Some (elem_n (shapes scene) (obj_shape object))) (\<lambda>shape.
         bind_r (Some (eval_texcoord shape (isect_element intersection) (isect_uv intersection)))
           (\<lambda>texcoord.
           Some (Inr ((fmod (fst texcoord) 1, fmod (snd texcoord) 1, 0, 1), rng))))))"

definition trace_color :: "ops \<Rightarrow> shader_func" where
  "trace_color ops scene ray bounce rng params =
     bind_r (intersect_scene_bvh ops scene ray False True) (\<lambda>intersection.
       if \<not> isect_hit intersection then Some (Inr (vec4 zero3f 1, rng))
       else
         bind_r (Some (elem (objects scene) (isect_object intersection))) (\<lambda>object.
           Some (Inr (vec4 (color (obj_material object)) 1, rng))))"

text \<open>
  The switch of \<^verbatim>\<open>get_trace_shader_func\<close>. Its default case throws for a selector outside
  the enumeration, a value the datatype does not have.
\<close>

definition get_trace_shader_func :: "ops \<Rightarrow> trace_params \<Rightarrow> shader_func" where
  "get_trace_shader_func ops params =
     (case shader params of
        shader_raytrace \<Rightarrow> trace_raytrace ops
      | shader_eyelight \<Rightarrow> trace_eyelight ops
      | shader_normal \<Rightarrow> trace_normal ops
      | shader_texcoord \<Rightarrow> trace_texcoord ops
      | shader_color \<Rightarrow> trace_color ops)"

section \<open>The sampling driver\<close>

text \<open>
  Modelled from the spec: the render state of the header. Each pixel has its own
  generator, its running sum and its count; the render buffer holds sum / count.
\<close>

record pixel =
  pix_rng :: rng_state
  accumulated :: vec4f
  pix_samples :: int

record state =
  st_pixels :: "pixel image"
  st_render :: "vec4f image"

definition zero4f :: vec4f where
  "zero4f = (0, 0, 0, 0)"

text \<open>\<^verbatim>\<open>pixel{}\<close>: a default generator, nothing accumulated.\<close>

definition new_pixel :: pixel where
  "new_pixel = \<lparr>pix_rng = \<lparr>rng_st = 0x853c49e6748fea9b, rng_inc = 0xda3e39cb94b95bdb\<rparr>,
                 accumulated = zero4f, pix_samples = 0\<rparr>"

text \<open>\<^verbatim>\<open>img.assign(size, value)\<close>: a raster of that extent, every pixel the value.\<close>

definition image_assign :: "vec2i \<Rightarrow> 'a \<Rightarrow> 'a image" where
  "image_assign ext v = \<lparr>extent = ext, pixels = replicate (nat (fst ext) * nat (snd ext)) v\<rparr>"

text \<open>\<^verbatim>\<open>img[{i, j}] = v\<close>.\<close>

definition image_set :: "'a image \<Rightarrow> vec2i \<Rightarrow> 'a \<Rightarrow> error + 'a image" where
  "image_set img ij v =
     (let k = snd ij * fst (extent img) + fst ij
      in if 0 \<le> k \<and> k < int (length (pixels img))
         then Inr (img\<lparr>pixels := (pixels img)[nat k := v]\<rparr>)
         else Inl OutOfRange)"

text \<open>\<^verbatim>\<open>round\<close> of the C library, halves away from zero, then the conversion to \<^verbatim>\<open>int\<close>.\<close>

definition round_c :: "real \<Rightarrow> int" where
  "round_c a = (if 0 \<le> a then \<lfloor>a + 1 / 2\<rfloor> else \<lceil>a - 1 / 2\<rceil>)"

text \<open>The built-in \<^verbatim>\<open>a / b\<close> on \<^verbatim>\<open>int\<close>, which truncates; the source divides by two.\<close>

definition cpp_div :: "int \<Rightarrow> int \<Rightarrow> int" where
  "cpp_div a b = sgn a * sgn b * (\<bar>a\<bar> div \<bar>b\<bar>)"

text \<open>
  The loop of \<^verbatim>\<open>init_state\<close>, lines 829 to 831: one draw from the master generator per
  pixel, in the order of the pixel array. \<^verbatim>\<open>1 << 31\<close> is the least \<^verbatim>\<open>int\<close>.
\<close>

fun seed_pixels :: "ops \<Rightarrow> trace_params \<Rightarrow> pixel list \<Rightarrow> rng_state \<Rightarrow> pixel list" where
  "seed_pixels ops params [] rng = []"
| "seed_pixels ops params (pixel # rest) rng =
     (case rand1i ops rng (- (2 ^ 31)) of
        (r, rng') \<Rightarrow>
          pixel\<lparr>pix_rng := make_rng ops (seed params) (cpp_div r 2 + 1)\<rparr>
            # seed_pixels ops params rest rng')"

definition init_state :: "ops \<Rightarrow> state \<Rightarrow> scene \<Rightarrow> camera \<Rightarrow> trace_params \<Rightarrow> state" where
  "init_state ops state scene camera params =
     (let image_size =
            (if fst (film camera) > snd (film camera)
             then (resolution params,
                   round_c (real_of_int (resolution params) * snd (film camera) / fst (film camera)))
             else (round_c (real_of_int (resolution params) * fst (film camera) / snd (film camera)),
                   resolution params));
          state = state\<lparr>st_pixels := image_assign image_size new_pixel\<rparr>;
          state = state\<lparr>st_render := image_assign image_size zero4f\<rparr>;
          rng = make_rng ops 1301081 1
      in state\<lparr>st_pixels := (st_pixels state)
                  \<lparr>pixels := seed_pixels ops params (pixels (st_pixels state)) rng\<rparr>\<rparr>)"

fun max4 :: "vec4f \<Rightarrow> real" where
  "max4 (ax, ay, az, aw) = max (max ax ay) (max az aw)"

fun scale4 :: "vec4f \<Rightarrow> real \<Rightarrow> vec4f" where
  "scale4 (ax, ay, az, aw) k = (ax * k, ay * k, az * k, aw * k)"

fun add4 :: "vec4f \<Rightarrow> vec4f \<Rightarrow> vec4f" where
  "add4 (ax, ay, az, aw) (bx, by, bz, bw) = (ax + bx, ay + by, az + bz, aw + bw)"

fun div4 :: "vec4f \<Rightarrow> real \<Rightarrow> vec4f" where
  "div4 (ax, ay, az, aw) k = (ax / k, ay / k, az / k, aw / k)"

text \<open>
  One sample for the pixel (i, j): the body of the two loops, lines 891 to 907, which is
  also the body the parallel branch runs, lines 917 to 933.
\<close>

definition trace_pixel ::
  "ops \<Rightarrow> shader_func \<Rightarrow> scene \<Rightarrow> camera \<Rightarrow> trace_params \<Rightarrow> vec2i \<Rightarrow> state \<Rightarrow> state result" where
  "trace_pixel ops shader_fn scene camera params ij state =
     bind_r (Some (image_at (st_pixels state) ij)) (\<lambda>pixel.
       let image_size = extent (st_pixels state)
       in case rand2f ops (pix_rng pixel) of
            (puv, rng) \<Rightarrow>
              let uv = ((real_of_int (fst ij) + fst puv) / real_of_int (fst image_size),
                        (real_of_int (snd ij) + snd puv) / real_of_int (snd image_size));
                  ray = eval_camera camera uv
              in bind_r (shader_fn scene ray 0 rng params) (\<lambda>(color', rng).
                   let color' = (if max4 color' > params_clamp params
                                 then scale4 color' (params_clamp params / max4 color')
                                 else color');
                       pixel = pixel\<lparr>pix_rng := rng\<rparr>;
                       pixel = pixel\<lparr>accumulated := add4 (accumulated pixel) color'\<rparr>;
                       pixel = pixel\<lparr>pix_samples := pix_samples pixel + 1\<rparr>
                   in bind_r (Some (image_set (st_pixels state) ij pixel)) (\<lambda>pixels'.
                      bind_r (Some (image_set (st_render state) ij
                                      (div4 (accumulated pixel) (real_of_int (pix_samples pixel)))))
                        (\<lambda>render'.
                          Some (Inr (state\<lparr>st_pixels := pixels', st_render := render'\<rparr>))))))"

text \<open>A row of the image, for i from 0 to the width of the render buffer.\<close>

definition trace_row ::
  "ops \<Rightarrow> shader_func \<Rightarrow> scene \<Rightarrow> camera \<Rightarrow> trace_params \<Rightarrow> nat \<Rightarrow> state \<Rightarrow> state result" where
  "trace_row ops shader_fn scene camera params j state =
     for_r [0 ..< nat (fst (extent (st_render state)))]
       (\<lambda>i. trace_pixel ops shader_fn scene camera params (int i, int j)) state"

text \<open>
  \<^verbatim>\<open>trace_samples\<close>, lines 878 to 936. With \<^verbatim>\<open>params.noparallel\<close> the rows run in order.
  Otherwise worker threads claim the rows; threads are outside this model, which runs that
  branch row by row in the order \<open>schedule\<close> gives (each pixel is touched by one row only).
  No claim below is about that branch.
\<close>

definition trace_samples ::
  "ops \<Rightarrow> nat list \<Rightarrow> state \<Rightarrow> scene \<Rightarrow> camera \<Rightarrow> trace_params \<Rightarrow> state result" where
  "trace_samples ops schedule state scene camera params =
     (let shader_fn = get_trace_shader_func ops params
      in if noparallel params then
           for_r [0 ..< nat (snd (extent (st_render state)))]
             (trace_row ops shader_fn scene camera params) state
         else
           for_r schedule (trace_row ops shader_fn scene camera params) state)"

section \<open>Texture sampling: properties\<close>

text \<open>
  A raster is well formed when its extent is not negative and counts its pixels; a texture
  when its four rasters are. A texture is empty when all four rasters are.
\<close>

definition wf_image :: "'a image \<Rightarrow> bool" where
  "wf_image img =
     (0 \<le> fst (extent img) \<and> 0 \<le> snd (extent img) \<and>
      int (length (pixels img)) = fst (extent img) * snd (extent img))"

definition wf_texture :: "texture \<Rightarrow> bool" where
  "wf_texture t =
     (wf_image (colorf t) \<and> wf_image (colorb t) \<and> wf_image (scalarf t) \<and> wf_image (scalarb t))"

definition texture_empty :: "texture \<Rightarrow> bool" where
  "texture_empty t =
     (image_empty (colorf t) \<and> image_empty (colorb t) \<and> image_empty (scalarf t) \<and>
      image_empty (scalarb t))"

text \<open>A two by one texture of float scalars, for the examples.\<close>

definition stripe_texture :: texture where
  "stripe_texture = empty_texture\<lparr>scalarf := \<lparr>extent = (2, 1), pixels = [0, 1]\<rparr>\<rparr>"

lemma eval_texture_null: "eval_texture srgb None uv ldr = Inr (1, 1, 1)"
  by (simp add: eval_texture_def)

text \<open>
  Claim C7, second half: a texture whose four rasters are all empty has size (0, 0), and
  sampling it computes \<^verbatim>\<open>(i + 1) % size.x\<close> with \<^verbatim>\<open>size.x = 0\<close> at line 138, before any
  texel is looked up. The remainder by zero is undefined in C++; the sampler does not
  reach the white of \<^verbatim>\<open>lookup_texture\<close>'s last branch. (The null texture does give white:
  lemma \<open>eval_texture_null\<close>.)
\<close>

theorem eval_texture_empty_fails:
  "eval_texture srgb (Some empty_texture) uv ldr_as_linear = Inl ModuloByZero"
  by (simp add: eval_texture_def empty_texture_def texture_size_def image_empty_def no_image_def
      cpp_mod_def bind_e_def Let_def)

lemma fmod_one: "fmod a 1 = (if 0 \<le> a then frac a else if a = of_int \<lfloor>a\<rfloor> then 0 else frac a - 1)"
  unfolding fmod_def trunc_int_def frac_def
  by (auto simp: ceiling_altdef)

lemma texel_coord_frac:
  assumes "0 \<le> n"
  shows "texel_coord a n = frac a * real_of_int n"
proof -
  consider "0 \<le> a" | "a < 0" "a = of_int \<lfloor>a\<rfloor>" | "a < 0" "a \<noteq> of_int \<lfloor>a\<rfloor>" by linarith
  then show ?thesis
  proof cases
    case 1
    then have "fmod a 1 = frac a" by (simp add: fmod_one)
    moreover have "0 \<le> frac a * real_of_int n" using assms by simp
    ultimately show ?thesis by (simp add: texel_coord_def Let_def not_less)
  next
    case 2
    then have "fmod a 1 = 0" by (simp add: fmod_one)
    moreover have "frac a = 0" using 2(2) by (simp add: frac_def)
    ultimately show ?thesis by (simp add: texel_coord_def)
  next
    case 3
    then have f: "fmod a 1 = frac a - 1" by (simp add: fmod_one)
    show ?thesis
    proof (cases "n = 0")
      case True
      then show ?thesis by (simp add: texel_coord_def)
    next
      case False
      then have "0 < real_of_int n" using assms by simp
      moreover have "frac a - 1 < 0" using frac_lt_1 [of a] by simp
      ultimately have "(frac a - 1) * real_of_int n < 0" by (simp add: mult_less_0_iff)
      then show ?thesis by (simp add: texel_coord_def f Let_def algebra_simps)
    qed
  qed
qed

lemma texel_coord_periodic: "0 \<le> n \<Longrightarrow> texel_coord (a + of_int k) n = texel_coord a n"
  by (simp add: texel_coord_frac frac_add_of_int_right)

lemma texture_size_nonneg:
  "wf_texture t \<Longrightarrow> 0 \<le> fst (texture_size t) \<and> 0 \<le> snd (texture_size t)"
  by (simp add: wf_texture_def wf_image_def texture_size_def)

lemma eval_texture_shift:
  assumes "wf_texture tex"
  shows "eval_texture srgb (Some tex) (u + of_int n, v + of_int m) ldr =
         eval_texture srgb (Some tex) (u, v) ldr"
  using texture_size_nonneg [OF assms]
  by (simp add: eval_texture_def texel_coord_periodic)


lemma not_isl_Inr: "\<not> isl r \<Longrightarrow> \<exists>c. r = Inr c"
  by (cases r) auto

lemma not_isl_bind_e: "\<not> isl m \<Longrightarrow> (\<And>a. \<not> isl (f a)) \<Longrightarrow> \<not> isl (bind_e m f)"
  by (cases m) (auto simp: bind_e_def)

lemma image_at_in_range:
  assumes "wf_image img" "0 \<le> i" "i < fst (extent img)" "0 \<le> j" "j < snd (extent img)"
  shows "\<not> isl (image_at img (i, j))"
proof -
  let ?W = "fst (extent img)" and ?H = "snd (extent img)"
  have "j * ?W \<le> (?H - 1) * ?W" using assms by (intro mult_right_mono) auto
  then have "j * ?W + i < ?H * ?W" using assms by (simp add: algebra_simps)
  moreover have "0 \<le> j * ?W + i" using assms by simp
  moreover have "int (length (pixels img)) = ?W * ?H" using assms(1) by (simp add: wf_image_def)
  ultimately show ?thesis by (simp add: image_at_def elem_def mult.commute)
qed

lemma image_nonempty_pos:
  assumes "wf_image img" "\<not> image_empty img"
  shows "0 < fst (extent img) \<and> 0 < snd (extent img)"
proof -
  have "0 < length (pixels img)" using assms(2) by (simp add: image_empty_def)
  moreover have "int (length (pixels img)) = fst (extent img) * snd (extent img)"
    using assms(1) by (simp add: wf_image_def)
  ultimately have "0 < fst (extent img) * snd (extent img)" by linarith
  then show ?thesis using assms(1) by (auto simp: wf_image_def zero_less_mult_iff)
qed

lemma texture_size_pos:
  assumes "wf_texture t" "\<not> texture_empty t"
  shows "0 < fst (texture_size t) \<and> 0 < snd (texture_size t)"
  using assms image_nonempty_pos [of "colorf t"] image_nonempty_pos [of "colorb t"]
    image_nonempty_pos [of "scalarf t"] image_nonempty_pos [of "scalarb t"]
  by (auto simp: wf_texture_def texture_empty_def texture_size_def)

lemma lookup_texture_in_range:
  assumes "wf_texture t" "0 \<le> i" "i < fst (texture_size t)" "0 \<le> j" "j < snd (texture_size t)"
  shows "\<not> isl (lookup_texture srgb t (i, j) ldr)"
proof -
  have wf: "wf_image (colorf t)" "wf_image (colorb t)" "wf_image (scalarf t)" "wf_image (scalarb t)"
    using assms(1) by (simp_all add: wf_texture_def)
  consider (cf) "\<not> image_empty (colorf t)"
    | (cb) "image_empty (colorf t)" "\<not> image_empty (colorb t)"
    | (sf) "image_empty (colorf t)" "image_empty (colorb t)" "\<not> image_empty (scalarf t)"
    | (sb) "image_empty (colorf t)" "image_empty (colorb t)" "image_empty (scalarf t)"
           "\<not> image_empty (scalarb t)"
    | (none) "image_empty (colorf t)" "image_empty (colorb t)" "image_empty (scalarf t)"
           "image_empty (scalarb t)"
    by blast
  then show ?thesis
  proof cases
    case cf
    then show ?thesis
      using assms(2-5) image_at_in_range [OF wf(1), of i j]
      by (simp add: lookup_texture_def texture_size_def)
  next
    case cb
    then show ?thesis
      using assms(2-5) image_at_in_range [OF wf(2), of i j]
      by (simp add: lookup_texture_def texture_size_def not_isl_bind_e)
  next
    case sf
    then show ?thesis
      using assms(2-5) image_at_in_range [OF wf(3), of i j]
      by (simp add: lookup_texture_def texture_size_def not_isl_bind_e)
  next
    case sb
    then show ?thesis
      using assms(2-5) image_at_in_range [OF wf(4), of i j]
      by (simp add: lookup_texture_def texture_size_def not_isl_bind_e)
  next
    case none
    then show ?thesis by (simp add: lookup_texture_def)
  qed
qed

lemma texel_index_range:
  assumes "0 < n"
  shows "0 \<le> clamp k 0 (n - 1) \<and> clamp k 0 (n - 1) < n"
  using assms by (simp add: clamp_def)

lemma cpp_mod_range:
  assumes "0 < n" "0 \<le> i"
  shows "\<exists>k. cpp_mod (i + 1) n = Inr k \<and> 0 \<le> k \<and> k < n"
  using assms by (simp add: cpp_mod_def sgn_if)

lemma eval_texture_total:
  assumes "wf_texture tex" "\<not> texture_empty tex"
  shows "\<exists>c. eval_texture srgb (Some tex) uv ldr = Inr c"
proof -
  let ?W = "fst (texture_size tex)" and ?H = "snd (texture_size tex)"
  let ?i = "clamp (trunc_int (texel_coord (fst uv) ?W)) 0 (?W - 1)"
  let ?j = "clamp (trunc_int (texel_coord (snd uv) ?H)) 0 (?H - 1)"
  have pos: "0 < ?W" "0 < ?H" using texture_size_pos [OF assms] by auto
  have i: "0 \<le> ?i" "?i < ?W" using texel_index_range [OF pos(1)] by auto
  have j: "0 \<le> ?j" "?j < ?H" using texel_index_range [OF pos(2)] by auto
  obtain ii where ii: "cpp_mod (?i + 1) ?W = Inr ii" "0 \<le> ii" "ii < ?W"
    using cpp_mod_range [OF pos(1) i(1)] by auto
  obtain jj where jj: "cpp_mod (?j + 1) ?H = Inr jj" "0 \<le> jj" "jj < ?H"
    using cpp_mod_range [OF pos(2) j(1)] by auto
  obtain c00 where c00: "lookup_texture srgb tex (?i, ?j) ldr = Inr c00"
    using not_isl_Inr [OF lookup_texture_in_range [OF assms(1) i j]] by blast
  obtain c01 where c01: "lookup_texture srgb tex (?i, jj) ldr = Inr c01"
    using not_isl_Inr [OF lookup_texture_in_range [OF assms(1) i jj(2,3)]] by blast
  obtain c10 where c10: "lookup_texture srgb tex (ii, ?j) ldr = Inr c10"
    using not_isl_Inr [OF lookup_texture_in_range [OF assms(1) ii(2,3) j]] by blast
  obtain c11 where c11: "lookup_texture srgb tex (ii, jj) ldr = Inr c11"
    using not_isl_Inr [OF lookup_texture_in_range [OF assms(1) ii(2,3) jj(2,3)]] by blast
  have "\<not> isl (eval_texture srgb (Some tex) uv ldr)"
    by (simp add: eval_texture_def Let_def ii(1) jj(1) c00 c01 c10 c11 bind_e_def)
  then show ?thesis by (rule not_isl_Inr)
qed

text \<open>
  Claim C8: sampling is periodic. For every well-formed texture that is not empty, every
  uv, every decoding flag and all integers n and m, the sample at uv + (n, m) is the sample
  at uv, and it is a color (the sampler does not fail there).
\<close>

theorem eval_texture_periodic:
  assumes "wf_texture tex" and "\<not> texture_empty tex"
  shows "eval_texture srgb (Some tex) (u + real_of_int n, v + real_of_int m) ldr_as_linear =
           eval_texture srgb (Some tex) (u, v) ldr_as_linear \<and>
         (\<exists>c. eval_texture srgb (Some tex) (u, v) ldr_as_linear = Inr c)"
  using eval_texture_shift [OF assms(1)] eval_texture_total [OF assms] by simp

lemma stripe_texture_wf: "wf_texture stripe_texture \<and> \<not> texture_empty stripe_texture"
  by (simp add: stripe_texture_def empty_texture_def no_image_def wf_texture_def wf_image_def
      texture_empty_def image_empty_def)

theorem eval_texture_periodic_witness:
  "wf_texture stripe_texture \<and> \<not> texture_empty stripe_texture \<and>
   eval_texture id (Some stripe_texture) (1 / 4 + real_of_int 3, 1 / 2 + real_of_int (- 2)) True =
     eval_texture id (Some stripe_texture) (1 / 4, 1 / 2) True \<and>
   (\<exists>c. eval_texture id (Some stripe_texture) (1 / 4, 1 / 2) True = Inr c)"
  using eval_texture_periodic [of stripe_texture id "1 / 4" 3 "1 / 2" "- 2" True]
    stripe_texture_wf
  by blast

section \<open>Examples\<close>

text \<open>
  Stand-ins for the parameters, to run the model on the examples below. The box test lets
  every ray through (it only prunes the traversal); the triangle test solves for the
  barycentric coordinates and the distance in exact arithmetic; the frame inverse is right
  for the identity frame, the only frame of the examples; the generator returns one half
  and steps its state.
\<close>

definition triangle_test :: "ray3f \<Rightarrow> vec3f \<Rightarrow> vec3f \<Rightarrow> vec3f \<Rightarrow> (vec2f \<times> real) option" where
  "triangle_test ray p0 p1 p2 =
     (let edge1 = sub3 p1 p0;
          edge2 = sub3 p2 p0;
          pvec = cross (ray_d ray) edge2;
          det = dot edge1 pvec
      in if det = 0 then None
         else
           let inv_det = 1 / det;
               tvec = sub3 (ray_o ray) p0;
               u = dot tvec pvec * inv_det;
               qvec = cross tvec edge1;
               v = dot (ray_d ray) qvec * inv_det;
               t = dot edge2 qvec * inv_det
           in if u < 0 \<or> u > 1 \<or> v < 0 \<or> u + v > 1 \<or> t < ray_tmin ray \<or> t > ray_tmax ray
              then None
              else Some ((u, v), t))"

definition example_ops :: ops where
  "example_ops =
     \<lparr>srgb_to_rgb = (\<lambda>c. c),
      point_bounds = (\<lambda>p r. (sub3 p (r, r, r), add3 p (r, r, r))),
      line_bounds = (\<lambda>p0 p1 r0 r1. (min3 (sub3 p0 (r0, r0, r0)) (sub3 p1 (r1, r1, r1)),
                                    max3 (add3 p0 (r0, r0, r0)) (add3 p1 (r1, r1, r1)))),
      triangle_bounds = (\<lambda>p0 p1 p2. (min3 p0 (min3 p1 p2), max3 p0 (max3 p1 p2))),
      transform_bbox = (\<lambda>f b. b),
      inverse_frame = (\<lambda>f non_rigid. f),
      intersect_bbox = (\<lambda>ray ray_dinv b. True),
      intersect_point = (\<lambda>ray p r. None),
      intersect_line = (\<lambda>ray p0 p1 r0 r1. None),
      intersect_triangle = triangle_test,
      atan2 = (\<lambda>y x. 0),
      acos = (\<lambda>x. 0),
      pif = 355 / 113,
      fresnel_schlick = (\<lambda>c n out. c),
      microfacet_distribution = (\<lambda>r n h. 1),
      microfacet_shadowing = (\<lambda>r n h out inc b. 1),
      sample_hemisphere = (\<lambda>n ruv. n),
      make_rng = (\<lambda>seed' seq. \<lparr>rng_st = word_of_int seed', rng_inc = word_of_int seq\<rparr>),
      rand1f = (\<lambda>rng. (1 / 2, rng\<lparr>rng_st := rng_st rng + 1\<rparr>)),
      rand2f = (\<lambda>rng. ((1 / 2, 1 / 2), rng\<lparr>rng_st := rng_st rng + 2\<rparr>)),
      rand1i = (\<lambda>rng n. (0, rng\<lparr>rng_st := rng_st rng + 1\<rparr>))\<rparr>"

definition identity_frame :: frame3f where
  "identity_frame = ((1, 0, 0), (0, 1, 0), (0, 0, 1), (0, 0, 0))"

text \<open>A shape of one point with a normal and a texture coordinate, and a scene of nothing.\<close>

definition point_shape :: shape where
  "point_shape =
     \<lparr>points = [0], lines = [], triangles = [], positions = [(0, 0, 0)], normals = [(0, 0, 1)],
      texcoords = [(0, 0)], radius = [1], shape_bvh = None\<rparr>"

definition no_shape :: shape where
  "no_shape =
     \<lparr>points = [], lines = [], triangles = [], positions = [], normals = [], texcoords = [],
      radius = [], shape_bvh = None\<rparr>"

definition no_scene :: scene where
  "no_scene = \<lparr>cameras = [], objects = [], shapes = [], environments = [], scene_bvh = None\<rparr>"

section \<open>The geometry evaluators: properties\<close>

lemma eval_position_no_triangles:
  "triangles shape = [] \<Longrightarrow> eval_position shape element uv = Inl OutOfRange"
  by (auto simp: eval_position_def elem_def bind_e_def)

text \<open>
  Claim C3 fails on shapes of points and of lines. \<^verbatim>\<open>eval_position\<close> reads
  \<^verbatim>\<open>shape->triangles[element]\<close> whatever the shape is made of, and so do \<^verbatim>\<open>eval_normal\<close> when
  the shape has normals and \<^verbatim>\<open>eval_texcoord\<close> when it has texture coordinates: on a shape
  of one point, element 0 is in range of the points and outside the empty triangle array.
  \<^verbatim>\<open>eval_element_normal\<close> and the traversal do tell the three kinds of shape apart.
\<close>

theorem eval_point_shape_out_of_range:
  "eval_position point_shape 0 (0, 0) = Inl OutOfRange \<and>
   eval_normal point_shape 0 (0, 0) = Inl OutOfRange \<and>
   eval_texcoord point_shape 0 (0, 0) = Inl OutOfRange"
  by (simp add: eval_position_def eval_normal_def eval_texcoord_def point_shape_def elem_def
      bind_e_def)

section \<open>The empty tree\<close>

lemma build_bvh_empty: "build_bvh [] = ([new_node], [])"
  by (simp add: build_bvh_def build_step_def range_bbox_def bvh_max_prims_def subrange_def
      new_node_def)

lemma make_bvh_empty: "make_bvh [] = \<lparr>tree_nodes = [new_node], tree_primitives = []\<rparr>"
  by (simp add: make_bvh_def build_bvh_empty)

lemma shape_loop_done:
  "shape_loop ops shape bvh' ray_dinv ray_dsign find_any [] w = Some (Inr (shape_walk_result w))"
  by (subst shape_loop.simps) simp

lemma shape_loop_empty_leaf:
  assumes "points shape = []" "lines shape = []" "triangles shape = []"
  shows "shape_loop ops shape \<lparr>tree_nodes = [new_node], tree_primitives = []\<rparr> ray_dinv ray_dsign
           find_any [0] (False, ray, element, uv, distance) =
         Some (Inr (False, element, uv, distance))"
  by (subst shape_loop.simps)
     (simp add: elem_n_def elem_def new_node_def shape_node_def assms shape_loop_done
        shape_walk_result_def)

lemma intersect_empty_shape:
  assumes "points shape = []" "lines shape = []" "triangles shape = []"
  shows "init_bvh_shape ops shape = Inr (shape\<lparr>shape_bvh := Some (make_bvh [])\<rparr>) \<and>
         tree_nodes (make_bvh []) = [new_node] \<and>
         intersect_shape_bvh ops (shape\<lparr>shape_bvh := Some (make_bvh [])\<rparr>) ray element uv distance find_any =
           Some (Inr (False, element, uv, distance))"
  using assms shape_loop_empty_leaf [of "shape\<lparr>shape_bvh := Some (make_bvh [])\<rparr>" ops]
  by (simp add: init_bvh_shape_def shape_primitives_def bind_e_def make_bvh_empty
       intersect_shape_bvh_def Let_def)

lemma scene_loop_done:
  "scene_loop ops scene bvh' ray_dinv ray_dsign find_any nr [] w = Some (Inr (scene_walk_result w))"
  by (subst scene_loop.simps) simp

lemma scene_loop_empty_leaf:
  "scene_loop ops scene \<lparr>tree_nodes = [new_node], tree_primitives = []\<rparr> ray_dinv ray_dsign
           find_any nr [0] (False, ray, object, element, uv, distance) =
         Some (Inr (False, object, element, uv, distance))"
  by (subst scene_loop.simps)
     (simp add: elem_n_def elem_def new_node_def scene_node_def scene_loop_done
        scene_walk_result_def bind_r_def)

lemma init_bvh_no_objects:
  assumes "objects scene = []" "init_bvh ops scene = Inr scene'"
  shows "scene_bvh scene' = Some (make_bvh [])"
  using assms
  by (auto simp: init_bvh_def bind_e_def scene_primitives_def split: sum.splits)

lemma intersect_empty_scene:
  assumes "scene_bvh scene' = Some (make_bvh [])"
  shows "intersect_scene_bvh ops scene' ray find_any nr =
    Some (Inr \<lparr>isect_object = - 1, isect_element = - 1, isect_uv = (0, 0), isect_distance = 0,
               isect_hit = False\<rparr>)"
  using assms scene_loop_empty_leaf [of ops scene']
  by (simp add: intersect_scene_bvh_def intersect_scene_bvh_refs_def make_bvh_empty Let_def bind_r_def)

text \<open>
  Claim C10: over no entries the builder makes one node, a leaf of no elements, so the
  node array is not empty. That holds for a shape whose three element lists are empty and
  for a scene of no objects. A query against such a tree passes the test for an empty node
  array (lines 429 and 515), visits the leaf and returns no hit, whatever the box test
  says of the leaf's box; the referenced variables keep their values.
\<close>

theorem empty_tree_queries:
  assumes "points shape = []" and "lines shape = []" and "triangles shape = []"
    and "objects scene = []" and "init_bvh ops scene = Inr scene'"
  shows "build_bvh [] = ([new_node], []) \<and>
         \<not> node_internal new_node \<and> node_num new_node = 0 \<and>
         init_bvh_shape ops shape = Inr (shape\<lparr>shape_bvh := Some (make_bvh [])\<rparr>) \<and>
         scene_bvh scene' = Some (make_bvh []) \<and>
         tree_nodes (make_bvh []) = [new_node] \<and>
         intersect_shape_bvh ops (shape\<lparr>shape_bvh := Some (make_bvh [])\<rparr>) ray element uv distance
             find_any =
           Some (Inr (False, element, uv, distance)) \<and>
         intersect_scene_bvh ops scene' ray find_any non_rigid_frames =
           Some (Inr \<lparr>isect_object = - 1, isect_element = - 1, isect_uv = (0, 0),
                      isect_distance = 0, isect_hit = False\<rparr>)"
proof -
  have scene: "scene_bvh scene' = Some (make_bvh [])"
    using assms(4,5) by (rule init_bvh_no_objects)
  show ?thesis
    using intersect_empty_shape [OF assms(1-3)] scene intersect_empty_scene [OF scene]
    by (simp add: build_bvh_empty new_node_def)
qed

lemma init_bvh_no_scene:
  "init_bvh ops no_scene = Inr (no_scene\<lparr>scene_bvh := Some (make_bvh [])\<rparr>)"
  by (simp add: init_bvh_def no_scene_def scene_primitives_def bind_e_def)

theorem empty_tree_queries_witness:
  "points no_shape = [] \<and> lines no_shape = [] \<and> triangles no_shape = [] \<and>
   objects no_scene = [] \<and>
   init_bvh example_ops no_scene = Inr (no_scene\<lparr>scene_bvh := Some (make_bvh [])\<rparr>) \<and>
   tree_nodes (make_bvh []) = [new_node] \<and>
   intersect_shape_bvh example_ops (no_shape\<lparr>shape_bvh := Some (make_bvh [])\<rparr>)
       (make_ray (0, 0, 0) (0, 0, 1)) (- 1) (0, 0) 0 False =
     Some (Inr (False, - 1, (0, 0), 0)) \<and>
   intersect_scene_bvh example_ops (no_scene\<lparr>scene_bvh := Some (make_bvh [])\<rparr>)
       (make_ray (0, 0, 0) (0, 0, 1)) False True =
     Some (Inr \<lparr>isect_object = - 1, isect_element = - 1, isect_uv = (0, 0),
                isect_distance = 0, isect_hit = False\<rparr>)"
proof -
  have h: "points no_shape = []" "lines no_shape = []" "triangles no_shape = []"
    "objects no_scene = []"
    by (simp_all add: no_shape_def no_scene_def)
  show ?thesis
    using empty_tree_queries [where shape = no_shape and scene = no_scene and ops = example_ops
        and scene' = "no_scene\<lparr>scene_bvh := Some (make_bvh [])\<rparr>"
        and ray = "make_ray (0, 0, 0) (0, 0, 1)" and element = "- 1" and uv = "(0, 0)"
        and distance = 0 and find_any = False and non_rigid_frames = True,
        OF h init_bvh_no_scene]
      h init_bvh_no_scene [of example_ops]
    by simp
qed

section \<open>The material scalars\<close>

text \<open>A one by one texture of the float scalar 0, and a material of full transmission
  whose emission texture it is; the material has no transmission texture.\<close>

definition black_texture :: texture where
  "black_texture = empty_texture\<lparr>scalarf := \<lparr>extent = (1, 1), pixels = [0]\<rparr>\<rparr>"

definition plain_material :: material where
  "plain_material =
     \<lparr>emission = (0, 0, 0), color = (1, 1, 1), specular = 0, metallic = 0, roughness = 0,
      ior = 3 / 2, transmission = 0, thin = True, trdepth = 1 / 100, opacity = 1,
      emission_tex = None, color_tex = None, specular_tex = None, metallic_tex = None,
      roughness_tex = None, transmission_tex = None, opacity_tex = None\<rparr>"

definition glass_material :: material where
  "glass_material = plain_material\<lparr>transmission := 1, emission_tex := Some black_texture\<rparr>"

lemma black_texture_sample: "eval_texture srgb (Some black_texture) uv ldr = Inr (0, 0, 0)"
  by (simp add: eval_texture_def black_texture_def empty_texture_def no_image_def texture_size_def
      image_empty_def Let_def clamp_def cpp_mod_def bind_e_def lookup_texture_def image_at_def
      elem_def)

text \<open>
  Claim C2 fails at line 655: the transmission is multiplied by the sample of the
  material's emission texture, where specular, metallic, roughness and opacity each take
  their own texture. For a material of transmission 1 with no transmission texture and a
  black emission texture the code computes 0; modulated by its own (absent, hence white)
  texture the transmission is 1.
\<close>

theorem transmission_reads_emission_texture:
  "raytrace_material ops glass_material texcoord = Inr (0, 0, 0, 0, 1) \<and>
   bind_e (eval_texture (srgb_to_rgb ops) (transmission_tex glass_material) texcoord True)
     (\<lambda>c. Inr (transmission glass_material * vec3_x c)) = Inr 1"
  by (simp add: raytrace_material_def glass_material_def plain_material_def black_texture_sample
      eval_texture_null bind_e_def)

section \<open>A scene of one triangle\<close>

text \<open>
  The triangle (0,0,0), (1,0,0), (0,1,0) of the specification's scenario, with no vertex
  normals: its flat normal is (0, 0, 1). The tree of the shape and of the scene is one leaf.
\<close>

definition triangle_leaf :: bvh_node where
  "triangle_leaf =
     \<lparr>node_bbox = ((0, 0, 0), (1, 1, 0)), node_start = 0, node_num = 1, node_internal = False,
      node_axis = 0\<rparr>"

definition triangle_tree :: bvh_tree where
  "triangle_tree = \<lparr>tree_nodes = [triangle_leaf], tree_primitives = [0]\<rparr>"

definition triangle_shape :: shape where
  "triangle_shape =
     \<lparr>points = [], lines = [], triangles = [(0, 1, 2)],
      positions = [(0, 0, 0), (1, 0, 0), (0, 1, 0)], normals = [], texcoords = [], radius = [],
      shape_bvh = None\<rparr>"

definition triangle_scene :: "material \<Rightarrow> scene" where
  "triangle_scene m =
     \<lparr>cameras = [],
      objects = [\<lparr>obj_frame = identity_frame, obj_shape = 0, obj_material = m\<rparr>],
      shapes = [triangle_shape], environments = [], scene_bvh = None\<rparr>"

definition built_scene :: "material \<Rightarrow> scene" where
  "built_scene m =
     (triangle_scene m)\<lparr>shapes := [triangle_shape\<lparr>shape_bvh := Some triangle_tree\<rparr>],
                        scene_bvh := Some triangle_tree\<rparr>"

text \<open>A ray toward the back of the triangle, and one toward its front.\<close>

definition back_ray :: ray3f where
  "back_ray = make_ray (1 / 4, 1 / 4, - 1) (0, 0, 1)"

definition front_ray :: ray3f where
  "front_ray = make_ray (1 / 4, 1 / 4, 1) (0, 0, - 1)"

definition example_params :: trace_params where
  "example_params =
     \<lparr>resolution = 1, shader = shader_raytrace, samples = 1, bounces = 2, params_clamp = 100,
      seed = 0, noparallel = True\<rparr>"

definition example_rng :: rng_state where
  "example_rng = \<lparr>rng_st = 0, rng_inc = 1\<rparr>"

lemma one_entry_tree:
  "make_bvh [\<lparr>prim_bbox = ((0, 0, 0), (1, 1, 0)), prim_center = c, prim_primitive = 0\<rparr>] =
   triangle_tree"
  by (simp add: make_bvh_def build_bvh_def build_step_def range_bbox_def bvh_max_prims_def
      subrange_def new_node_def triangle_tree_def triangle_leaf_def merge_def invalidb3f_def
      flt_max_def)

lemma example_ops_fields:
  "srgb_to_rgb example_ops = (\<lambda>c. c)"
  "triangle_bounds example_ops = (\<lambda>p0 p1 p2. (min3 p0 (min3 p1 p2), max3 p0 (max3 p1 p2)))"
  "transform_bbox example_ops = (\<lambda>f b. b)"
  "inverse_frame example_ops = (\<lambda>f non_rigid. f)"
  "intersect_bbox example_ops = (\<lambda>ray ray_dinv b. True)"
  "intersect_triangle example_ops = triangle_test"
  "rand1f example_ops = (\<lambda>rng. (1 / 2, rng\<lparr>rng_st := rng_st rng + 1\<rparr>))"
  by (simp_all add: example_ops_def)

lemma triangle_shape_primitives:
  "shape_primitives example_ops triangle_shape =
     Inr [\<lparr>prim_bbox = ((0, 0, 0), (1, 1, 0)), prim_center = (1 / 2, 1 / 2, 0),
           prim_primitive = 0\<rparr>]"
  by (simp add: shape_primitives_def triangle_shape_def example_ops_fields bind_e_def elem_def
      center_def)

lemma init_bvh_triangle_shape:
  "init_bvh_shape example_ops triangle_shape =
     Inr (triangle_shape\<lparr>shape_bvh := Some triangle_tree\<rparr>)"
  by (simp add: init_bvh_shape_def triangle_shape_primitives bind_e_def one_entry_tree)

lemma triangle_scene_primitives:
  "scene_primitives example_ops [triangle_shape\<lparr>shape_bvh := Some triangle_tree\<rparr>]
     [\<lparr>obj_frame = identity_frame, obj_shape = 0, obj_material = m\<rparr>] =
     Inr [\<lparr>prim_bbox = ((0, 0, 0), (1, 1, 0)), prim_center = (1 / 2, 1 / 2, 0),
           prim_primitive = 0\<rparr>]"
  by (simp add: scene_primitives_def example_ops_fields bind_e_def elem_def elem_n_def
      triangle_tree_def triangle_leaf_def center_def)

lemma init_bvh_triangle_scene: "init_bvh example_ops (triangle_scene m) = Inr (built_scene m)"
  by (simp add: init_bvh_def triangle_scene_def built_scene_def init_bvh_triangle_shape
      triangle_scene_primitives bind_e_def one_entry_tree)

lemma triangle_test_back:
  "triangle_test back_ray (0, 0, 0) (1, 0, 0) (0, 1, 0) = Some ((1 / 4, 1 / 4), 1)"
  by (simp add: triangle_test_def back_ray_def make_ray_def Let_def ray_eps_def flt_max_def)

lemma triangle_test_front:
  "triangle_test front_ray (0, 0, 0) (1, 0, 0) (0, 1, 0) = Some ((1 / 4, 1 / 4), 1)"
  by (simp add: triangle_test_def front_ray_def make_ray_def Let_def ray_eps_def flt_max_def)

lemma triangle_shape_hit:
  assumes "triangle_test ray (0, 0, 0) (1, 0, 0) (0, 1, 0) = Some (uv', distance')"
  shows "intersect_shape_bvh example_ops (triangle_shape\<lparr>shape_bvh := Some triangle_tree\<rparr>) ray
           element uv distance False =
         Some (Inr (True, 0, uv', distance'))"
proof -
  have step: "triangle_step example_ops (triangle_shape\<lparr>shape_bvh := Some triangle_tree\<rparr>)
      triangle_tree 0 (False, ray, element, uv, distance) =
    Inr (True, ray\<lparr>ray_tmax := distance'\<rparr>, 0, uv', distance')"
    by (simp add: triangle_step_def triangle_shape_def triangle_tree_def elem_n_def elem_def
        bind_e_def example_ops_fields assms)
  have node: "shape_node example_ops (triangle_shape\<lparr>shape_bvh := Some triangle_tree\<rparr>)
      triangle_tree ds triangle_leaf [] (False, ray, element, uv, distance) =
    Inr ([], True, ray\<lparr>ray_tmax := distance'\<rparr>, 0, uv', distance')" for ds
    by (simp add: shape_node_def triangle_leaf_def step bind_e_def)
       (simp add: triangle_shape_def)
  have tree: "tree_nodes triangle_tree = [triangle_leaf]"
    by (simp add: triangle_tree_def)
  show ?thesis
    unfolding intersect_shape_bvh_def
    apply (simp add: tree Let_def)
    apply (subst shape_loop.simps)
    apply (simp add: tree elem_n_def elem_def example_ops_fields node shape_loop_done
        shape_walk_result_def)
    done
qed

lemma transform_point_identity: "transform_point identity_frame p = p"
  by (cases p) (simp add: identity_frame_def)

lemma transform_vector_identity: "transform_vector identity_frame p = p"
  by (cases p) (simp add: identity_frame_def)

lemma transform_ray_identity: "transform_ray identity_frame r = r"
  by (simp add: transform_ray_def transform_point_identity transform_vector_identity)

lemma normalize_z: "normalize_v (0, 0, 1) = (0, 0, 1)"
  by (simp add: normalize_v_def length3_def)

lemma built_scene_fields:
  "scene_bvh (built_scene m) = Some triangle_tree"
  "objects (built_scene m) = [\<lparr>obj_frame = identity_frame, obj_shape = 0, obj_material = m\<rparr>]"
  "shapes (built_scene m) = [triangle_shape\<lparr>shape_bvh := Some triangle_tree\<rparr>]"
  "environments (built_scene m) = []"
  by (simp_all add: built_scene_def triangle_scene_def)

lemma triangle_scene_hit:
  assumes "triangle_test ray (0, 0, 0) (1, 0, 0) (0, 1, 0) = Some (uv', distance')"
  shows "intersect_scene_bvh example_ops (built_scene m) ray False True =
         Some (Inr \<lparr>isect_object = 0, isect_element = 0, isect_uv = uv',
                    isect_distance = distance', isect_hit = True\<rparr>)"
proof -
  have step: "object_step example_ops (built_scene m) triangle_tree False True 0
      (False, ray, object, element, uv, distance) =
    Some (Inr (True, ray\<lparr>ray_tmax := distance'\<rparr>, 0, 0, uv', distance'))"
    for object element uv distance
    by (simp add: object_step_def built_scene_fields triangle_tree_def [of] elem_n_def elem_def
        bind_r_def example_ops_fields transform_ray_identity
        triangle_shape_hit [OF assms, unfolded triangle_tree_def])
  have node: "scene_node example_ops (built_scene m) triangle_tree ds False True triangle_leaf []
      (False, ray, object, element, uv, distance) =
    Some (Inr ([], True, ray\<lparr>ray_tmax := distance'\<rparr>, 0, 0, uv', distance'))"
    for ds object element uv distance
    by (simp add: scene_node_def triangle_leaf_def step bind_r_def)
  have tree: "tree_nodes triangle_tree = [triangle_leaf]"
    by (simp add: triangle_tree_def)
  have "intersect_scene_bvh_refs example_ops (built_scene m) ray (- 1) (- 1) (0, 0) 0 False True =
      Some (Inr (True, 0, 0, uv', distance'))"
    unfolding intersect_scene_bvh_refs_def
    apply (simp add: built_scene_fields tree Let_def)
    apply (subst scene_loop.simps)
    apply (simp add: tree elem_n_def elem_def example_ops_fields node scene_loop_done
        scene_walk_result_def)
    done
  then show ?thesis
    by (simp add: intersect_scene_bvh_def bind_r_def)
qed

lemma triangle_flat_normal:
  "eval_normal (triangle_shape\<lparr>shape_bvh := b\<rparr>) 0 uv = Inr (0, 0, 1)"
  by (simp add: eval_normal_def eval_element_normal_def triangle_shape_def elem_def bind_e_def
      triangle_normal_def normalize_z)

text \<open>
  Claim C9 fails on a hit from behind: \<^verbatim>\<open>trace_eyelight\<close> scales the color by
  \<^verbatim>\<open>dot(normal, -ray.d)\<close>, line 751, with no absolute value. For the ray that meets the
  triangle's back the normal is (0, 0, 1), the cosine is - 1 and the white material comes
  out as (- 1, - 1, - 1). (The miss is black and there is one scene query, as the claim
  says.)
\<close>

theorem eyelight_negative_color:
  "trace_eyelight example_ops (built_scene plain_material) back_ray 0 example_rng example_params =
     Some (Inr ((- 1, - 1, - 1, 1), example_rng))"
proof -
  have d: "ray_d back_ray = (0, 0, 1)" by (simp add: back_ray_def make_ray_def)
  have c: "color plain_material = (1, 1, 1)" by (simp add: plain_material_def)
  show ?thesis
    by (simp add: trace_eyelight_def triangle_scene_hit [OF triangle_test_back] bind_r_def
        built_scene_fields elem_def elem_n_def triangle_flat_normal transform_direction_def
        transform_vector_identity normalize_z d c)
qed

section \<open>Rendering twice\<close>

text \<open>
  A full render: \<^verbatim>\<open>init_state\<close>, then \<^verbatim>\<open>trace_samples\<close> n times.
\<close>

fun trace_samples_n ::
  "ops \<Rightarrow> nat list \<Rightarrow> nat \<Rightarrow> state \<Rightarrow> scene \<Rightarrow> camera \<Rightarrow> trace_params \<Rightarrow> state result" where
  "trace_samples_n ops schedule 0 state scene camera params = Some (Inr state)"
| "trace_samples_n ops schedule (Suc n) state scene camera params =
     bind_r (trace_samples ops schedule state scene camera params)
       (\<lambda>state'. trace_samples_n ops schedule n state' scene camera params)"

definition render ::
  "ops \<Rightarrow> nat list \<Rightarrow> nat \<Rightarrow> state \<Rightarrow> scene \<Rightarrow> camera \<Rightarrow> trace_params \<Rightarrow> state result" where
  "render ops schedule n state scene camera params =
     trace_samples_n ops schedule n (init_state ops state scene camera params) scene camera params"

text \<open>
  What a render starts from, said without \<^verbatim>\<open>init_state\<close>: the size of the image that the
  film and the resolution give (lines 819 to 825), the numbers the master generator gives,
  one per pixel, and the pixel made from one of these numbers.
\<close>

definition image_size :: "camera \<Rightarrow> trace_params \<Rightarrow> vec2i" where
  "image_size camera params =
     (if fst (film camera) > snd (film camera)
      then (resolution params,
            round_c (real_of_int (resolution params) * snd (film camera) / fst (film camera)))
      else (round_c (real_of_int (resolution params) * fst (film camera) / snd (film camera)),
            resolution params))"

definition pixel_count :: "camera \<Rightarrow> trace_params \<Rightarrow> nat" where
  "pixel_count camera params =
     nat (fst (image_size camera params)) * nat (snd (image_size camera params))"

fun master_draws :: "ops \<Rightarrow> nat \<Rightarrow> rng_state \<Rightarrow> int list" where
  "master_draws ops 0 rng = []"
| "master_draws ops (Suc k) rng =
     (case rand1i ops rng (- (2 ^ 31)) of (r, rng') \<Rightarrow> r # master_draws ops k rng')"

definition seeded_pixel :: "ops \<Rightarrow> trace_params \<Rightarrow> int \<Rightarrow> pixel" where
  "seeded_pixel ops params r =
     \<lparr>pix_rng = make_rng ops (seed params) (cpp_div r 2 + 1), accumulated = zero4f,
      pix_samples = 0\<rparr>"

text \<open>A camera that looks down at the triangle, one pixel wide, and the flat-color shader.\<close>

definition example_camera :: camera where
  "example_camera =
     \<lparr>cam_frame = ((1, 0, 0), (0, 1, 0), (0, 0, 1), (1 / 4, 1 / 4, 1)), lens = 1, film = (1, 1),
      aperture = 0, focus = 1\<rparr>"

definition color_params :: trace_params where
  "color_params = example_params\<lparr>shader := shader_color\<rparr>"

definition blank_state :: state where
  "blank_state = \<lparr>st_pixels = no_image, st_render = no_image\<rparr>"

definition rendered_state :: state where
  "rendered_state =
     \<lparr>st_pixels = \<lparr>extent = (1, 1),
                   pixels = [\<lparr>pix_rng = \<lparr>rng_st = 2, rng_inc = 1\<rparr>, accumulated = (1, 1, 1, 1),
                              pix_samples = 1\<rparr>]\<rparr>,
      st_render = \<lparr>extent = (1, 1), pixels = [(1, 1, 1, 1)]\<rparr>\<rparr>"

text \<open>A state whose two arrays have the size \<open>sz\<close> and one entry per place.\<close>

definition sized :: "vec2i \<Rightarrow> state \<Rightarrow> bool" where
  "sized sz st =
     (extent (st_pixels st) = sz \<and> extent (st_render st) = sz \<and>
      length (pixels (st_pixels st)) = nat (fst sz) * nat (snd sz) \<and>
      length (pixels (st_render st)) = nat (fst sz) * nat (snd sz))"

text \<open>
  What one sample does to the place \<open>k\<close> of the two arrays: the pixel has one sample more and
  the render buffer holds its sum divided by its count; or nothing has changed there.
\<close>

definition sampled :: "state \<Rightarrow> state \<Rightarrow> nat \<Rightarrow> bool" where
  "sampled st st' k =
     (pix_samples (pixels (st_pixels st') ! k) = pix_samples (pixels (st_pixels st) ! k) + 1 \<and>
      pixels (st_render st') ! k =
        div4 (accumulated (pixels (st_pixels st') ! k))
          (real_of_int (pix_samples (pixels (st_pixels st') ! k))))"

definition untouched :: "state \<Rightarrow> state \<Rightarrow> nat \<Rightarrow> bool" where
  "untouched st st' k =
     (pixels (st_pixels st') ! k = pixels (st_pixels st) ! k \<and>
      pixels (st_render st') ! k = pixels (st_render st) ! k)"

lemma length_master_draws: "length (master_draws ops k rng) = k"
  by (induction k arbitrary: rng) (auto split: prod.splits)

lemma seed_pixels_replicate:
  "seed_pixels ops params (replicate k new_pixel) rng =
   map (seeded_pixel ops params) (master_draws ops k rng)"
  by (induction k arbitrary: rng) (auto simp: seeded_pixel_def new_pixel_def split: prod.splits)

lemma init_state_seeded:
  "init_state ops state scene camera params =
     \<lparr>st_pixels =
        \<lparr>extent = image_size camera params,
         pixels = map (seeded_pixel ops params)
                    (master_draws ops (pixel_count camera params) (make_rng ops 1301081 1))\<rparr>,
      st_render = image_assign (image_size camera params) zero4f\<rparr>"
  by (simp add: init_state_def image_size_def pixel_count_def image_assign_def
      seed_pixels_replicate Let_def)

lemma trace_samples_sequential:
  "noparallel params \<Longrightarrow>
   trace_samples ops schedule state scene camera params =
   trace_samples ops schedule' state scene camera params"
  by (simp add: trace_samples_def)

lemma trace_samples_n_sequential:
  "noparallel params \<Longrightarrow>
   trace_samples_n ops schedule n state scene camera params =
   trace_samples_n ops schedule' n state scene camera params"
proof (induction n arbitrary: state)
  case 0
  show ?case by simp
next
  case (Suc n)
  show ?case
    using Suc.IH [OF Suc.prems] trace_samples_sequential [OF Suc.prems, of ops schedule _ scene
        camera schedule']
    by simp
qed

lemma render_sequential:
  "noparallel params \<Longrightarrow>
   render ops schedule n state scene camera params =
   render ops schedule' n state' scene camera params"
  unfolding render_def init_state_seeded by (rule trace_samples_n_sequential)

lemma example_camera_ray: "eval_camera example_camera (1 / 2, 1 / 2) = front_ray"
proof -
  have n: "normalize_v (0, 0, - 1) = (0, 0, - 1)"
    by (simp add: normalize_v_def length3_def)
  show ?thesis
    by (simp add: eval_camera_def example_camera_def zero3f_def normalize_z n
        transform_direction_def front_ray_def Let_def)
qed

lemma front_ray_color:
  "trace_color example_ops (built_scene plain_material) front_ray bounce rng params =
     Some (Inr ((1, 1, 1, 1), rng))"
  by (simp add: trace_color_def triangle_scene_hit [OF triangle_test_front] bind_r_def
      built_scene_fields elem_def plain_material_def)

lemma example_render:
  "render example_ops schedule 1 state (built_scene plain_material) example_camera color_params =
     Some (Inr rendered_state)"
proof -
  have sz: "image_size example_camera color_params = (1, 1)"
    by (simp add: image_size_def example_camera_def color_params_def example_params_def
        round_c_def)
  have start: "init_state example_ops state (built_scene plain_material) example_camera
      color_params =
    \<lparr>st_pixels = \<lparr>extent = (1, 1), pixels = [\<lparr>pix_rng = example_rng, accumulated = zero4f,
                                               pix_samples = 0\<rparr>]\<rparr>,
     st_render = \<lparr>extent = (1, 1), pixels = [zero4f]\<rparr>\<rparr>"
  proof -
    have cnt: "pixel_count example_camera color_params = 1"
      by (simp add: pixel_count_def sz)
    have draws: "master_draws example_ops (pixel_count example_camera color_params) rng = [0]"
      for rng
      by (simp add: cnt example_ops_def)
    have px0: "seeded_pixel example_ops color_params 0 =
        \<lparr>pix_rng = example_rng, accumulated = zero4f, pix_samples = 0\<rparr>"
      by (simp add: seeded_pixel_def example_ops_def cpp_div_def color_params_def
          example_params_def example_rng_def)
    show ?thesis
      by (simp add: init_state_seeded sz draws px0 image_assign_def)
  qed
  have r2: "rand2f example_ops = (\<lambda>rng. ((1 / 2, 1 / 2), rng\<lparr>rng_st := rng_st rng + 2\<rparr>))"
    by (simp add: example_ops_def)
  have sh: "get_trace_shader_func example_ops color_params = trace_color example_ops"
    "noparallel color_params" "params_clamp color_params = 100"
    by (simp_all add: get_trace_shader_func_def color_params_def example_params_def)
  have px: "trace_pixel example_ops (trace_color example_ops) (built_scene plain_material)
      example_camera color_params (0, 0)
      \<lparr>st_pixels = \<lparr>extent = (1, 1), pixels = [\<lparr>pix_rng = example_rng, accumulated = zero4f,
                                                pix_samples = 0\<rparr>]\<rparr>,
       st_render = \<lparr>extent = (1, 1), pixels = [zero4f]\<rparr>\<rparr> = Some (Inr rendered_state)"
    by (simp add: trace_pixel_def image_at_def elem_def bind_r_def r2 example_camera_ray
        front_ray_color sh(3) image_set_def zero4f_def example_rng_def rendered_state_def
        Let_def)
  show ?thesis
    by (simp add: render_def start trace_samples_def sh trace_row_def px bind_r_def)
qed

lemma for_r_append:
  "for_r (xs @ ys) body s = bind_r (for_r xs body s) (for_r ys body)"
  by (induction xs arbitrary: s) (auto simp: bind_r_def split: option.splits sum.splits)

lemma for_r_upt:
  assumes "for_r [0 ..< n] body s = Some (Inr s')"
    and "I 0 s"
    and "\<And>c t t'. c < n \<Longrightarrow> I c t \<Longrightarrow> body c t = Some (Inr t') \<Longrightarrow> I (Suc c) t'"
  shows "I n s'"
  using assms
proof (induction n arbitrary: s')
  case 0
  then show ?case by simp
next
  case (Suc n)
  from Suc.prems(1) obtain t where t: "for_r [0 ..< n] body s = Some (Inr t)"
    and b: "body n t = Some (Inr s')"
    by (auto simp: for_r_append bind_r_def split: option.splits sum.splits)
  have "I n t"
    using Suc.IH [OF t Suc.prems(2)] Suc.prems(3) by simp
  then show ?case
    using Suc.prems(3) [of n t s'] b by simp
qed

lemma place_index:
  assumes "i < nat w"
  shows "int j * w + int i = int (j * nat w + i)"
proof -
  have "0 \<le> w" using assms by linarith
  then show ?thesis by simp
qed

lemma place_in_range:
  fixes i j W H :: nat
  assumes "i < W" "j < H"
  shows "j * W + i < W * H"
proof -
  have "j * W + i < j * W + W" using assms(1) by simp
  also have "\<dots> = (Suc j) * W" by simp
  also have "\<dots> \<le> H * W" using assms(2) by (intro mult_le_mono1) simp
  finally show ?thesis by (simp add: mult.commute)
qed

lemma trace_pixel_effect:
  assumes sz: "sized (w, h) st" and i: "i < nat w" and j: "j < nat h"
    and run: "trace_pixel ops sh scene camera params (int i, int j) st = Some (Inr st')"
  shows "sized (w, h) st' \<and> sampled st st' (j * nat w + i) \<and>
         (\<forall>k'. k' \<noteq> j * nat w + i \<longrightarrow> untouched st st' k')"
proof -
  define k where "k = j * nat w + i"
  have k: "k < nat w * nat h" unfolding k_def by (rule place_in_range [OF i j])
  have idx: "int j * w + int i = int k" unfolding k_def by (rule place_index [OF i])
  have len: "length (pixels (st_pixels st)) = nat w * nat h"
    "length (pixels (st_render st)) = nat w * nat h"
    "extent (st_pixels st) = (w, h)" "extent (st_render st) = (w, h)"
    using sz by (simp_all add: sized_def)
  have kp: "int k < int (length (pixels (st_pixels st)))"
    "int k < int (length (pixels (st_render st)))"
    using k by (simp_all only: len(1,2) of_nat_less_iff)
  have at: "image_at (st_pixels st) (int i, int j) = Inr (pixels (st_pixels st) ! k)"
    using kp(1) by (simp add: image_at_def elem_def idx len(3))
  obtain puv g where r: "rand2f ops (pix_rng (pixels (st_pixels st) ! k)) = (puv, g)"
    by (cases "rand2f ops (pix_rng (pixels (st_pixels st) ! k))") auto
  define ray' where "ray' = eval_camera camera
      ((real i + fst puv) / real_of_int w, (real j + snd puv) / real_of_int h)"
  have unfold: "trace_pixel ops sh scene camera params (int i, int j) st =
      bind_r (sh scene ray' 0 g params) (\<lambda>(color', rng).
        let color' = (if max4 color' > params_clamp params
                      then scale4 color' (params_clamp params / max4 color') else color');
            p = (pixels (st_pixels st) ! k)\<lparr>pix_rng := rng,
                  accumulated := add4 (accumulated (pixels (st_pixels st) ! k)) color',
                  pix_samples := pix_samples (pixels (st_pixels st) ! k) + 1\<rparr>
        in Some (Inr (st\<lparr>st_pixels := (st_pixels st)\<lparr>pixels := (pixels (st_pixels st))[k := p]\<rparr>,
                         st_render := (st_render st)\<lparr>pixels := (pixels (st_render st))
                           [k := div4 (accumulated p) (real_of_int (pix_samples p))]\<rparr>\<rparr>)))"
    using kp
    by (simp add: trace_pixel_def at r bind_r_def image_set_def idx len(3,4) ray'_def Let_def
        cong: option.case_cong sum.case_cong prod.case_cong)
  obtain col g' where shaded: "sh scene ray' 0 g params = Some (Inr (col, g'))"
  proof (cases "sh scene ray' 0 g params")
    case None
    then show ?thesis using run by (simp add: unfold bind_r_def)
  next
    case (Some res)
    show ?thesis
    proof (cases res)
      case (Inl e)
      then show ?thesis using run Some by (simp add: unfold bind_r_def)
    next
      case (Inr cr)
      then show ?thesis using that [of "fst cr" "snd cr"] Some by simp
    qed
  qed
  define col' where "col' = (if max4 col > params_clamp params
                      then scale4 col (params_clamp params / max4 col) else col)"
  define p where "p = (pixels (st_pixels st) ! k)\<lparr>pix_rng := g',
                  accumulated := add4 (accumulated (pixels (st_pixels st) ! k)) col',
                  pix_samples := pix_samples (pixels (st_pixels st) ! k) + 1\<rparr>"
  define c where "c = div4 (accumulated p) (real_of_int (pix_samples p))"
  have st': "st' = st\<lparr>st_pixels := (st_pixels st)\<lparr>pixels := (pixels (st_pixels st))[k := p]\<rparr>,
                       st_render := (st_render st)\<lparr>pixels := (pixels (st_render st))[k := c]\<rparr>\<rparr>"
    using run unfolding unfold shaded by (simp add: bind_r_def Let_def col'_def p_def c_def)
  have p: "pix_samples p = pix_samples (pixels (st_pixels st) ! k) + 1"
    by (simp add: p_def)
  have "sized (w, h) st'"
    using sz by (simp add: st' sized_def)
  moreover have "sampled st st' k"
    using k len by (simp add: st' sampled_def p c_def)
  moreover have "untouched st st' k'" if "k' \<noteq> k" for k'
    using that by (simp add: st' untouched_def)
  ultimately show ?thesis by (simp add: k_def)
qed

lemma sampled_untouched: "sampled s t k \<Longrightarrow> untouched t t' k \<Longrightarrow> sampled s t' k"
  by (simp add: sampled_def untouched_def)

lemma untouched_sampled: "untouched s t k \<Longrightarrow> sampled t t' k \<Longrightarrow> sampled s t' k"
  by (simp add: sampled_def untouched_def)

lemma untouched_trans: "untouched s t k \<Longrightarrow> untouched t t' k \<Longrightarrow> untouched s t' k"
  by (simp add: untouched_def)

lemma untouched_refl: "untouched s s k"
  by (simp add: untouched_def)

lemma trace_row_effect:
  assumes sz: "sized (w, h) st" and j: "j < nat h"
    and run: "trace_row ops sh scene camera params j st = Some (Inr st')"
  shows "sized (w, h) st' \<and>
         (\<forall>k. if j * nat w \<le> k \<and> k < j * nat w + nat w then sampled st st' k
              else untouched st st' k)"
proof -
  define I where "I = (\<lambda>c t. sized (w, h) t \<and>
      (\<forall>k. if j * nat w \<le> k \<and> k < j * nat w + c then sampled st t k else untouched st t k))"
  have cols: "for_r [0 ..< nat w]
      (\<lambda>i. trace_pixel ops sh scene camera params (int i, int j)) st = Some (Inr st')"
    using run sz by (simp add: trace_row_def sized_def)
  have "I (nat w) st'"
  proof (rule for_r_upt [OF cols])
    show "I 0 st" using untouched_refl [of st] by (auto simp: I_def sz)
  next
    fix c t t'
    assume c: "c < nat w" and inv: "I c t"
      and step: "trace_pixel ops sh scene camera params (int c, int j) t = Some (Inr t')"
    have szt: "sized (w, h) t"
      and old: "\<And>k. if j * nat w \<le> k \<and> k < j * nat w + c then sampled st t k
                     else untouched st t k"
      using inv by (simp_all add: I_def)
    have eff: "sized (w, h) t'" "sampled t t' (j * nat w + c)"
      "\<And>k'. k' \<noteq> j * nat w + c \<Longrightarrow> untouched t t' k'"
      using trace_pixel_effect [OF szt c j step] by simp_all
    have "if j * nat w \<le> k \<and> k < j * nat w + Suc c then sampled st t' k
          else untouched st t' k" for k
    proof (cases "k = j * nat w + c")
      case True
      have "untouched st t k" using old [of k] True by simp
      then show ?thesis using True eff(2) by (simp add: untouched_sampled)
    next
      case False
      have u: "untouched t t' k" by (rule eff(3) [OF False])
      have same: "(j * nat w \<le> k \<and> k < j * nat w + Suc c) = (j * nat w \<le> k \<and> k < j * nat w + c)"
        using False by auto
      show ?thesis
        unfolding same using old [of k] u
        by (auto intro: sampled_untouched untouched_trans)
    qed
    then show "I (Suc c) t'" using eff(1) by (simp add: I_def)
  qed
  then show ?thesis by (simp add: I_def)
qed

lemma trace_samples_effect:
  assumes sz: "sized (w, h) st" and seq: "noparallel params"
    and run: "trace_samples ops schedule st scene camera params = Some (Inr st')"
  shows "sized (w, h) st' \<and> (\<forall>k < nat w * nat h. sampled st st' k)"
proof -
  define sh where "sh = get_trace_shader_func ops params"
  define J where "J = (\<lambda>r t. sized (w, h) t \<and>
      (\<forall>k. if k < r * nat w then sampled st t k else untouched st t k))"
  have rows: "for_r [0 ..< nat h] (trace_row ops sh scene camera params) st = Some (Inr st')"
    using run sz seq by (simp add: trace_samples_def sized_def sh_def)
  have "J (nat h) st'"
  proof (rule for_r_upt [OF rows])
    show "J 0 st" using untouched_refl [of st] by (auto simp: J_def sz)
  next
    fix r t t'
    assume r: "r < nat h" and inv: "J r t"
      and step: "trace_row ops sh scene camera params r t = Some (Inr t')"
    have szt: "sized (w, h) t"
      and old: "\<And>k. if k < r * nat w then sampled st t k else untouched st t k"
      using inv by (simp_all add: J_def)
    have eff: "sized (w, h) t'"
      "\<And>k. if r * nat w \<le> k \<and> k < r * nat w + nat w then sampled t t' k
            else untouched t t' k"
      using trace_row_effect [OF szt r step] by simp_all
    have "if k < Suc r * nat w then sampled st t' k else untouched st t' k" for k
    proof (cases "k < r * nat w")
      case True
      then show ?thesis
        using old [of k] eff(2) [of k] by (auto intro: sampled_untouched)
    next
      case False
      show ?thesis
      proof (cases "k < r * nat w + nat w")
        case True
        then show ?thesis
          using False old [of k] eff(2) [of k] by (auto intro: untouched_sampled)
      next
        case far: False
        then show ?thesis
          using False old [of k] eff(2) [of k] by (auto intro: untouched_trans)
      qed
    qed
    then show "J (Suc r) t'" using eff(1) by (simp add: J_def)
  qed
  then show ?thesis by (simp add: J_def mult.commute)
qed

lemma trace_samples_n_effect:
  assumes "sized (w, h) st" and seq: "noparallel params"
    and "trace_samples_n ops schedule n st scene camera params = Some (Inr st')"
  shows "sized (w, h) st' \<and>
         (\<forall>k < nat w * nat h.
            pix_samples (pixels (st_pixels st') ! k) =
              pix_samples (pixels (st_pixels st) ! k) + int n \<and>
            (0 < n \<longrightarrow> pixels (st_render st') ! k =
               div4 (accumulated (pixels (st_pixels st') ! k))
                 (real_of_int (pix_samples (pixels (st_pixels st') ! k)))))"
  using assms(1,3)
proof (induction n arbitrary: st)
  case 0
  then show ?case by simp
next
  case (Suc n)
  from Suc.prems(2) obtain t where t: "trace_samples ops schedule st scene camera params = Some (Inr t)"
    and rest: "trace_samples_n ops schedule n t scene camera params = Some (Inr st')"
    by (auto simp: bind_r_def split: option.splits sum.splits)
  have one: "sized (w, h) t" "\<And>k. k < nat w * nat h \<Longrightarrow> sampled st t k"
    using trace_samples_effect [OF Suc.prems(1) seq t] by simp_all
  have more: "sized (w, h) st'"
    "\<And>k. k < nat w * nat h \<Longrightarrow>
       pix_samples (pixels (st_pixels st') ! k) = pix_samples (pixels (st_pixels t) ! k) + int n"
    "\<And>k. k < nat w * nat h \<Longrightarrow> 0 < n \<Longrightarrow>
       pixels (st_render st') ! k =
         div4 (accumulated (pixels (st_pixels st') ! k))
           (real_of_int (pix_samples (pixels (st_pixels st') ! k)))"
    using Suc.IH [OF one(1) rest] by simp_all
  have last: "st' = t" if "n = 0"
    using rest that by simp
  have "pix_samples (pixels (st_pixels st') ! k) =
          pix_samples (pixels (st_pixels st) ! k) + int (Suc n) \<and>
        pixels (st_render st') ! k =
          div4 (accumulated (pixels (st_pixels st') ! k))
            (real_of_int (pix_samples (pixels (st_pixels st') ! k)))"
    if k: "k < nat w * nat h" for k
  proof (cases "n = 0")
    case True
    then show ?thesis using one(2) [OF k] last by (simp add: sampled_def)
  next
    case False
    then show ?thesis using one(2) [OF k] more(2,3) [OF k] by (simp add: sampled_def)
  qed
  then show ?case using more(1) by simp
qed

lemma init_state_sized:
  "sized (image_size camera params) (init_state ops state scene camera params)"
  by (simp add: sized_def init_state_seeded image_assign_def pixel_count_def
      length_master_draws)

lemma render_samples:
  assumes seq: "noparallel params"
    and run: "render ops schedule n state scene camera params = Some (Inr final)"
  shows "sized (image_size camera params) final"
    "map pix_samples (pixels (st_pixels final)) = replicate (pixel_count camera params) (int n)"
    "0 < n \<Longrightarrow> pixels (st_render final) =
       map (\<lambda>p. div4 (accumulated p) (real_of_int (pix_samples p))) (pixels (st_pixels final))"
proof -
  obtain w h where wh: "image_size camera params = (w, h)"
    by (cases "image_size camera params")
  define start where "start = init_state ops state scene camera params"
  have s0: "sized (w, h) start"
    using init_state_sized [of camera params ops state scene] by (simp add: wh start_def)
  have cnt: "pixel_count camera params = nat w * nat h"
    by (simp add: pixel_count_def wh)
  have zero: "pix_samples (pixels (st_pixels start) ! k) = 0" if "k < nat w * nat h" for k
    using that
    by (simp add: start_def init_state_seeded cnt length_master_draws seeded_pixel_def)
  have eff: "sized (w, h) final"
    "\<And>k. k < nat w * nat h \<Longrightarrow>
       pix_samples (pixels (st_pixels final) ! k) =
         pix_samples (pixels (st_pixels start) ! k) + int n"
    "\<And>k. k < nat w * nat h \<Longrightarrow> 0 < n \<Longrightarrow>
       pixels (st_render final) ! k =
         div4 (accumulated (pixels (st_pixels final) ! k))
           (real_of_int (pix_samples (pixels (st_pixels final) ! k)))"
    using trace_samples_n_effect [OF s0 seq run [unfolded render_def start_def [symmetric]]]
    by simp_all
  have len: "length (pixels (st_pixels final)) = nat w * nat h"
    "length (pixels (st_render final)) = nat w * nat h"
    using eff(1) by (simp_all add: sized_def)
  show "sized (image_size camera params) final"
    using eff(1) by (simp add: wh)
  show "map pix_samples (pixels (st_pixels final)) = replicate (pixel_count camera params) (int n)"
    using eff(2) zero by (simp add: list_eq_iff_nth_eq len cnt)
  show "pixels (st_render final) =
       map (\<lambda>p. div4 (accumulated p) (real_of_int (pix_samples p))) (pixels (st_pixels final))"
    if "0 < n"
    using eff(3) that by (simp add: list_eq_iff_nth_eq len)
qed

text \<open>
  Claim C6. With \<^verbatim>\<open>noparallel\<close> set, a full render gives the same result whatever state it
  starts from and whatever order the worker threads of the other branch would take, so a
  second render, started from the state the first one left, gives the pixels and the
  render buffer of the first (and fails where the first failed). A sequential render that
  comes back has sampled every pixel of the image once per call of \<^verbatim>\<open>trace_samples\<close>, and
  its render buffer holds each pixel's sum divided by its count. \<^verbatim>\<open>init_state\<close> sets both
  arrays to the size the film and the resolution give, clears the render buffer, and makes
  one pixel per place of the image, the k-th with nothing accumulated and its generator
  seeded from \<^verbatim>\<open>params.seed\<close> and the k-th number of the master generator, which always
  starts from 1301081. Floats are exact reals here, so equal means equal values.
\<close>

theorem render_twice:
  "(noparallel params \<longrightarrow>
      render ops schedule n state scene camera params =
        render ops schedule' n state' scene camera params \<and>
      bind_r (render ops schedule n state scene camera params)
          (\<lambda>state1. render ops schedule' n state1 scene camera params) =
        render ops schedule n state scene camera params) \<and>
   (noparallel params \<and>
    render ops schedule n state scene camera params = Some (Inr final) \<longrightarrow>
      extent (st_pixels final) = image_size camera params \<and>
      extent (st_render final) = image_size camera params \<and>
      map pix_samples (pixels (st_pixels final)) =
        replicate (pixel_count camera params) (int n) \<and>
      (0 < n \<longrightarrow>
         pixels (st_render final) =
           map (\<lambda>p. div4 (accumulated p) (real_of_int (pix_samples p)))
             (pixels (st_pixels final)))) \<and>
   extent (st_pixels (init_state ops state scene camera params)) = image_size camera params \<and>
   st_render (init_state ops state scene camera params) =
     \<lparr>extent = image_size camera params,
      pixels = replicate (pixel_count camera params) zero4f\<rparr> \<and>
   pixels (st_pixels (init_state ops state scene camera params)) =
     map (seeded_pixel ops params)
       (master_draws ops (pixel_count camera params) (make_rng ops 1301081 1)) \<and>
   length (pixels (st_pixels (init_state ops state scene camera params))) =
     pixel_count camera params"
proof -
  have again: "bind_r (render ops schedule n state scene camera params)
          (\<lambda>state1. render ops schedule' n state1 scene camera params) =
        render ops schedule n state scene camera params" if seq: "noparallel params"
  proof (cases "render ops schedule n state scene camera params")
    case None
    then show ?thesis by (simp add: bind_r_def)
  next
    case (Some res)
    show ?thesis
    proof (cases res)
      case (Inl e)
      then show ?thesis using Some by (simp add: bind_r_def)
    next
      case (Inr state1)
      have "render ops schedule' n state1 scene camera params =
            render ops schedule n state scene camera params"
        by (rule render_sequential [OF seq])
      then show ?thesis using Some Inr by (simp add: bind_r_def)
    qed
  qed
  have same: "noparallel params \<longrightarrow>
      render ops schedule n state scene camera params =
        render ops schedule' n state' scene camera params"
    using render_sequential [of params ops schedule n state scene camera schedule' state']
    by simp
  have counts: "extent (st_pixels final) = image_size camera params \<and>
      extent (st_render final) = image_size camera params \<and>
      map pix_samples (pixels (st_pixels final)) =
        replicate (pixel_count camera params) (int n) \<and>
      (0 < n \<longrightarrow>
         pixels (st_render final) =
           map (\<lambda>p. div4 (accumulated p) (real_of_int (pix_samples p)))
             (pixels (st_pixels final)))"
    if "noparallel params" "render ops schedule n state scene camera params = Some (Inr final)"
    using render_samples [OF that] by (simp add: sized_def)
  have seeded: "extent (st_pixels (init_state ops state scene camera params)) =
      image_size camera params \<and>
    st_render (init_state ops state scene camera params) =
     \<lparr>extent = image_size camera params,
      pixels = replicate (pixel_count camera params) zero4f\<rparr> \<and>
    pixels (st_pixels (init_state ops state scene camera params)) =
     map (seeded_pixel ops params)
       (master_draws ops (pixel_count camera params) (make_rng ops 1301081 1)) \<and>
    length (pixels (st_pixels (init_state ops state scene camera params))) =
     pixel_count camera params"
    by (simp add: init_state_seeded image_assign_def pixel_count_def length_master_draws)
  show ?thesis
    using same again counts seeded by blast
qed

theorem render_twice_witness:
  "noparallel color_params \<and>
   render example_ops [] 1 blank_state (built_scene plain_material) example_camera color_params =
     Some (Inr rendered_state) \<and>
   render example_ops [3, 1] 1 rendered_state (built_scene plain_material) example_camera
       color_params =
     Some (Inr rendered_state) \<and>
   pixel_count example_camera color_params = 1 \<and>
   map pix_samples (pixels (st_pixels rendered_state)) = [1]"
proof -
  have seq: "noparallel color_params"
    by (simp add: color_params_def example_params_def)
  have cnt: "pixel_count example_camera color_params = 1"
    by (simp add: pixel_count_def image_size_def example_camera_def color_params_def
        example_params_def round_c_def)
  show ?thesis
    using render_twice [where params = color_params and ops = example_ops and schedule = "[]"
        and n = 1 and state = blank_state and scene = "built_scene plain_material"
        and camera = example_camera and schedule' = "[3, 1]" and state' = rendered_state
        and final = rendered_state]
      seq cnt example_render [of "[]" blank_state]
    by simp
qed

section \<open>The bounce counter of the recursive calls\<close>

text \<open>
  A material that lets every ray through, and a stand-in for the recursive call that
  answers with the bounce it is given.
\<close>

definition see_through_material :: material where
  "see_through_material = plain_material\<lparr>opacity := 0\<rparr>"

definition bounce_probe :: shader_func where
  "bounce_probe scene ray bounce rng params = Some (Inr ((real_of_int bounce, 0, 0, 1), rng))"

definition front_hit :: intersection3f where
  "front_hit =
     \<lparr>isect_object = 0, isect_element = 0, isect_uv = (1 / 4, 1 / 4), isect_distance = 1,
      isect_hit = True\<rparr>"

definition front_surface :: "material \<Rightarrow> surface" where
  "front_surface m =
     \<lparr>surf_object = \<lparr>obj_frame = identity_frame, obj_shape = 0, obj_material = m\<rparr>,
      surf_shape = triangle_shape\<lparr>shape_bvh := Some triangle_tree\<rparr>,
      surf_position = (1 / 4, 1 / 4, 0), surf_normal = (0, 0, 1), surf_outgoing = (0, 0, 1),
      surf_texcoord = (1 / 4, 1 / 4), surf_base_color = color m\<rparr>"

definition continued_ray :: ray3f where
  "continued_ray = make_ray (1 / 4, 1 / 4, - 1 / 100) (0, 0, - 1)"

lemma front_ray_hit:
  "intersect_scene_bvh example_ops (built_scene m) front_ray False True = Some (Inr front_hit)"
  by (simp add: triangle_scene_hit [OF triangle_test_front] front_hit_def)

lemma front_ray_surface:
  assumes "color_tex m = None"
  shows "raytrace_surface example_ops (built_scene m) front_ray front_hit = Inr (front_surface m)"
proof -
  have d: "ray_d front_ray = (0, 0, - 1)" by (simp add: front_ray_def make_ray_def)
  have pos: "eval_position (triangle_shape\<lparr>shape_bvh := Some triangle_tree\<rparr>) 0 (1 / 4, 1 / 4) =
      Inr (1 / 4, 1 / 4, 0)"
    by (simp add: eval_position_def triangle_shape_def elem_def bind_e_def
        interpolate_triangle_def)
  have tc: "eval_texcoord (triangle_shape\<lparr>shape_bvh := Some triangle_tree\<rparr>) 0 uv = Inr uv" for uv
    by (simp add: eval_texcoord_def triangle_shape_def)
  have nrm: "correct_normal (triangle_shape\<lparr>shape_bvh := Some triangle_tree\<rparr>) (0, 0, 1) (0, 0, 1) =
      (0, 0, 1)"
    by (simp add: correct_normal_def triangle_shape_def)
  obtain cx cy cz where c: "color m = (cx, cy, cz)" by (cases "color m")
  show ?thesis
    by (simp add: raytrace_surface_def front_hit_def built_scene_fields elem_def elem_n_def
        bind_e_def pos tc triangle_flat_normal transform_point_identity transform_direction_def
        transform_vector_identity normalize_z d nrm assms eval_texture_null front_surface_def c
        Let_def)
qed

lemma see_through_scalars:
  "raytrace_material ops see_through_material texcoord = Inr (0, 0, 0, 0, 0)"
  by (simp add: raytrace_material_def see_through_material_def plain_material_def
      eval_texture_null bind_e_def)

lemma see_through_test:
  "opacity_test example_ops 0 example_rng = (True, example_rng\<lparr>rng_st := 1\<rparr>)"
  by (simp add: opacity_test_def example_ops_fields example_rng_def)

lemma see_through_body:
  "trace_raytrace_body rec example_ops (built_scene see_through_material) front_ray 0 example_rng
     example_params =
   rec (built_scene see_through_material) continued_ray 1 (example_rng\<lparr>rng_st := 1\<rparr>)
     example_params"
proof -
  have d: "ray_d front_ray = (0, 0, - 1)" by (simp add: front_ray_def make_ray_def)
  have m: "obj_material (surf_object (front_surface see_through_material)) = see_through_material"
    "surf_position (front_surface see_through_material) = (1 / 4, 1 / 4, 0)"
    by (simp_all add: front_surface_def)
  have b: "\<not> bounces example_params \<le> 0" by (simp add: example_params_def)
  have ct: "color_tex see_through_material = None"
    by (simp add: see_through_material_def plain_material_def)
  show ?thesis
    by (simp add: trace_raytrace_body_def front_ray_hit front_hit_def [symmetric] bind_r_def
        front_ray_surface [OF ct] m b see_through_scalars see_through_test d continued_ray_def
        Let_def)
       (simp add: front_hit_def)
qed

lemma trace_raytrace_body_calls:
  "trace_raytrace_body rec ops scene ray bounce rng params =
   trace_raytrace_body (\<lambda>sc r b g p. if b = bounce + 1 then rec sc r b g p else None)
     ops scene ray bounce rng params"
  by (rule trace_raytrace_body_cong) simp_all

text \<open>
  Claim C1 as the code has it: every call that \<^verbatim>\<open>trace_raytrace\<close> makes to itself is made
  with the bounce counter incremented by one, the call that continues the ray after the
  opacity test like the calls of the five reflectance branches. The first equation holds
  for every input and for whatever function \<open>rec\<close> is called: the body only ever calls
  \<open>rec\<close> with \<open>bounce + 1\<close>, since a function that answers nowhere else gives the same
  result. The other two are the body and the shader itself on a hit below the bounce limit:
  when the opacity test triggers, the same ray is continued from just past the surface
  with \<open>bounce + 1\<close>; when it does not, the reflectance branches run, and their calls are
  made with \<open>bounce + 1\<close>.
\<close>

theorem opacity_continuation_bounce:
  "trace_raytrace_body rec ops scene ray bounce rng params =
     trace_raytrace_body (\<lambda>sc r b g p. if b = bounce + 1 then rec sc r b g p else None)
       ops scene ray bounce rng params \<and>
   (intersect_scene_bvh ops scene ray False True = Some (Inr intersection) \<and>
    isect_hit intersection \<and>
    raytrace_surface ops scene ray intersection = Inr surf \<and>
    bounce < bounces params \<and>
    raytrace_material ops (obj_material (surf_object surf)) (surf_texcoord surf) =
      Inr (specular', metallic', roughness', transmission', opacity') \<and>
    opacity_test ops opacity' rng = (see_through, rng') \<longrightarrow>
      trace_raytrace_body rec ops scene ray bounce rng params =
        (if see_through then
           rec scene
             (make_ray (add3 (surf_position surf) (scale3 (ray_d ray) (1 / 100))) (ray_d ray))
             (bounce + 1) rng' params
         else
           raytrace_branches
             (\<lambda>r b g. if b = bounce + 1 then rec scene r b g params else None) ops
             (obj_material (surf_object surf)) (surf_position surf) (surf_normal surf)
             (surf_outgoing surf) (surf_base_color surf)
             (emission (obj_material (surf_object surf)))
             specular' metallic' roughness' transmission' bounce rng') \<and>
      trace_raytrace ops scene ray bounce rng params =
        (if see_through then
           trace_raytrace ops scene
             (make_ray (add3 (surf_position surf) (scale3 (ray_d ray) (1 / 100))) (ray_d ray))
             (bounce + 1) rng' params
         else
           raytrace_branches
             (\<lambda>r b g. if b = bounce + 1 then trace_raytrace ops scene r b g params else None) ops
             (obj_material (surf_object surf)) (surf_position surf) (surf_normal surf)
             (surf_outgoing surf) (surf_base_color surf)
             (emission (obj_material (surf_object surf)))
             specular' metallic' roughness' transmission' bounce rng'))"
proof -
  have calls: "trace_raytrace_body rec ops scene ray bounce rng params =
     trace_raytrace_body (\<lambda>sc r b g p. if b = bounce + 1 then rec sc r b g p else None)
       ops scene ray bounce rng params"
    by (rule trace_raytrace_body_calls)
  have branches: "raytrace_branches (\<lambda>r b g. f scene r b g params) ops m position normal outgoing
        base_color radiance s1 s2 s3 s4 bounce g0 =
      raytrace_branches (\<lambda>r b g. if b = bounce + 1 then f scene r b g params else None) ops m
        position normal outgoing base_color radiance s1 s2 s3 s4 bounce g0"
    for f m position normal outgoing base_color radiance s1 s2 s3 s4 g0
    by (rule raytrace_branches_cong) simp
  have body: "trace_raytrace_body f ops scene ray bounce rng params =
        (if see_through then
           f scene
             (make_ray (add3 (surf_position surf) (scale3 (ray_d ray) (1 / 100))) (ray_d ray))
             (bounce + 1) rng' params
         else
           raytrace_branches
             (\<lambda>r b g. if b = bounce + 1 then f scene r b g params else None) ops
             (obj_material (surf_object surf)) (surf_position surf) (surf_normal surf)
             (surf_outgoing surf) (surf_base_color surf)
             (emission (obj_material (surf_object surf)))
             specular' metallic' roughness' transmission' bounce rng')"
    if h: "intersect_scene_bvh ops scene ray False True = Some (Inr intersection)"
      "isect_hit intersection"
      "raytrace_surface ops scene ray intersection = Inr surf"
      "bounce < bounces params"
      "raytrace_material ops (obj_material (surf_object surf)) (surf_texcoord surf) =
        Inr (specular', metallic', roughness', transmission', opacity')"
      "opacity_test ops opacity' rng = (see_through, rng')"
    for f
    unfolding branches [symmetric]
    using h by (simp add: trace_raytrace_body_def bind_r_def Let_def)
  have shader: "trace_raytrace ops scene ray bounce rng params =
      trace_raytrace_body (trace_raytrace ops) ops scene ray bounce rng params"
    by (rule trace_raytrace.simps)
  show ?thesis
    unfolding shader using calls body [of rec] body [of "trace_raytrace ops"] by blast
qed

text \<open>
  The theorem on the see-through triangle, where the opacity test triggers, and on the
  plain one, where it does not and the diffuse branch runs. The stand-in answers with the
  bounce it is given: 1 in both.
\<close>

theorem opacity_continuation_bounce_witness:
  "intersect_scene_bvh example_ops (built_scene see_through_material) front_ray False True =
     Some (Inr front_hit) \<and>
   isect_hit front_hit \<and>
   raytrace_surface example_ops (built_scene see_through_material) front_ray front_hit =
     Inr (front_surface see_through_material) \<and>
   0 < bounces example_params \<and>
   raytrace_material example_ops
       (obj_material (surf_object (front_surface see_through_material)))
       (surf_texcoord (front_surface see_through_material)) = Inr (0, 0, 0, 0, 0) \<and>
   opacity_test example_ops 0 example_rng = (True, example_rng\<lparr>rng_st := 1\<rparr>) \<and>
   trace_raytrace_body bounce_probe example_ops (built_scene see_through_material) front_ray 0
       example_rng example_params =
     bounce_probe (built_scene see_through_material)
       (make_ray (add3 (surf_position (front_surface see_through_material))
                   (scale3 (ray_d front_ray) (1 / 100))) (ray_d front_ray))
       (0 + 1) (example_rng\<lparr>rng_st := 1\<rparr>) example_params \<and>
   intersect_scene_bvh example_ops (built_scene plain_material) front_ray False True =
     Some (Inr front_hit) \<and>
   raytrace_surface example_ops (built_scene plain_material) front_ray front_hit =
     Inr (front_surface plain_material) \<and>
   raytrace_material example_ops
       (obj_material (surf_object (front_surface plain_material)))
       (surf_texcoord (front_surface plain_material)) = Inr (0, 0, 0, 0, 1) \<and>
   opacity_test example_ops 1 example_rng = (False, example_rng) \<and>
   trace_raytrace_body bounce_probe example_ops (built_scene plain_material) front_ray 0
       example_rng example_params =
     raytrace_branches
       (\<lambda>r b g. if b = 0 + 1 then bounce_probe (built_scene plain_material) r b g example_params
                 else None)
       example_ops plain_material (1 / 4, 1 / 4, 0) (0, 0, 1) (0, 0, 1) (1, 1, 1) (0, 0, 0)
       0 0 0 0 0 example_rng \<and>
   trace_raytrace_body bounce_probe example_ops (built_scene plain_material) front_ray 0
       example_rng example_params =
     Some (Inr ((2, 0, 0, 1), example_rng\<lparr>rng_st := 2\<rparr>))"
proof -
  have ct: "color_tex see_through_material = None" "color_tex plain_material = None"
    by (simp_all add: see_through_material_def plain_material_def)
  have h: "isect_hit front_hit" "0 < bounces example_params"
    by (simp_all add: front_hit_def example_params_def)
  have m: "raytrace_material example_ops
       (obj_material (surf_object (front_surface see_through_material)))
       (surf_texcoord (front_surface see_through_material)) = Inr (0, 0, 0, 0, 0)"
    by (simp add: front_surface_def see_through_scalars)
  have m': "raytrace_material example_ops
       (obj_material (surf_object (front_surface plain_material)))
       (surf_texcoord (front_surface plain_material)) = Inr (0, 0, 0, 0, 1)"
    by (simp add: front_surface_def raytrace_material_def plain_material_def eval_texture_null
        bind_e_def)
  have t': "opacity_test example_ops 1 example_rng = (False, example_rng)"
    by (simp add: opacity_test_def)
  have surf': "obj_material (surf_object (front_surface plain_material)) = plain_material"
    "surf_position (front_surface plain_material) = (1 / 4, 1 / 4, 0)"
    "surf_normal (front_surface plain_material) = (0, 0, 1)"
    "surf_outgoing (front_surface plain_material) = (0, 0, 1)"
    "surf_base_color (front_surface plain_material) = (1, 1, 1)"
    "emission plain_material = (0, 0, 0)"
    by (simp_all add: front_surface_def plain_material_def)
  have one: "trace_raytrace_body bounce_probe example_ops (built_scene see_through_material)
       front_ray 0 example_rng example_params =
     bounce_probe (built_scene see_through_material)
       (make_ray (add3 (surf_position (front_surface see_through_material))
                   (scale3 (ray_d front_ray) (1 / 100))) (ray_d front_ray))
       (0 + 1) (example_rng\<lparr>rng_st := 1\<rparr>) example_params"
    using opacity_continuation_bounce [where rec = bounce_probe and ops = example_ops
        and scene = "built_scene see_through_material" and ray = front_ray and bounce = 0
        and rng = example_rng and params = example_params and intersection = front_hit
        and surf = "front_surface see_through_material" and specular' = 0 and metallic' = 0
        and roughness' = 0 and transmission' = 0 and opacity' = 0 and see_through = True
        and rng' = "example_rng\<lparr>rng_st := 1\<rparr>", THEN conjunct2]
      front_ray_hit [of see_through_material] h front_ray_surface [OF ct(1)] m see_through_test
    by simp
  have two: "trace_raytrace_body bounce_probe example_ops (built_scene plain_material) front_ray 0
       example_rng example_params =
     raytrace_branches
       (\<lambda>r b g. if b = 0 + 1 then bounce_probe (built_scene plain_material) r b g example_params
                 else None)
       example_ops plain_material (1 / 4, 1 / 4, 0) (0, 0, 1) (0, 0, 1) (1, 1, 1) (0, 0, 0)
       0 0 0 0 0 example_rng"
    using opacity_continuation_bounce [where rec = bounce_probe and ops = example_ops
        and scene = "built_scene plain_material" and ray = front_ray and bounce = 0
        and rng = example_rng and params = example_params and intersection = front_hit
        and surf = "front_surface plain_material" and specular' = 0 and metallic' = 0
        and roughness' = 0 and transmission' = 0 and opacity' = 1 and see_through = False
        and rng' = example_rng, THEN conjunct2]
      front_ray_hit [of plain_material] h front_ray_surface [OF ct(2)] m' t'
    by (simp add: surf')
  have f: "rand2f example_ops = (\<lambda>rng. ((1 / 2, 1 / 2), rng\<lparr>rng_st := rng_st rng + 2\<rparr>))"
    "sample_hemisphere example_ops = (\<lambda>n ruv. n)"
    by (simp_all add: example_ops_def)
  have diffuse: "raytrace_branches
       (\<lambda>r b g. if b = 0 + 1 then bounce_probe (built_scene plain_material) r b g example_params
                 else None)
       example_ops plain_material (1 / 4, 1 / 4, 0) (0, 0, 1) (0, 0, 1) (1, 1, 1) (0, 0, 0)
       0 0 0 0 0 example_rng =
     Some (Inr ((2, 0, 0, 1), example_rng\<lparr>rng_st := 2\<rparr>))"
    by (simp add: raytrace_branches_def f bounce_probe_def bind_r_def ray_eps_def example_rng_def
        Let_def)
  show ?thesis
    using one two diffuse front_ray_hit [of see_through_material] front_ray_hit [of plain_material]
      h front_ray_surface [OF ct(1)] front_ray_surface [OF ct(2)] m m' see_through_test t'
    by simp
qed

text \<open>
  Claim C1 as stated fails on the see-through triangle: the caller's bounce is 0, the
  opacity test triggers, and the call that continues the ray is given bounce 1. The
  stand-in answers (1, 0, 0, 1); given the caller's bounce it would answer (0, 0, 0, 1).
\<close>

theorem opacity_continuation_counterexample:
  "opacity_test example_ops 0 example_rng = (True, example_rng\<lparr>rng_st := 1\<rparr>) \<and>
   trace_raytrace_body bounce_probe example_ops (built_scene see_through_material) front_ray 0
       example_rng example_params =
     Some (Inr ((1, 0, 0, 1), example_rng\<lparr>rng_st := 1\<rparr>)) \<and>
   bounce_probe (built_scene see_through_material) continued_ray 0 (example_rng\<lparr>rng_st := 1\<rparr>)
       example_params =
     Some (Inr ((0, 0, 0, 1), example_rng\<lparr>rng_st := 1\<rparr>))"
  by (simp add: see_through_test see_through_body) (simp add: bounce_probe_def)

section \<open>Coincident centers\<close>

text \<open>Five entries whose boxes and centers are the origin.\<close>

definition coincident_entry :: "nat \<Rightarrow> bvh_primitive" where
  "coincident_entry k =
     \<lparr>prim_bbox = ((0, 0, 0), (0, 0, 0)), prim_center = (0, 0, 0), prim_primitive = k\<rparr>"

definition five_coincident :: "bvh_primitive list" where
  "five_coincident = map coincident_entry [0, 1, 2, 3, 4]"

definition origin_node :: bvh_node where
  "origin_node = new_node\<lparr>node_bbox := ((0, 0, 0), (0, 0, 0))\<rparr>"

lemma split_middle_degenerate:
  assumes "sub3 (snd (centers_bbox primitives start end)) (fst (centers_bbox primitives start end))
    = zero3f"
  shows "split_middle primitives start end = (primitives, (start + end) div 2, 0)"
  using assms by (simp add: split_middle_def Let_def)

lemma five_coincident_centers: "centers_bbox five_coincident 0 5 = ((0, 0, 0), (0, 0, 0))"
  by (simp add: centers_bbox_def five_coincident_def coincident_entry_def subrange_def
      merge_point_def invalidb3f_def flt_max_def)

lemma five_coincident_split: "split_middle five_coincident 0 5 = (five_coincident, 2, 0)"
  using split_middle_degenerate [of five_coincident 0 5]
  by (simp add: five_coincident_centers zero3f_def)

lemma five_coincident_boxes:
  "range_bbox five_coincident 0 5 = ((0, 0, 0), (0, 0, 0))"
  "range_bbox five_coincident 0 2 = ((0, 0, 0), (0, 0, 0))"
  "range_bbox five_coincident 2 5 = ((0, 0, 0), (0, 0, 0))"
  by (simp_all add: range_bbox_def five_coincident_def coincident_entry_def subrange_def
      merge_def invalidb3f_def flt_max_def)

lemma five_coincident_step:
  "build_step [new_node] five_coincident (0, 0, 5) =
     ([origin_node\<lparr>node_internal := True, node_num := 2, node_start := 1\<rparr>, new_node, new_node],
      five_coincident, [(1, 0, 2), (2, 2, 5)])"
  by (simp add: build_step_def five_coincident_boxes five_coincident_split bvh_max_prims_def
      Let_def origin_node_def new_node_def)

lemma five_coincident_tree:
  "build_bvh five_coincident =
     ([origin_node\<lparr>node_internal := True, node_num := 2, node_start := 1\<rparr>,
       origin_node\<lparr>node_start := 0, node_num := 2\<rparr>,
       origin_node\<lparr>node_start := 2, node_num := 3\<rparr>], five_coincident)"
proof -
  have len: "length five_coincident = 5" by (simp add: five_coincident_def)
  have s1: "build_step [a, new_node, c] five_coincident (Suc 0, 0, 2) =
      ([a, origin_node\<lparr>node_start := 0, node_num := 2\<rparr>, c], five_coincident, [])" for a c
    by (simp add: build_step_def five_coincident_boxes bvh_max_prims_def Let_def origin_node_def
        new_node_def)
  have s2: "build_step [a, b, new_node] five_coincident (2, 2, 5) =
      ([a, b, origin_node\<lparr>node_start := 2, node_num := 3\<rparr>], five_coincident, [])" for a b
    by (simp add: build_step_def five_coincident_boxes bvh_max_prims_def Let_def origin_node_def
        new_node_def)
  show ?thesis
    by (simp add: build_bvh_def len five_coincident_step s1 s2)
qed

text \<open>
  The test of line 258: the box around the centers of the range has no extent (the centers
  coincide).
\<close>

definition degenerate_centers :: "bvh_primitive list \<Rightarrow> nat \<Rightarrow> nat \<Rightarrow> bool" where
  "degenerate_centers primitives start end =
     (let cbbox = centers_bbox primitives start end
      in sub3 (snd cbbox) (fst cbbox) = zero3f)"

lemma five_coincident_degenerate: "degenerate_centers five_coincident 0 5"
  by (simp add: degenerate_centers_def five_coincident_centers zero3f_def)

text \<open>
  C4, as the code has it. One turn of the loop of \<^verbatim>\<open>build_bvh\<close> makes the node of its range
  a leaf exactly when the range holds at most four entries, whatever their centers are: a
  leaf pushes nothing and takes the range as it is; a longer range makes the node internal
  and pushes two child entries that share the range; and a longer range whose centers
  coincide is split in half by position, the entries left in place.
\<close>

theorem leaf_exactly_when_small:
  assumes "nodeid < length nodes"
    and "build_step nodes primitives (nodeid, start, end) = (nodes', primitives', pushed)"
  shows "node_internal (nodes' ! nodeid) = (bvh_max_prims < end - start) \<and>
         (end - start \<le> bvh_max_prims \<longrightarrow>
            pushed = [] \<and> length nodes' = length nodes \<and> primitives' = primitives \<and>
            node_start (nodes' ! nodeid) = start \<and> node_num (nodes' ! nodeid) = end - start) \<and>
         (bvh_max_prims < end - start \<longrightarrow>
            length nodes' = length nodes + 2 \<and> node_num (nodes' ! nodeid) = 2 \<and>
            node_start (nodes' ! nodeid) = length nodes \<and>
            (\<exists>mid. pushed = [(length nodes, start, mid), (length nodes + 1, mid, end)])) \<and>
         (bvh_max_prims < end - start \<and> degenerate_centers primitives start end \<longrightarrow>
            primitives' = primitives \<and>
            pushed = [(length nodes, start, (start + end) div 2),
                      (length nodes + 1, (start + end) div 2, end)])"
proof (cases "bvh_max_prims < end - start")
  case False
  have "nodes' ! nodeid = (nodes ! nodeid)\<lparr>node_bbox := range_bbox primitives start end,
          node_internal := False, node_num := end - start, node_start := start\<rparr>"
    "length nodes' = length nodes" "primitives' = primitives" "pushed = []"
    using assms False by (auto simp: build_step_def Let_def)
  then show ?thesis using False by simp
next
  case True
  obtain ps1 mid ax where sm: "split_middle primitives start end = (ps1, mid, ax)"
    by (cases "split_middle primitives start end") auto
  have res: "nodes' = nodes[nodeid := (nodes ! nodeid)\<lparr>node_bbox := range_bbox primitives start end,
          node_internal := True, node_axis := ax, node_num := 2, node_start := length nodes\<rparr>]
          @ [new_node, new_node]"
    "primitives' = ps1" "pushed = [(length nodes, start, mid), (length nodes + 1, mid, end)]"
    using assms(2) True by (auto simp: build_step_def Let_def sm)
  have node: "nodes' ! nodeid = (nodes ! nodeid)\<lparr>node_bbox := range_bbox primitives start end,
          node_internal := True, node_axis := ax, node_num := 2, node_start := length nodes\<rparr>"
    using assms(1) by (simp add: res(1) nth_append)
  have deg: "ps1 = primitives \<and> mid = (start + end) div 2"
    if "degenerate_centers primitives start end"
    using that sm by (simp add: degenerate_centers_def split_middle_def Let_def)
  show ?thesis
    using True node deg by (auto simp: res)
qed

theorem leaf_exactly_when_small_witness:
  "(0 :: nat) < length [new_node] \<and>
   build_step [new_node] five_coincident (0, 0, 5) =
     ([origin_node\<lparr>node_internal := True, node_num := 2, node_start := 1\<rparr>, new_node, new_node],
      five_coincident, [(1, 0, 2), (2, 2, 5)]) \<and>
   bvh_max_prims < 5 - 0 \<and> degenerate_centers five_coincident 0 5 \<and>
   node_internal ([origin_node\<lparr>node_internal := True, node_num := 2, node_start := 1\<rparr>,
                   new_node, new_node] ! 0)"
  using leaf_exactly_when_small [OF _ five_coincident_step]
  by (simp add: five_coincident_step five_coincident_degenerate bvh_max_prims_def)

text \<open>
  Five entries whose centers coincide: the box around the centers has no extent, and the
  root that \<^verbatim>\<open>build_bvh\<close> makes for them is internal, with the two leaves of two and of
  three entries under it.
\<close>

theorem coincident_centers_split:
  "degenerate_centers five_coincident 0 (length five_coincident) \<and>
   node_internal (fst (build_bvh five_coincident) ! 0) \<and>
   map node_internal (fst (build_bvh five_coincident)) = [True, False, False] \<and>
   map node_num (fst (build_bvh five_coincident)) = [2, 2, 3]"
proof -
  have "length five_coincident = 5" by (simp add: five_coincident_def)
  then show ?thesis
    by (simp add: five_coincident_tree five_coincident_degenerate origin_node_def new_node_def)
qed

section \<open>Boxes and ranges\<close>

lemma min3_assoc: "min3 (min3 a b) c = min3 a (min3 b c)"
  by (cases a rule: prod_cases3; cases b rule: prod_cases3; cases c rule: prod_cases3)
    (simp add: min.assoc)

lemma min3_commute: "min3 a b = min3 b a"
  by (cases a rule: prod_cases3; cases b rule: prod_cases3) (simp add: min.commute)

lemma min3_idem: "min3 a a = a"
  by (cases a rule: prod_cases3) simp

lemma max3_assoc: "max3 (max3 a b) c = max3 a (max3 b c)"
  by (cases a rule: prod_cases3; cases b rule: prod_cases3; cases c rule: prod_cases3)
    (simp add: max.assoc)

lemma max3_commute: "max3 a b = max3 b a"
  by (cases a rule: prod_cases3; cases b rule: prod_cases3) (simp add: max.commute)

lemma max3_idem: "max3 a a = a"
  by (cases a rule: prod_cases3) simp

lemma merge_assoc: "merge (merge a b) c = merge a (merge b c)"
  by (simp add: merge_def min3_assoc max3_assoc)

lemma merge_commute: "merge a b = merge b a"
  by (simp add: merge_def min3_commute [of "fst a"] max3_commute [of "snd a"])

lemma merge_idem: "merge a a = a"
  by (simp add: merge_def min3_idem max3_idem)

lemma merge_left_commute: "merge a (merge b c) = merge b (merge a c)"
  by (metis merge_assoc merge_commute)

lemma merge_right_idem: "merge (merge a b) b = merge a b"
  by (simp add: merge_assoc merge_idem)

text \<open>The box around a list of boxes, started from any box.\<close>

definition merge_all :: "bbox3f list \<Rightarrow> bbox3f \<Rightarrow> bbox3f" where
  "merge_all bs a = fold (\<lambda>x b. merge b x) bs a"

lemma merge_all_simps [simp]:
  "merge_all [] a = a"
  "merge_all (x # bs) a = merge_all bs (merge a x)"
  by (simp_all add: merge_all_def)

lemma merge_all_append: "merge_all (xs @ ys) a = merge_all ys (merge_all xs a)"
  by (simp add: merge_all_def)

lemma merge_all_merge: "merge_all bs (merge a b) = merge (merge_all bs a) b"
proof (induction bs arbitrary: a)
  case Nil
  show ?case by simp
next
  case (Cons x bs)
  have "merge (merge a b) x = merge (merge a x) b"
    by (metis merge_assoc merge_commute)
  then show ?case using Cons.IH [of "merge a x"] by simp
qed

lemma merge_all_start: "merge (merge_all bs a) a = merge_all bs a"
  using merge_all_merge [of bs a a] by (simp add: merge_idem)

lemma merge_all_union:
  "merge_all (xs @ ys) a = merge (merge_all xs a) (merge_all ys a)"
proof -
  have "merge_all ys (merge_all xs a) = merge_all ys (merge a (merge_all xs a))"
    using merge_all_start [of xs a] by (simp add: merge_commute)
  also have "\<dots> = merge (merge_all ys a) (merge_all xs a)"
    by (rule merge_all_merge)
  finally show ?thesis by (simp add: merge_all_append merge_commute)
qed

lemma merge_all_absorb: "x \<in> set bs \<Longrightarrow> merge (merge_all bs a) x = merge_all bs a"
proof (induction bs arbitrary: a)
  case Nil
  then show ?case by simp
next
  case (Cons y bs)
  show ?case
  proof (cases "x = y")
    case True
    have "merge (merge_all bs (merge a y)) y = merge_all bs (merge (merge a y) y)"
      by (simp add: merge_all_merge)
    then show ?thesis using True by (simp add: merge_right_idem)
  next
    case False
    then have "x \<in> set bs" using Cons.prems by simp
    then show ?thesis using Cons.IH by simp
  qed
qed

lemma merge_all_remdups: "merge_all (remdups bs) a = merge_all bs a"
proof (induction bs arbitrary: a)
  case Nil
  show ?case by simp
next
  case (Cons x bs)
  show ?case
  proof (cases "x \<in> set bs")
    case True
    have "merge_all bs (merge a x) = merge (merge_all bs a) x"
      by (rule merge_all_merge)
    then show ?thesis using True Cons.IH by (simp add: merge_all_absorb)
  next
    case False
    then show ?thesis using Cons.IH by simp
  qed
qed

lemma merge_all_mset: "mset xs = mset ys \<Longrightarrow> merge_all xs a = merge_all ys a"
proof -
  assume eq: "mset xs = mset ys"
  have "fold (\<lambda>x b. merge b x) xs = fold (\<lambda>x b. merge b x) ys"
  proof (rule fold_multiset_equiv [OF _ eq])
    fix x y :: bbox3f
    show "(\<lambda>b. merge b x) \<circ> (\<lambda>b. merge b y) = (\<lambda>b. merge b y) \<circ> (\<lambda>b. merge b x)"
      by (rule ext) (simp add: merge_assoc merge_commute [of x y])
  qed
  then show ?thesis by (simp add: merge_all_def)
qed

lemma merge_all_set: "set xs = set ys \<Longrightarrow> merge_all xs a = merge_all ys a"
proof -
  assume "set xs = set ys"
  then have "mset (remdups xs) = mset (remdups ys)"
    by (simp add: set_eq_iff_mset_remdups_eq)
  then have "merge_all (remdups xs) a = merge_all (remdups ys) a"
    by (rule merge_all_mset)
  then show ?thesis by (simp add: merge_all_remdups)
qed

lemma range_bbox_merge_all:
  "range_bbox ps s e = merge_all (map prim_bbox (subrange ps s e)) invalidb3f"
  by (simp add: range_bbox_def merge_all_def fold_map comp_def)

lemma subrange_append:
  assumes "s \<le> m" "m \<le> e"
  shows "subrange xs s e = subrange xs s m @ subrange xs m e"
proof -
  have "e - s = (m - s) + (e - m)" using assms by simp
  then have "take (e - s) (drop s xs) = take (m - s) (drop s xs) @ take (e - m) (drop (m - s) (drop s xs))"
    by (simp add: take_add)
  then show ?thesis using assms by (simp add: subrange_def)
qed

lemma length_subrange: "e \<le> length xs \<Longrightarrow> length (subrange xs s e) = e - s"
  by (simp add: subrange_def)

lemma nth_subrange: "e \<le> length xs \<Longrightarrow> i < e - s \<Longrightarrow> subrange xs s e ! i = xs ! (s + i)"
  by (simp add: subrange_def)

lemma set_subrange:
  "e \<le> length xs \<Longrightarrow> set (subrange xs s e) = {xs ! k |k. s \<le> k \<and> k < e}"
proof -
  assume e: "e \<le> length xs"
  have "set (subrange xs s e) = {subrange xs s e ! i |i. i < e - s}"
    using length_subrange [OF e, of s] by (auto simp: set_conv_nth)
  also have "\<dots> = {xs ! (s + i) |i. i < e - s}"
    using nth_subrange [OF e, of _ s] by metis
  also have "\<dots> = {xs ! k |k. s \<le> k \<and> k < e}"
  proof (intro set_eqI iffI)
    fix x assume "x \<in> {xs ! (s + i) |i. i < e - s}"
    then obtain i where "x = xs ! (s + i)" "i < e - s" by auto
    then show "x \<in> {xs ! k |k. s \<le> k \<and> k < e}" by (intro CollectI exI [of _ "s + i"]) auto
  next
    fix x assume "x \<in> {xs ! k |k. s \<le> k \<and> k < e}"
    then obtain k where "x = xs ! k" "s \<le> k" "k < e" by auto
    then show "x \<in> {xs ! (s + i) |i. i < e - s}" by (intro CollectI exI [of _ "k - s"]) auto
  qed
  finally show ?thesis .
qed

lemma range_bbox_split:
  assumes "s \<le> m" "m \<le> e"
  shows "range_bbox ps s e = merge (range_bbox ps s m) (range_bbox ps m e)"
  by (simp add: range_bbox_merge_all subrange_append [OF assms] merge_all_union)

section \<open>What a partition of a range leaves in place\<close>

lemma subrange_outside:
  assumes "length r = length r'" "b \<le> length A \<or> length A + length r \<le> a"
  shows "subrange (A @ r' @ C) a b = subrange (A @ r @ C) a b"
proof (cases "b \<le> length A")
  case True
  then show ?thesis by (simp add: subrange_def)
next
  case False
  then have a: "length A + length r \<le> a" using assms(2) by simp
  then have "drop a (A @ r' @ C) = drop (a - length A - length r) C"
    using assms(1) by simp
  moreover have "drop a (A @ r @ C) = drop (a - length A - length r) C"
    using a by simp
  ultimately show ?thesis by (simp add: subrange_def)
qed

lemma subrange_middle: "subrange (A @ r @ C) (length A) (length A + length r) = r"
  by (simp add: subrange_def)

lemma subrange_around:
  assumes "length r = length r'" "mset r = mset r'" "a \<le> length A" "length A + length r \<le> b"
  shows "mset (subrange (A @ r' @ C) a b) = mset (subrange (A @ r @ C) a b)"
proof -
  let ?s = "length A" and ?e = "length A + length r"
  have split: "subrange xs a b = subrange xs a ?s @ subrange xs ?s ?e @ subrange xs ?e b" for xs :: "'a list"
    using assms(3,4) subrange_append [of a ?s b xs] subrange_append [of ?s ?e b xs] by simp
  have 1: "subrange (A @ r' @ C) a ?s = subrange (A @ r @ C) a ?s"
    by (rule subrange_outside [OF assms(1)]) simp
  have 2: "subrange (A @ r' @ C) ?e b = subrange (A @ r @ C) ?e b"
    by (rule subrange_outside [OF assms(1)]) simp
  have 3: "subrange (A @ r' @ C) ?s ?e = r'"
    using subrange_middle [of A r' C] assms(1) by simp
  have 4: "subrange (A @ r @ C) ?s ?e = r"
    by (rule subrange_middle)
  have "mset (subrange (A @ r' @ C) a b) =
      mset (subrange (A @ r' @ C) a ?s) + mset (subrange (A @ r' @ C) ?s ?e) +
      mset (subrange (A @ r' @ C) ?e b)"
    using split [of "A @ r' @ C"] by simp
  moreover have "mset (subrange (A @ r @ C) a b) =
      mset (subrange (A @ r @ C) a ?s) + mset (subrange (A @ r @ C) ?s ?e) +
      mset (subrange (A @ r @ C) ?e b)"
    using split [of "A @ r @ C"] by simp
  ultimately show ?thesis
    by (simp only: 1 2 3 4 assms(2))
qed

lemma partition_range_shape:
  assumes "s \<le> e" "e \<le> length xs"
  shows "\<exists>r'. fst (partition_range pred xs s e) = take s xs @ r' @ drop e xs \<and>
              length r' = length (subrange xs s e) \<and> mset r' = mset (subrange xs s e)"
proof -
  let ?r = "subrange xs s e"
  let ?r' = "filter pred ?r @ filter (\<lambda>x. \<not> pred x) ?r"
  have "length ?r' = length ?r"
    using sum_length_filter_compl [of pred ?r] by simp
  moreover have "mset ?r' = mset ?r"
    by simp
  moreover have "fst (partition_range pred xs s e) = take s xs @ ?r' @ drop e xs"
    by (simp add: partition_range_def Let_def)
  ultimately show ?thesis by blast
qed

lemma decompose_at_range:
  assumes "s \<le> e" "e \<le> length xs"
  shows "xs = take s xs @ subrange xs s e @ drop e xs"
proof -
  have "drop s xs = take (e - s) (drop s xs) @ drop (e - s) (drop s xs)"
    by (simp only: append_take_drop_id)
  moreover have "drop (e - s) (drop s xs) = drop e xs"
    using assms by simp
  ultimately have "drop s xs = subrange xs s e @ drop e xs"
    by (simp only: subrange_def)
  then show ?thesis
    by (metis append_take_drop_id)
qed

text \<open>
  What \<^verbatim>\<open>split_middle\<close> does to the entries: it permutes the range it is given and leaves
  every range around it or beside it with the same entries.
\<close>

lemma split_middle_entries:
  assumes "s \<le> e" "e \<le> length ps" "split_middle ps s e = (ps', mid, ax)"
  shows "length ps' = length ps"
    and "mset ps' = mset ps"
    and "\<And>a b. a \<le> s \<Longrightarrow> e \<le> b \<Longrightarrow> mset (subrange ps' a b) = mset (subrange ps a b)"
    and "\<And>a b. b \<le> s \<or> e \<le> a \<Longrightarrow> subrange ps' a b = subrange ps a b"
proof -
  have "ps' = ps \<or> (\<exists>pred. ps' = fst (partition_range pred ps s e))"
  proof -
    define cbbox where "cbbox = centers_bbox ps s e"
    define pred :: "bvh_primitive \<Rightarrow> bool" where
      "pred = (\<lambda>p. component (prim_center p) (split_axis (sub3 (snd cbbox) (fst cbbox)))
         < component (center cbbox) (split_axis (sub3 (snd cbbox) (fst cbbox))))"
    have "fst (split_middle ps s e) =
      (if sub3 (snd cbbox) (fst cbbox) = zero3f then ps else fst (partition_range pred ps s e))"
      by (simp add: split_middle_def Let_def cbbox_def pred_def split: prod.splits)
    then show ?thesis using assms(3) by (cases "sub3 (snd cbbox) (fst cbbox) = zero3f") auto
  qed
  then obtain r' where r': "ps' = take s ps @ r' @ drop e ps"
    "length r' = length (subrange ps s e)" "mset r' = mset (subrange ps s e)"
  proof
    assume "ps' = ps"
    then show ?thesis using that [of "subrange ps s e"] decompose_at_range [OF assms(1,2)] by simp
  next
    assume "\<exists>pred. ps' = fst (partition_range pred ps s e)"
    then show ?thesis using that partition_range_shape [OF assms(1,2)] by metis
  qed
  let ?A = "take s ps" and ?C = "drop e ps" and ?r = "subrange ps s e"
  have lenA: "length ?A = s" using assms by simp
  have lenr: "length ?r = e - s" using assms by (simp add: subrange_def)
  have ps: "ps = ?A @ ?r @ ?C" by (rule decompose_at_range [OF assms(1,2)])
  show "length ps' = length ps"
    using r'(1,2) lenA lenr assms by simp
  show "mset ps' = mset ps"
    by (subst ps) (simp add: r'(1,3))
  show "mset (subrange ps' a b) = mset (subrange ps a b)" if "a \<le> s" "e \<le> b" for a b
  proof -
    have "mset (subrange (?A @ r' @ ?C) a b) = mset (subrange (?A @ ?r @ ?C) a b)"
      using that lenA lenr assms(1) r'(2,3) by (intro subrange_around) simp_all
    then show ?thesis using r'(1) ps by simp
  qed
  show "subrange ps' a b = subrange ps a b" if "b \<le> s \<or> e \<le> a" for a b
  proof -
    have "subrange (?A @ r' @ ?C) a b = subrange (?A @ ?r @ ?C) a b"
      using that lenA lenr assms(1) r'(2) by (intro subrange_outside) auto
    then show ?thesis using r'(1) ps by simp
  qed
qed

section \<open>The invariant of the builder's loop\<close>

text \<open>
  While the loop runs, every node has a range of the entries: the range of its queue entry
  while the node waits in the queue, the range it was given once it is done (an internal
  node does not store it). \<open>rs\<close> records these ranges. The frontier are the nodes that
  wait and the leaves.
\<close>

definition span :: "nat \<times> nat \<Rightarrow> nat set" where
  "span r = {fst r ..< snd r}"

definition pending :: "(nat \<times> nat \<times> nat) list \<Rightarrow> nat set" where
  "pending queue = fst ` set queue"

definition frontier :: "bvh_node list \<Rightarrow> (nat \<times> nat \<times> nat) list \<Rightarrow> nat \<Rightarrow> bool" where
  "frontier nodes queue i = (i \<in> pending queue \<or> \<not> node_internal (nodes ! i))"

definition node_done ::
  "nat \<Rightarrow> bvh_node \<Rightarrow> bvh_primitive list \<Rightarrow> (nat \<Rightarrow> nat \<times> nat) \<Rightarrow> nat \<times> nat \<Rightarrow> bool" where
  "node_done len n ps rs r =
     (node_bbox n = range_bbox ps (fst r) (snd r) \<and>
      (if node_internal n
       then node_num n = 2 \<and> bvh_max_prims < snd r - fst r \<and> node_start n + 1 < len \<and>
            (\<exists>m. fst r < m \<and> m < snd r \<and> rs (node_start n) = (fst r, m) \<and>
                 rs (node_start n + 1) = (m, snd r))
       else node_start n = fst r \<and> node_num n = snd r - fst r \<and>
            snd r - fst r \<le> bvh_max_prims))"

definition build_inv ::
  "nat \<Rightarrow> bvh_node list \<Rightarrow> bvh_primitive list \<Rightarrow> (nat \<times> nat \<times> nat) list
   \<Rightarrow> (nat \<Rightarrow> nat \<times> nat) \<Rightarrow> bool" where
  "build_inv N nodes ps queue rs =
     (length ps = N \<and> 0 < length nodes \<and> rs 0 = (0, N) \<and>
      distinct (map fst queue) \<and>
      (\<forall>q \<in> set queue. fst q < length nodes \<and> rs (fst q) = snd q) \<and>
      (\<forall>i < length nodes. fst (rs i) \<le> snd (rs i) \<and> snd (rs i) \<le> N) \<and>
      (\<forall>i < length nodes. i \<notin> pending queue \<longrightarrow>
         node_done (length nodes) (nodes ! i) ps rs (rs i)) \<and>
      (\<forall>i < length nodes. \<forall>j \<in> pending queue.
         span (rs j) \<subseteq> span (rs i) \<or> span (rs j) \<inter> span (rs i) = {}) \<and>
      (\<forall>i < length nodes. \<forall>j < length nodes.
         i \<noteq> j \<longrightarrow> frontier nodes queue i \<longrightarrow> frontier nodes queue j \<longrightarrow>
         span (rs i) \<inter> span (rs j) = {}) \<and>
      (\<forall>k < N. \<exists>i < length nodes. frontier nodes queue i \<and> k \<in> span (rs i)))"

lemma build_inv_init:
  "build_inv (length ps) [new_node] ps [(0, 0, length ps)] (\<lambda>i. (0, length ps))"
  by (auto simp: build_inv_def pending_def frontier_def span_def)

lemma build_inv_disjoint:
  "build_inv N nodes ps queue rs \<Longrightarrow> i < length nodes \<Longrightarrow> j < length nodes \<Longrightarrow> i \<noteq> j \<Longrightarrow>
   frontier nodes queue i \<Longrightarrow> frontier nodes queue j \<Longrightarrow> span (rs i) \<inter> span (rs j) = {}"
  by (simp add: build_inv_def)

lemma build_inv_laminar:
  "build_inv N nodes ps queue rs \<Longrightarrow> i < length nodes \<Longrightarrow> j \<in> pending queue \<Longrightarrow>
   span (rs j) \<subseteq> span (rs i) \<or> span (rs j) \<inter> span (rs i) = {}"
  by (simp add: build_inv_def)

lemma build_inv_cover:
  "build_inv N nodes ps queue rs \<Longrightarrow> k < N \<Longrightarrow>
   \<exists>i < length nodes. frontier nodes queue i \<and> k \<in> span (rs i)"
  by (simp add: build_inv_def)

lemma build_inv_done:
  "build_inv N nodes ps queue rs \<Longrightarrow> i < length nodes \<Longrightarrow> i \<notin> pending queue \<Longrightarrow>
   node_done (length nodes) (nodes ! i) ps rs (rs i)"
  by (simp add: build_inv_def)

lemma range_bbox_mset:
  "mset (subrange ps' s e) = mset (subrange ps s e) \<Longrightarrow> range_bbox ps' s e = range_bbox ps s e"
proof -
  assume "mset (subrange ps' s e) = mset (subrange ps s e)"
  then have "mset (map prim_bbox (subrange ps' s e)) = mset (map prim_bbox (subrange ps s e))"
    by (metis mset_map)
  then show ?thesis
    by (simp add: range_bbox_merge_all merge_all_mset)
qed

lemma node_done_cong:
  assumes "node_done len n ps rs r" "len \<le> len'"
    "range_bbox ps' (fst r) (snd r) = range_bbox ps (fst r) (snd r)"
    "\<And>c. c < len \<Longrightarrow> rs' c = rs c"
  shows "node_done len' n ps' rs' r"
  using assms unfolding node_done_def
  by (auto split: if_splits)

lemma build_inv_leaf:
  assumes inv: "build_inv N nodes ps ((nodeid, s, e) # queue) rs"
    and small: "e - s \<le> bvh_max_prims"
    and n': "n' = (nodes ! nodeid)\<lparr>node_bbox := range_bbox ps s e, node_internal := False,
                                   node_num := e - s, node_start := s\<rparr>"
  shows "build_inv N (nodes[nodeid := n']) ps queue rs"
proof -
  let ?nodes' = "nodes[nodeid := n']"
  have id: "nodeid < length nodes" "rs nodeid = (s, e)" "nodeid \<notin> pending queue"
    using inv by (auto simp: build_inv_def pending_def)
  have pend: "pending ((nodeid, s, e) # queue) = insert nodeid (pending queue)"
    by (simp add: pending_def)
  have fr: "frontier ?nodes' queue i = frontier nodes ((nodeid, s, e) # queue) i"
    if "i < length nodes" for i
    using that id n' by (cases "i = nodeid") (auto simp: frontier_def pend)
  have dn: "node_done (length ?nodes') (?nodes' ! i) ps rs (rs i)"
    if "i < length nodes" "i \<notin> pending queue" for i
  proof (cases "i = nodeid")
    case True
    then show ?thesis
      using id small n' by (simp add: node_done_def)
  next
    case False
    then have "node_done (length nodes) (nodes ! i) ps rs (rs i)"
      using build_inv_done [OF inv that(1)] that(2) by (simp add: pend)
    then show ?thesis using False by simp
  qed
  have lam: "span (rs j) \<subseteq> span (rs i) \<or> span (rs j) \<inter> span (rs i) = {}"
    if "i < length nodes" "j \<in> pending queue" for i j
    using build_inv_laminar [OF inv that(1), of j] that(2) by (simp add: pend)
  have dis: "span (rs i) \<inter> span (rs j) = {}"
    if "i < length nodes" "j < length nodes" "i \<noteq> j" "frontier ?nodes' queue i"
      "frontier ?nodes' queue j" for i j
    using build_inv_disjoint [OF inv that(1,2,3)] that fr by simp
  have cov: "\<exists>i < length nodes. frontier ?nodes' queue i \<and> k \<in> span (rs i)" if k: "k < N" for k
  proof -
    obtain i where "i < length nodes" "frontier nodes ((nodeid, s, e) # queue) i" "k \<in> span (rs i)"
      using build_inv_cover [OF inv k] by blast
    then show ?thesis using fr by blast
  qed
  have base: "length ps = N" "0 < length nodes" "rs 0 = (0, N)" "distinct (map fst queue)"
    "\<forall>q \<in> set queue. fst q < length nodes \<and> rs (fst q) = snd q"
    "\<forall>i < length nodes. fst (rs i) \<le> snd (rs i) \<and> snd (rs i) \<le> N"
    using inv by (simp_all add: build_inv_def)
  show ?thesis
    unfolding build_inv_def
    using base dn lam dis cov by simp
qed

lemma span_subset: "s < e \<Longrightarrow> span (s, e) \<subseteq> span (a, b) \<Longrightarrow> a \<le> s \<and> e \<le> b"
  by (simp add: span_def)

lemma span_disjoint:
  "s < e \<Longrightarrow> span (s, e) \<inter> span (a, b) = {} \<Longrightarrow> b \<le> s \<or> e \<le> a \<or> b \<le> a"
proof (rule ccontr)
  assume se: "s < e" and d: "span (s, e) \<inter> span (a, b) = {}"
    and n: "\<not> (b \<le> s \<or> e \<le> a \<or> b \<le> a)"
  then have "max s a \<in> span (s, e) \<inter> span (a, b)"
    by (auto simp: span_def)
  then show False using d by simp
qed

lemma span_halves:
  "s \<le> m \<Longrightarrow> m \<le> e \<Longrightarrow> span (s, e) = span (s, m) \<union> span (m, e)"
  "span (s, m) \<inter> span (m, e) = {}"
  by (auto simp: span_def)

lemma build_inv_split:
  assumes inv: "build_inv N nodes ps ((nodeid, s, e) # queue) rs"
    and big: "bvh_max_prims < e - s"
    and sm: "split_middle ps s e = (ps', mid, ax)"
    and n': "n' = (nodes ! nodeid)\<lparr>node_bbox := range_bbox ps s e, node_internal := True,
                                   node_axis := ax, node_num := 2, node_start := length nodes\<rparr>"
    and rs': "rs' = rs(length nodes := (s, mid), Suc (length nodes) := (mid, e))"
  shows "build_inv N (nodes[nodeid := n'] @ [new_node, new_node]) ps'
           (queue @ [(length nodes, s, mid), (Suc (length nodes), mid, e)]) rs'"
proof -
  let ?c = "length nodes"
  let ?nodes' = "nodes[nodeid := n'] @ [new_node, new_node]"
  let ?queue' = "queue @ [(?c, s, mid), (Suc ?c, mid, e)]"
  let ?old = "(nodeid, s, e) # queue"
  have base: "length ps = N" "0 < ?c" "rs 0 = (0, N)" "distinct (map fst queue)"
    "\<forall>q \<in> set queue. fst q < ?c \<and> rs (fst q) = snd q"
    "\<forall>i < ?c. fst (rs i) \<le> snd (rs i) \<and> snd (rs i) \<le> N"
    using inv by (simp_all add: build_inv_def)
  have id: "nodeid < ?c" "rs nodeid = (s, e)" "nodeid \<notin> pending queue"
    using inv by (auto simp: build_inv_def pending_def)
  have se: "s < e" "e \<le> N" "s \<le> e"
    using big base(6) id(1,2) by (auto simp: bvh_max_prims_def)
  have mid: "s < mid" "mid < e"
    using split_middle_mid [OF big sm] by auto
  note ent = split_middle_entries [OF se(3) _ sm, unfolded base(1), OF se(2)]
  have pend_old: "pending ?old = insert nodeid (pending queue)"
    by (simp add: pending_def)
  have pend_lt: "j < ?c" if "j \<in> pending queue" for j
    using that base(5) by (auto simp: pending_def)
  have pend': "pending ?queue' = pending queue \<union> {?c, Suc ?c}"
    by (auto simp: pending_def)
  have rs_old: "rs' i = rs i" if "i < ?c" for i
    using that by (simp add: rs')
  have rs_new: "rs' ?c = (s, mid)" "rs' (Suc ?c) = (mid, e)"
    by (simp_all add: rs')
  have nth_old: "?nodes' ! i = nodes ! i" if "i < ?c" "i \<noteq> nodeid" for i
    using that by (simp add: nth_append)
  have nth_id: "?nodes' ! nodeid = n'"
    using id(1) by (simp add: nth_append)
  have fr_old: "frontier ?nodes' ?queue' i = frontier nodes ?old i" if "i < ?c" "i \<noteq> nodeid" for i
    using that by (auto simp: frontier_def pend' pend_old nth_old)
  have int': "node_internal n'" by (simp add: n')
  have fr_id: "\<not> frontier ?nodes' ?queue' nodeid"
    using id(1,3) int' by (simp add: frontier_def pend' nth_id)
  have fr_id_old: "frontier nodes ?old nodeid"
    by (simp add: frontier_def pend_old)
  have old_dis: "span (rs i) \<inter> span (s, e) = {}" if "i < ?c" "i \<noteq> nodeid" "frontier nodes ?old i" for i
    using build_inv_disjoint [OF inv that(1) id(1) that(2,3) fr_id_old] id(2) by simp
  have old_lam: "span (s, e) \<subseteq> span (rs i) \<or> span (s, e) \<inter> span (rs i) = {}" if "i < ?c" for i
  proof -
    have "nodeid \<in> pending ?old" by (simp add: pend_old)
    then have "span (rs nodeid) \<subseteq> span (rs i) \<or> span (rs nodeid) \<inter> span (rs i) = {}"
      by (rule build_inv_laminar [OF inv that])
    then show ?thesis by (simp add: id(2))
  qed
  have halves: "span (s, e) = span (s, mid) \<union> span (mid, e)" "span (s, mid) \<inter> span (mid, e) = {}"
    using span_halves [of s mid e] mid by simp_all
  have new_sub: "span (rs' b) \<subseteq> span (s, e)" if "b = ?c \<or> b = Suc ?c" for b
    using that mid by (auto simp: rs_new span_def)
  have box_old: "range_bbox ps' (fst (rs i)) (snd (rs i)) = range_bbox ps (fst (rs i)) (snd (rs i))"
    if "i < ?c" for i
  proof -
    obtain a b where ab: "rs i = (a, b)" by (cases "rs i")
    have le: "a \<le> b" using base(6) that ab by auto
    from old_lam [OF that] show ?thesis
    proof
      assume "span (s, e) \<subseteq> span (rs i)"
      then have "a \<le> s \<and> e \<le> b" using span_subset [OF se(1)] ab by simp
      then have "mset (subrange ps' a b) = mset (subrange ps a b)" using ent(3) by simp
      then have "range_bbox ps' a b = range_bbox ps a b" by (rule range_bbox_mset)
      then show ?thesis using ab by simp
    next
      assume "span (s, e) \<inter> span (rs i) = {}"
      then have "b \<le> s \<or> e \<le> a \<or> b \<le> a" using span_disjoint [OF se(1)] ab by simp
      then show ?thesis
      proof (elim disjE)
        assume "b \<le> a"
        then show ?thesis using ab by (simp add: range_bbox_def subrange_def)
      qed (use ent(4) ab in \<open>simp_all add: range_bbox_def\<close>)
    qed
  qed
  have c1: "length ps' = N" by (rule ent(1))
  have c4: "distinct (map fst ?queue')"
    using base(4) pend_lt by (fastforce simp: pending_def)
  have c5: "\<forall>q \<in> set ?queue'. fst q < length ?nodes' \<and> rs' (fst q) = snd q"
    using base(5) rs_old rs_new by auto
  have c6: "\<forall>i < length ?nodes'. fst (rs' i) \<le> snd (rs' i) \<and> snd (rs' i) \<le> N"
  proof (intro allI impI)
    fix i assume "i < length ?nodes'"
    then consider "i < ?c" | "i = ?c" | "i = Suc ?c" by force
    then show "fst (rs' i) \<le> snd (rs' i) \<and> snd (rs' i) \<le> N"
      using base(6) rs_old rs_new mid se by cases auto
  qed
  have c7: "\<forall>i < length ?nodes'. i \<notin> pending ?queue' \<longrightarrow>
      node_done (length ?nodes') (?nodes' ! i) ps' rs' (rs' i)"
  proof (intro allI impI)
    fix i assume i: "i < length ?nodes'" "i \<notin> pending ?queue'"
    then have ic: "i < ?c" by (force simp: pend')
    show "node_done (length ?nodes') (?nodes' ! i) ps' rs' (rs' i)"
    proof (cases "i = nodeid")
      case True
      have box: "range_bbox ps' s e = range_bbox ps s e"
        using box_old [OF id(1)] id(2) by simp
      have f: "node_bbox n' = range_bbox ps s e" "node_internal n'" "node_num n' = 2"
        "node_start n' = ?c"
        by (simp_all add: n')
      have "\<exists>m. s < m \<and> m < e \<and> rs' ?c = (s, m) \<and> rs' (?c + 1) = (m, e)"
        using mid rs_new by (intro exI [of _ mid]) simp
      then have "node_done (length ?nodes') n' ps' rs' (s, e)"
        using big by (simp add: node_done_def f box)
      then show ?thesis
        by (simp only: True nth_id rs_old [OF id(1)] id(2))
    next
      case False
      have "i \<notin> pending ?old" using i(2) False by (simp add: pend_old pend')
      then have "node_done ?c (nodes ! i) ps rs (rs i)"
        by (rule build_inv_done [OF inv ic])
      then have "node_done (length ?nodes') (nodes ! i) ps' rs' (rs i)"
        by (rule node_done_cong) (simp_all add: box_old [OF ic] rs_old)
      then show ?thesis by (simp only: nth_old [OF ic False] rs_old [OF ic])
    qed
  qed
  have c8: "\<forall>i < length ?nodes'. \<forall>j \<in> pending ?queue'.
      span (rs' j) \<subseteq> span (rs' i) \<or> span (rs' j) \<inter> span (rs' i) = {}"
  proof (intro allI impI ballI)
    fix i j assume i: "i < length ?nodes'" and j: "j \<in> pending ?queue'"
    consider (old) "i < ?c" | (new) "i = ?c \<or> i = Suc ?c" using i by force
    then show "span (rs' j) \<subseteq> span (rs' i) \<or> span (rs' j) \<inter> span (rs' i) = {}"
    proof cases
      case old
      consider (jold) "j \<in> pending queue" | (jnew) "j = ?c \<or> j = Suc ?c" using j pend' by auto
      then show ?thesis
      proof cases
        case jold
        then have "j \<in> pending ?old" by (simp add: pend_old)
        then have "span (rs j) \<subseteq> span (rs i) \<or> span (rs j) \<inter> span (rs i) = {}"
          by (rule build_inv_laminar [OF inv old])
        then show ?thesis using rs_old [OF old] rs_old [OF pend_lt [OF jold]] by simp
      next
        case jnew
        then have "span (rs' j) \<subseteq> span (s, e)" by (rule new_sub)
        then show ?thesis using old_lam [OF old] rs_old [OF old] by auto
      qed
    next
      case new
      then have sub: "span (rs' i) \<subseteq> span (s, e)" by (rule new_sub)
      consider (jold) "j \<in> pending queue" | (jnew) "j = ?c \<or> j = Suc ?c" using j pend' by auto
      then show ?thesis
      proof cases
        case jold
        have jc: "j < ?c" by (rule pend_lt [OF jold])
        have "j \<noteq> nodeid" using jold id(3) by auto
        moreover have "frontier nodes ?old j" using jold by (simp add: frontier_def pend_old)
        ultimately have "span (rs j) \<inter> span (s, e) = {}" using old_dis jc by simp
        then show ?thesis using sub rs_old [OF jc] by auto
      next
        case jnew
        then show ?thesis using new rs_new halves(2) by auto
      qed
    qed
  qed
  have c9: "\<forall>i < length ?nodes'. \<forall>j < length ?nodes'.
      i \<noteq> j \<longrightarrow> frontier ?nodes' ?queue' i \<longrightarrow> frontier ?nodes' ?queue' j \<longrightarrow>
      span (rs' i) \<inter> span (rs' j) = {}"
  proof (intro allI impI)
    fix i j assume i: "i < length ?nodes'" and j: "j < length ?nodes'" and ne: "i \<noteq> j"
      and fi: "frontier ?nodes' ?queue' i" and fj: "frontier ?nodes' ?queue' j"
    have vs_new: "span (rs' a) \<inter> span (rs' b) = {}"
      if "a < ?c" "frontier ?nodes' ?queue' a" "b = ?c \<or> b = Suc ?c" for a b
    proof -
      have "a \<noteq> nodeid" using that(2) fr_id by auto
      then have "span (rs a) \<inter> span (s, e) = {}"
        using old_dis that(1,2) fr_old by simp
      moreover have "span (rs' b) \<subseteq> span (s, e)" using that(3) by (rule new_sub)
      ultimately show ?thesis using rs_old [OF that(1)] by auto
    qed
    consider (oo) "i < ?c" "j < ?c" | (on) "i < ?c" "j = ?c \<or> j = Suc ?c"
      | (no) "i = ?c \<or> i = Suc ?c" "j < ?c" | (nn) "i = ?c \<or> i = Suc ?c" "j = ?c \<or> j = Suc ?c"
      using i j by force
    then show "span (rs' i) \<inter> span (rs' j) = {}"
    proof cases
      case oo
      have "i \<noteq> nodeid" "j \<noteq> nodeid" using fi fj fr_id by auto
      then have "frontier nodes ?old i" "frontier nodes ?old j" using fi fj fr_old oo by simp_all
      then have "span (rs i) \<inter> span (rs j) = {}"
        by (rule build_inv_disjoint [OF inv oo ne])
      then show ?thesis using rs_old oo by simp
    next
      case on
      then show ?thesis using vs_new [of i j] fi by simp
    next
      case no
      then show ?thesis using vs_new [of j i] fj by (simp add: Int_commute)
    next
      case nn
      then show ?thesis using ne rs_new halves(2) by (auto simp: Int_commute)
    qed
  qed
  have c10: "\<forall>k < N. \<exists>i < length ?nodes'. frontier ?nodes' ?queue' i \<and> k \<in> span (rs' i)"
  proof (intro allI impI)
    fix k assume "k < N"
    then obtain i where i: "i < ?c" "frontier nodes ?old i" "k \<in> span (rs i)"
      using build_inv_cover [OF inv] by blast
    show "\<exists>i < length ?nodes'. frontier ?nodes' ?queue' i \<and> k \<in> span (rs' i)"
    proof (cases "i = nodeid")
      case True
      then have "k \<in> span (s, mid) \<or> k \<in> span (mid, e)" using i(3) id(2) halves(1) by auto
      then show ?thesis
      proof
        assume "k \<in> span (s, mid)"
        then show ?thesis
          by (intro exI [of _ ?c]) (simp add: frontier_def pend' rs_new)
      next
        assume "k \<in> span (mid, e)"
        then show ?thesis
          by (intro exI [of _ "Suc ?c"]) (simp add: frontier_def pend' rs_new)
      qed
    next
      case False
      then show ?thesis
        using i fr_old rs_old by (intro exI [of _ i]) simp
    qed
  qed
  have c3: "rs' 0 = (0, N)" using base(2,3) rs_old by simp
  show ?thesis
    unfolding build_inv_def
    using c1 c3 c4 c5 c6 c7 c8 c9 c10 by simp
qed

lemma build_inv_step:
  assumes inv: "build_inv N nodes ps (nx # queue) rs"
    and step: "build_step nodes ps nx = (nodes', ps', pushed)"
  shows "(\<exists>rs'. build_inv N nodes' ps' (queue @ pushed) rs') \<and> mset ps' = mset ps"
proof -
  obtain nodeid s e where nx: "nx = (nodeid, s, e)"
    by (cases nx) auto
  have id: "nodeid < length nodes" "rs nodeid = (s, e)"
    using inv by (auto simp: build_inv_def nx)
  have se: "s \<le> e" "e \<le> length ps"
    using inv id by (auto simp: build_inv_def)
  show ?thesis
  proof (cases "bvh_max_prims < e - s")
    case False
    define n' where "n' = (nodes ! nodeid)\<lparr>node_bbox := range_bbox ps s e, node_internal := False,
                                   node_num := e - s, node_start := s\<rparr>"
    have "nodes' = nodes[nodeid := n']" "ps' = ps" "pushed = []"
      using step False by (auto simp: build_step_def nx Let_def n'_def)
    moreover have "build_inv N (nodes[nodeid := n']) ps queue rs"
      using inv False by (intro build_inv_leaf [OF _ _ n'_def]) (simp_all add: nx)
    ultimately show ?thesis by auto
  next
    case True
    obtain ps1 mid ax where sm: "split_middle ps s e = (ps1, mid, ax)"
      by (cases "split_middle ps s e") auto
    define n' where "n' = (nodes ! nodeid)\<lparr>node_bbox := range_bbox ps s e, node_internal := True,
                                   node_axis := ax, node_num := 2, node_start := length nodes\<rparr>"
    define rs' where "rs' = rs(length nodes := (s, mid), Suc (length nodes) := (mid, e))"
    have res: "nodes' = nodes[nodeid := n'] @ [new_node, new_node]" "ps' = ps1"
      "pushed = [(length nodes, s, mid), (Suc (length nodes), mid, e)]"
      using step True by (auto simp: build_step_def nx Let_def n'_def sm)
    have "build_inv N (nodes[nodeid := n'] @ [new_node, new_node]) ps1
           (queue @ [(length nodes, s, mid), (Suc (length nodes), mid, e)]) rs'"
      using inv by (intro build_inv_split [OF _ True sm n'_def rs'_def]) (simp add: nx)
    moreover have "mset ps1 = mset ps"
      by (rule split_middle_entries(2) [OF se sm])
    ultimately show ?thesis using res by auto
  qed
qed

lemma build_inv_loop:
  assumes "build_inv N nodes ps queue rs" "build_loop nodes ps queue = (nodes', ps')"
  shows "(\<exists>rs'. build_inv N nodes' ps' [] rs') \<and> mset ps' = mset ps"
  using assms
proof (induction nodes ps queue arbitrary: rs rule: build_loop.induct)
  case (1 nodes primitives)
  then show ?case by auto
next
  case (2 nodes primitives nx queue)
  obtain nodes1 ps1 pushed where st: "build_step nodes primitives nx = (nodes1, ps1, pushed)"
    by (cases "build_step nodes primitives nx") auto
  obtain rs1 where inv1: "build_inv N nodes1 ps1 (queue @ pushed) rs1" and m1: "mset ps1 = mset primitives"
    using build_inv_step [OF "2.prems"(1) st] by auto
  have "build_loop nodes1 ps1 (queue @ pushed) = (nodes', ps')"
    using "2.prems"(2) st by simp
  then have "(\<exists>rs'. build_inv N nodes' ps' [] rs') \<and> mset ps' = mset ps1"
    using "2.IH" [OF st [symmetric] refl inv1] by simp
  then show ?case using m1 by simp
qed

section \<open>The finished tree\<close>

text \<open>
  What the finished tree is expected to satisfy. The entries a leaf refers to are those of
  its range \<^verbatim>\<open>[start, start + num)\<close>, as the traversal reads them.
\<close>

definition leaf_entries :: "bvh_node \<Rightarrow> 'a list \<Rightarrow> 'a list" where
  "leaf_entries n xs = subrange xs (node_start n) (node_start n + node_num n)"

definition leaf_boxes :: "bvh_node list \<Rightarrow> bvh_primitive list \<Rightarrow> bbox3f list" where
  "leaf_boxes nodes ps =
     concat (map (\<lambda>n. map prim_bbox (leaf_entries n ps)) (filter (\<lambda>n. \<not> node_internal n) nodes))"

definition node_ok :: "bvh_node list \<Rightarrow> bvh_primitive list \<Rightarrow> bvh_node \<Rightarrow> bool" where
  "node_ok nodes ps n =
     (if node_internal n
      then node_num n = 2 \<and> node_start n + 1 < length nodes \<and>
           node_bbox n = merge (node_bbox (nodes ! node_start n))
                               (node_bbox (nodes ! (node_start n + 1)))
      else node_num n \<le> bvh_max_prims \<and> node_start n + node_num n \<le> length ps \<and>
           node_bbox n = range_bbox ps (node_start n) (node_start n + node_num n))"

definition leaves_naming :: "bvh_node list \<Rightarrow> nat list \<Rightarrow> nat \<Rightarrow> nat list" where
  "leaves_naming nodes perm p =
     filter (\<lambda>i. \<not> node_internal (nodes ! i) \<and> p \<in> set (leaf_entries (nodes ! i) perm))
       [0 ..< length nodes]"

definition tree_invariant :: "bvh_node list \<Rightarrow> bvh_primitive list \<Rightarrow> nat \<Rightarrow> bool" where
  "tree_invariant nodes ps N =
     (nodes \<noteq> [] \<and>
      mset (map prim_primitive ps) = mset [0 ..< N] \<and>
      merge_all (leaf_boxes nodes ps) invalidb3f = node_bbox (nodes ! 0) \<and>
      (\<forall>n \<in> set nodes. node_ok nodes ps n) \<and>
      (\<forall>p \<in> {..< N}. length (leaves_naming nodes (map prim_primitive ps) p) = 1))"

definition leaf_holds :: "bvh_node \<Rightarrow> nat \<Rightarrow> bool" where
  "leaf_holds n k = (\<not> node_internal n \<and> node_start n \<le> k \<and> k < node_start n + node_num n)"

lemma filter_one:
  assumes "\<exists>!i. i < n \<and> P i"
  shows "length (filter P [0 ..< n]) = 1"
proof -
  obtain a where a: "a < n" "P a" and u: "\<And>i. i < n \<Longrightarrow> P i \<Longrightarrow> i = a"
    using assms by auto
  have "{i. i < length [0 ..< n] \<and> P ([0 ..< n] ! i)} = {i. i < n \<and> P i}"
    by (rule Collect_cong) (simp cong: conj_cong)
  also have "\<dots> = {a}"
    using a u by blast
  finally have "{i. i < length [0 ..< n] \<and> P ([0 ..< n] ! i)} = {a}" .
  then show ?thesis
    by (simp add: length_filter_conv_card)
qed

lemma final_pending: "pending [] = {}"
  by (simp add: pending_def)

lemma final_frontier: "frontier nodes [] i = (\<not> node_internal (nodes ! i))"
  by (simp add: frontier_def final_pending)

lemma final_done:
  "build_inv N nodes ps [] rs \<Longrightarrow> i < length nodes \<Longrightarrow>
   node_done (length nodes) (nodes ! i) ps rs (rs i)"
  using build_inv_done [of N nodes ps "[]" rs i] by (simp add: final_pending)

lemma node_done_internal:
  assumes "node_done len n ps rs r" "node_internal n"
  shows "node_num n = 2" "node_start n + 1 < len" "node_bbox n = range_bbox ps (fst r) (snd r)"
    "\<exists>m. fst r < m \<and> m < snd r \<and> rs (node_start n) = (fst r, m) \<and>
         rs (node_start n + 1) = (m, snd r)"
  using assms by (simp_all add: node_done_def)

lemma node_done_box: "node_done len n ps rs r \<Longrightarrow> node_bbox n = range_bbox ps (fst r) (snd r)"
  by (simp add: node_done_def)

lemma final_range:
  "build_inv N nodes ps [] rs \<Longrightarrow> i < length nodes \<Longrightarrow> fst (rs i) \<le> snd (rs i) \<and> snd (rs i) \<le> N"
  by (simp add: build_inv_def)

lemma final_leaf:
  assumes inv: "build_inv N nodes ps [] rs" and i: "i < length nodes"
    and leaf: "\<not> node_internal (nodes ! i)"
  shows "node_start (nodes ! i) = fst (rs i)"
    "node_start (nodes ! i) + node_num (nodes ! i) = snd (rs i)"
    "node_num (nodes ! i) \<le> bvh_max_prims"
    "node_bbox (nodes ! i) = range_bbox ps (fst (rs i)) (snd (rs i))"
  using final_done [OF inv i] final_range [OF inv i] leaf by (simp_all add: node_done_def)

lemma final_leaf_holds:
  assumes inv: "build_inv N nodes ps [] rs" and i: "i < length nodes"
  shows "leaf_holds (nodes ! i) k \<longleftrightarrow> \<not> node_internal (nodes ! i) \<and> k \<in> span (rs i)"
  using final_leaf(1,2) [OF inv i] by (auto simp: leaf_holds_def span_def)

lemma final_tiling:
  assumes inv: "build_inv N nodes ps [] rs" and k: "k < N"
  shows "\<exists>!i. i < length nodes \<and> leaf_holds (nodes ! i) k"
proof -
  obtain i where i: "i < length nodes" "\<not> node_internal (nodes ! i)" "k \<in> span (rs i)"
    using build_inv_cover [OF inv k] by (auto simp: final_frontier)
  have "j = i" if j: "j < length nodes" "leaf_holds (nodes ! j) k" for j
  proof (rule ccontr)
    assume ne: "j \<noteq> i"
    have lj: "\<not> node_internal (nodes ! j)" "k \<in> span (rs j)"
      using j final_leaf_holds [OF inv j(1)] by auto
    have "span (rs j) \<inter> span (rs i) = {}"
      using build_inv_disjoint [OF inv j(1) i(1) ne] lj(1) i(2) by (simp add: final_frontier)
    then show False using lj(2) i(3) by auto
  qed
  moreover have "leaf_holds (nodes ! i) k"
    using i final_leaf_holds [OF inv i(1)] by auto
  ultimately show ?thesis using i(1) by auto
qed

lemma final_node_ok:
  assumes inv: "build_inv N nodes ps [] rs" and i: "i < length nodes"
  shows "node_ok nodes ps (nodes ! i)"
proof (cases "node_internal (nodes ! i)")
  case False
  have "length ps = N" using inv by (simp add: build_inv_def)
  then show ?thesis
    using False final_leaf [OF inv i False] final_range [OF inv i] by (simp add: node_ok_def)
next
  case True
  define c where "c = node_start (nodes ! i)"
  obtain m where d: "node_num (nodes ! i) = 2" "c + 1 < length nodes"
    "fst (rs i) < m" "m < snd (rs i)" "rs c = (fst (rs i), m)" "rs (c + 1) = (m, snd (rs i))"
    "node_bbox (nodes ! i) = range_bbox ps (fst (rs i)) (snd (rs i))"
    using node_done_internal [OF final_done [OF inv i] True] unfolding c_def by blast
  have c0: "c < length nodes" using d(2) by simp
  have b0: "node_bbox (nodes ! c) = range_bbox ps (fst (rs i)) m"
    using node_done_box [OF final_done [OF inv c0]] d(5) by simp
  have b1: "node_bbox (nodes ! (c + 1)) = range_bbox ps m (snd (rs i))"
    using node_done_box [OF final_done [OF inv d(2)]] d(6) by simp
  have "range_bbox ps (fst (rs i)) (snd (rs i)) =
        merge (range_bbox ps (fst (rs i)) m) (range_bbox ps m (snd (rs i)))"
    using d(3,4) by (intro range_bbox_split) simp_all
  then show ?thesis
    using True d(1,2,7) b0 b1 by (simp add: node_ok_def c_def)
qed

lemma final_root:
  assumes inv: "build_inv N nodes ps [] rs"
  shows "node_bbox (nodes ! 0) = merge_all (map prim_bbox ps) invalidb3f"
proof -
  have z: "0 < length nodes" "rs 0 = (0, N)" "length ps = N"
    using inv by (simp_all add: build_inv_def)
  have "node_bbox (nodes ! 0) = range_bbox ps 0 N"
    using node_done_box [OF final_done [OF inv z(1)]] z(2) by simp
  also have "\<dots> = merge_all (map prim_bbox ps) invalidb3f"
    using z(3) by (simp add: range_bbox_merge_all subrange_def)
  finally show ?thesis .
qed

lemma leaf_entries_set:
  "node_start n + node_num n \<le> length xs \<Longrightarrow>
   x \<in> set (leaf_entries n xs) \<longleftrightarrow> (\<exists>k. node_start n \<le> k \<and> k < node_start n + node_num n \<and> x = xs ! k)"
  by (auto simp: leaf_entries_def set_subrange)

lemma leaf_entries_subset: "set (leaf_entries n xs) \<subseteq> set xs"
  unfolding leaf_entries_def subrange_def
  by (meson set_take_subset set_drop_subset subset_trans)

lemma final_leaf_boxes:
  assumes inv: "build_inv N nodes ps [] rs"
  shows "set (leaf_boxes nodes ps) = set (map prim_bbox ps)"
proof
  show "set (leaf_boxes nodes ps) \<subseteq> set (map prim_bbox ps)"
    using leaf_entries_subset [of _ ps] by (auto simp: leaf_boxes_def)
next
  have len: "length ps = N" using inv by (simp add: build_inv_def)
  show "set (map prim_bbox ps) \<subseteq> set (leaf_boxes nodes ps)"
  proof
    fix b assume "b \<in> set (map prim_bbox ps)"
    then obtain k where k: "k < N" "b = prim_bbox (ps ! k)"
      using len by (auto simp: in_set_conv_nth)
    obtain i where i: "i < length nodes" "leaf_holds (nodes ! i) k"
      using final_tiling [OF inv k(1)] by auto
    have leaf: "\<not> node_internal (nodes ! i)" using i(2) by (simp add: leaf_holds_def)
    have "node_start (nodes ! i) + node_num (nodes ! i) \<le> length ps"
      using final_leaf(2) [OF inv i(1) leaf] final_range [OF inv i(1)] len by simp
    then have "ps ! k \<in> set (leaf_entries (nodes ! i) ps)"
      using i(2) by (auto simp: leaf_entries_set leaf_holds_def)
    moreover have "nodes ! i \<in> set (filter (\<lambda>n. \<not> node_internal n) nodes)"
      using i(1) leaf by simp
    ultimately show "b \<in> set (leaf_boxes nodes ps)"
      unfolding leaf_boxes_def k(2) by (auto simp del: set_filter)
  qed
qed

lemma final_naming:
  assumes inv: "build_inv N nodes ps [] rs"
    and perm: "mset (map prim_primitive ps) = mset [0 ..< N]"
    and p: "p < N"
  shows "length (leaves_naming nodes (map prim_primitive ps) p) = 1"
proof -
  define perm' where "perm' = map prim_primitive ps"
  have len: "length perm' = N"
    using inv by (simp add: build_inv_def perm'_def)
  have dist: "distinct perm'"
    using perm mset_eq_imp_distinct_iff [of perm' "[0 ..< N]"] by (simp add: perm'_def)
  have "p \<in> set perm'"
    using perm p mset_eq_setD [of perm' "[0 ..< N]"] by (simp add: perm'_def)
  then obtain k where k: "k < N" "perm' ! k = p"
    using len by (auto simp: in_set_conv_nth)
  have same: "(\<not> node_internal (nodes ! i) \<and> p \<in> set (leaf_entries (nodes ! i) perm')) \<longleftrightarrow>
              leaf_holds (nodes ! i) k" if i: "i < length nodes" for i
  proof (cases "node_internal (nodes ! i)")
    case True
    then show ?thesis by (simp add: leaf_holds_def)
  next
    case False
    have e: "node_start (nodes ! i) + node_num (nodes ! i) \<le> length perm'"
      using final_leaf(2) [OF inv i False] final_range [OF inv i] len by simp
    have "p \<in> set (leaf_entries (nodes ! i) perm') \<longleftrightarrow>
          (node_start (nodes ! i) \<le> k \<and> k < node_start (nodes ! i) + node_num (nodes ! i))"
    proof
      assume "p \<in> set (leaf_entries (nodes ! i) perm')"
      then obtain k' where k': "node_start (nodes ! i) \<le> k'"
        "k' < node_start (nodes ! i) + node_num (nodes ! i)" "p = perm' ! k'"
        using e by (auto simp: leaf_entries_set)
      have "k' < length perm'" using k'(2) e by simp
      then have "k' = k"
        using dist k k'(3) len by (simp add: nth_eq_iff_index_eq)
      then show "node_start (nodes ! i) \<le> k \<and> k < node_start (nodes ! i) + node_num (nodes ! i)"
        using k' by simp
    next
      assume "node_start (nodes ! i) \<le> k \<and> k < node_start (nodes ! i) + node_num (nodes ! i)"
      then show "p \<in> set (leaf_entries (nodes ! i) perm')"
        using e k(2) by (auto simp: leaf_entries_set)
    qed
    then show ?thesis using False by (simp add: leaf_holds_def)
  qed
  have "\<exists>!i. i < length nodes \<and>
          (\<not> node_internal (nodes ! i) \<and> p \<in> set (leaf_entries (nodes ! i) perm'))"
    using final_tiling [OF inv k(1)] same by auto
  then show ?thesis
    unfolding leaves_naming_def perm'_def [symmetric] by (rule filter_one)
qed

lemma build_inv_tree:
  assumes inv: "build_inv N nodes ps [] rs"
    and perm: "mset (map prim_primitive ps) = mset [0 ..< N]"
  shows "tree_invariant nodes ps N"
proof -
  have "nodes \<noteq> []" using inv by (auto simp: build_inv_def)
  moreover have "merge_all (leaf_boxes nodes ps) invalidb3f = node_bbox (nodes ! 0)"
    using merge_all_set [OF final_leaf_boxes [OF inv]] final_root [OF inv] by simp
  moreover have "\<forall>n \<in> set nodes. node_ok nodes ps n"
    using final_node_ok [OF inv] by (auto simp: in_set_conv_nth)
  moreover have "\<forall>p \<in> {..< N}. length (leaves_naming nodes (map prim_primitive ps) p) = 1"
    using final_naming [OF inv perm] by simp
  ultimately show ?thesis
    using perm by (simp add: tree_invariant_def)
qed

text \<open>
  C5. For entries numbered 0 to N - 1, as \<^verbatim>\<open>init_bvh\<close> numbers them, the tree that
  \<^verbatim>\<open>build_bvh\<close> returns has: the boxes of the entries of all leaves merging to the box of the
  root; every node either internal, with two children whose boxes merge to its box, or a leaf
  of at most four entries over one range of the reordered entries, whose box is the merge
  of the boxes there; and each index 0 to N - 1 in the range of exactly one leaf, the
  reordered indices being a permutation of 0 to N - 1.
\<close>

theorem build_bvh_invariant:
  assumes "map prim_primitive primitives = [0 ..< length primitives]"
    and "build_bvh primitives = (nodes, primitives')"
  shows "tree_invariant nodes primitives' (length primitives)"
proof -
  obtain rs where inv: "build_inv (length primitives) nodes primitives' [] rs"
    and m: "mset primitives' = mset primitives"
    using build_inv_loop [OF build_inv_init] assms(2) unfolding build_bvh_def by blast
  have "mset (map prim_primitive primitives') = mset (map prim_primitive primitives)"
    using m by (metis mset_map)
  then have "mset (map prim_primitive primitives') = mset [0 ..< length primitives]"
    using assms(1) by simp
  then show ?thesis
    by (rule build_inv_tree [OF inv])
qed

theorem build_bvh_invariant_witness:
  "map prim_primitive five_coincident = [0 ..< length five_coincident] \<and>
   build_bvh five_coincident =
     ([origin_node\<lparr>node_internal := True, node_num := 2, node_start := 1\<rparr>,
       origin_node\<lparr>node_start := 0, node_num := 2\<rparr>,
       origin_node\<lparr>node_start := 2, node_num := 3\<rparr>], five_coincident) \<and>
   tree_invariant
     [origin_node\<lparr>node_internal := True, node_num := 2, node_start := 1\<rparr>,
      origin_node\<lparr>node_start := 0, node_num := 2\<rparr>,
      origin_node\<lparr>node_start := 2, node_num := 3\<rparr>] five_coincident (length five_coincident)"
proof -
  have ids: "map prim_primitive five_coincident = [0 ..< length five_coincident]"
    by (simp add: five_coincident_def coincident_entry_def upt_rec)
  show ?thesis
    using build_bvh_invariant [OF ids five_coincident_tree] ids five_coincident_tree by simp
qed

end
